(* ===== verification/Prelude.thy ===== *)
theory Prelude
  imports Main "HOL-Library.Word" "HOL-Library.AList" "HOL-Library.List_Lexorder" "HOL-Library.Char_ord"
begin

text \<open>
  Shared vocabulary of the development: the fixed-width integer types of the program
  (LP64: \<open>unsigned char\<close>, \<open>unsigned int\<close>, \<open>unsigned long\<close>), C++ exceptions and undefined
  behaviour as error values, the sequencing operator of fallible code, a generic interface
  of keyed containers, and the two containers of the C++ library the program iterates
  over: \<open>std::map\<close> as an association list in key order.
\<close>

section \<open>Integer types\<close>

type_synonym u8 = "8 word"
type_synonym u16 = "16 word"
type_synonym u32 = "32 word"
type_synonym u64 = "64 word"

section \<open>Exceptions and undefined behaviour\<close>

text \<open>
  \<open>UB\<close> values stand for an operation whose effect the C++ standard leaves undefined; they
  are never caught by a handler, while the other values are \<open>std::exception\<close>s.
\<close>

datatype undefined_behaviour =
    Null_pointer | Dangling_iterator | Front_of_empty_list | Pop_back_of_empty | Index_past_end | Signed_overflow |
    Uninitialised_read

datatype exn =
    Out_of_range | Invalid_argument | Length_error | System_error | UB undefined_behaviour

type_synonym 'a res = "exn + 'a"

definition bindE :: "'a res \<Rightarrow> ('a \<Rightarrow> 'b res) \<Rightarrow> 'b res" where
  "bindE r f = (case r of Inl e \<Rightarrow> Inl e | Inr x \<Rightarrow> f x)"

text \<open>\<open>try { r } catch (const std::exception&) { h }\<close>\<close>

definition catchE :: "'a res \<Rightarrow> 'a res \<Rightarrow> 'a res" where
  "catchE r h = (case r of Inl (UB u) \<Rightarrow> Inl (UB u) | Inl _ \<Rightarrow> h | Inr x \<Rightarrow> Inr x)"

named_theorems res_simps "rewriting of fallible code"
named_theorems keeps "preservation lemmas of component invariants"

lemma bindE_simps [simp, res_simps]:
  "bindE (Inl e) f = Inl e"
  "bindE (Inr x) f = f x"
  by (simp_all add: bindE_def)

lemma bindE_Inr_iff: "bindE r f = Inr y \<longleftrightarrow> (\<exists>x. r = Inr x \<and> f x = Inr y)"
  by (cases r) simp_all

lemma bindE_Inl_iff: "bindE r f = Inl e \<longleftrightarrow> r = Inl e \<or> (\<exists>x. r = Inr x \<and> f x = Inl e)"
  by (cases r) simp_all

lemma bindE_InrE [elim!]:
  assumes "bindE r f = Inr y"
  obtains x where "r = Inr x" and "f x = Inr y"
  using assms by (auto simp: bindE_Inr_iff)

lemma bindE_assoc: "bindE (bindE r f) g = bindE r (\<lambda>x. bindE (f x) g)"
  by (cases r) simp_all

lemma bindE_cong [fundef_cong]:
  "r = r' \<Longrightarrow> (\<And>x. r' = Inr x \<Longrightarrow> f x = f' x) \<Longrightarrow> bindE r f = bindE r' f'"
  by (cases r') simp_all

lemma catchE_simps [simp, res_simps]:
  "catchE (Inr x) h = Inr x"
  "catchE (Inl (UB u)) h = Inl (UB u)"
  "catchE (Inl Out_of_range) h = h"
  "catchE (Inl Invalid_argument) h = h"
  "catchE (Inl Length_error) h = h"
  "catchE (Inl System_error) h = h"
  by (simp_all add: catchE_def)

lemma catchE_split_Inr:
  "catchE r h = Inr y \<longleftrightarrow> r = Inr y \<or> (\<exists>e. r = Inl e \<and> (\<forall>u. e \<noteq> UB u) \<and> h = Inr y)"
  by (auto simp: catchE_def split: sum.splits exn.splits)

section \<open>The interface of keyed containers\<close>

text \<open>
  What the program relies on wherever it uses a \<open>std::map\<close> or \<open>std::unordered_map\<close>: a
  lookup after \<open>emplace\<close> finds the old value if there was one and the new value otherwise,
  a lookup after \<open>erase\<close> finds nothing, other keys are not touched.
\<close>

locale keyed_container =
  fixes find :: "'k \<Rightarrow> 'm \<Rightarrow> 'v option"
    and emplace :: "'k \<Rightarrow> 'v \<Rightarrow> 'm \<Rightarrow> 'm"
    and erase :: "'k \<Rightarrow> 'm \<Rightarrow> 'm"
    and wf :: "'m \<Rightarrow> bool"
  assumes find_emplace: "wf m \<Longrightarrow> find k' (emplace k v m) =
      (if k' = k \<and> find k m = None then Some v else find k' m)"
    and find_erase: "wf m \<Longrightarrow> find k' (erase k m) = (if k' = k then None else find k' m)"
    and wf_emplace: "wf m \<Longrightarrow> wf (emplace k v m)"
    and wf_erase: "wf m \<Longrightarrow> wf (erase k m)"
begin

lemma emplace_keeps: "wf m \<Longrightarrow> find k m = Some w \<Longrightarrow> find k (emplace k v m) = Some w"
  by (simp add: find_emplace)

lemma emplace_new: "wf m \<Longrightarrow> find k m = None \<Longrightarrow> find k (emplace k v m) = Some v"
  by (simp add: find_emplace)

lemma emplace_present: "wf m \<Longrightarrow> find k (emplace k v m) \<noteq> None"
  by (auto simp: find_emplace)

lemma erase_then_emplace:
  "wf m \<Longrightarrow> find k' (emplace k v (erase k m)) = (if k' = k then Some v else find k' m)"
  by (simp add: find_emplace find_erase wf_erase)

lemma emplace_then_erase:
  "wf m \<Longrightarrow> find k m = None \<Longrightarrow> find k' (erase k (emplace k v m)) = find k' m"
  by (simp add: find_emplace find_erase wf_emplace)

lemma erase_idem: "wf m \<Longrightarrow> find k' (erase k (erase k m)) = find k' (erase k m)"
  by (simp add: find_erase wf_erase)

end

subsection \<open>Maps that are never iterated: partial functions\<close>

definition fm_emplace :: "'k \<Rightarrow> 'v \<Rightarrow> ('k \<rightharpoonup> 'v) \<Rightarrow> ('k \<rightharpoonup> 'v)" where
  "fm_emplace k v m = (case m k of None \<Rightarrow> m(k \<mapsto> v) | Some _ \<Rightarrow> m)"

definition fm_erase :: "'k \<Rightarrow> ('k \<rightharpoonup> 'v) \<Rightarrow> ('k \<rightharpoonup> 'v)" where
  "fm_erase k m = m(k := None)"

definition at_key :: "('k \<rightharpoonup> 'v) \<Rightarrow> 'k \<Rightarrow> 'v res" where
  "at_key m k = (case m k of None \<Rightarrow> Inl Out_of_range | Some v \<Rightarrow> Inr v)"

lemma fm_emplace_apply [simp]:
  "fm_emplace k v m k' = (if k' = k \<and> m k = None then Some v else m k')"
  by (auto simp: fm_emplace_def split: option.splits)

lemma fm_erase_apply [simp]: "fm_erase k m k' = (if k' = k then None else m k')"
  by (simp add: fm_erase_def)

lemma at_key_simps [simp, res_simps]:
  "m k = None \<Longrightarrow> at_key m k = Inl Out_of_range"
  "m k = Some v \<Longrightarrow> at_key m k = Inr v"
  by (simp_all add: at_key_def)

lemma at_key_Inr_iff [simp]: "at_key m k = Inr v \<longleftrightarrow> m k = Some v"
  by (cases "m k") simp_all

lemma at_key_Inl: "at_key m k = Inl e \<longleftrightarrow> m k = None \<and> e = Out_of_range"
  by (cases "m k") auto

interpretation fmap: keyed_container "\<lambda>k m. m k" fm_emplace fm_erase "\<lambda>_. True"
  by unfold_locales auto

subsection \<open>Maps that are iterated in key order: sorted association lists\<close>

definition om_wf :: "('k::linorder \<times> 'v) list \<Rightarrow> bool" where
  "om_wf xs \<longleftrightarrow> sorted_wrt (<) (map fst xs)"

fun om_emplace :: "'k::linorder \<Rightarrow> 'v \<Rightarrow> ('k \<times> 'v) list \<Rightarrow> ('k \<times> 'v) list" where
  "om_emplace k v [] = [(k, v)]"
| "om_emplace k v ((k', w) # xs) =
     (if k < k' then (k, v) # (k', w) # xs
      else if k = k' then (k', w) # xs
      else (k', w) # om_emplace k v xs)"

lemma om_wf_Nil [simp]: "om_wf []"
  by (simp add: om_wf_def)

lemma om_wf_Cons: "om_wf ((k, v) # xs) \<longleftrightarrow> (\<forall>k' \<in> fst ` set xs. k < k') \<and> om_wf xs"
  by (auto simp: om_wf_def)

lemma om_wf_distinct: "om_wf xs \<Longrightarrow> distinct (map fst xs)"
  by (simp add: om_wf_def strict_sorted_iff)

lemma om_emplace_keys: "fst ` set (om_emplace k v xs) = insert k (fst ` set xs)"
  by (induction k v xs rule: om_emplace.induct) auto

lemma om_wf_emplace: "om_wf xs \<Longrightarrow> om_wf (om_emplace k v xs)"
proof (induction k v xs rule: om_emplace.induct)
  case (2 k v k' w xs)
  then show ?case
    by (auto simp: om_wf_Cons om_emplace_keys intro: less_trans)
qed (simp add: om_wf_Cons)

lemma om_less_not_in: "om_wf ((k', w) # xs) \<Longrightarrow> k < k' \<Longrightarrow> map_of ((k', w) # xs) k = None"
  by (auto simp: om_wf_Cons map_of_eq_None_iff dest: less_trans)

lemma om_find_emplace:
  "om_wf xs \<Longrightarrow> map_of (om_emplace k v xs) k' =
    (if k' = k \<and> map_of xs k = None then Some v else map_of xs k')"
proof (induction k v xs rule: om_emplace.induct)
  case (1 k v)
  then show ?case by simp
next
  case (2 k v a w xs)
  show ?case
  proof (cases "k < a")
    case True
    with om_less_not_in [OF "2.prems" True] show ?thesis
      by (cases "k' = k") (simp_all split: if_splits)
  next
    case False
    with 2 show ?thesis by (auto simp: om_wf_Cons)
  qed
qed

lemma om_wf_filter: "om_wf xs \<Longrightarrow> om_wf (filter P xs)"
  by (induction xs) (auto simp: om_wf_Cons)

lemma om_wf_delete: "om_wf xs \<Longrightarrow> om_wf (AList.delete k xs)"
  by (simp add: AList.delete_eq om_wf_filter)

lemma om_update_keys:
  "k \<in> fst ` set xs \<Longrightarrow> map fst (AList.update k v xs) = map fst xs"
  by (induction xs) auto

lemma om_update_key_set:
  "k \<in> fst ` set xs \<Longrightarrow> fst ` set (AList.update k v xs) = fst ` set xs"
  using arg_cong [where f = set, OF om_update_keys [of k xs v]] by simp

lemma om_wf_update: "om_wf xs \<Longrightarrow> k \<in> fst ` set xs \<Longrightarrow> om_wf (AList.update k v xs)"
  by (simp add: om_wf_def om_update_keys)

interpretation omap: keyed_container "\<lambda>k xs. map_of xs k" om_emplace AList.delete om_wf
  by unfold_locales
    (simp_all add: om_find_emplace om_wf_emplace om_wf_delete AList.delete_conv')

lemma map_of_update_conv [simp]:
  "map_of (AList.update k v xs) k' = (if k' = k then Some v else map_of xs k')"
  by (simp add: AList.update_conv')

lemma set_update_subset: "p \<in> set (AList.update k v xs) \<Longrightarrow> p = (k, v) \<or> p \<in> set xs"
  by (induction xs) (auto split: if_splits)

section \<open>Runs of a machine whose steps keep an invariant\<close>

text \<open>
  Both event-driven parts of the server, one client connection and the tracker behind the
  event loop, are runs of a step function over a sequence of events that stops at the first
  uncaught exception. The invariant of a whole run is proved here once.
\<close>

fun runE :: "('e \<Rightarrow> 's \<Rightarrow> 's res) \<Rightarrow> 'e list \<Rightarrow> 's \<Rightarrow> 's res" where
  "runE step [] s = Inr s"
| "runE step (e # es) s = bindE (step e s) (runE step es)"

locale invariant_machine =
  fixes step :: "'e \<Rightarrow> 's \<Rightarrow> 's res"
    and ok :: "'e \<Rightarrow> bool"
    and inv :: "'s \<Rightarrow> bool"
  assumes step_keeps: "inv s \<Longrightarrow> ok e \<Longrightarrow> step e s = Inr s' \<Longrightarrow> inv s'"
begin

lemma run_keeps: "inv s \<Longrightarrow> list_all ok es \<Longrightarrow> runE step es s = Inr s' \<Longrightarrow> inv s'"
  by (induction es arbitrary: s) (auto dest: step_keeps)

end

lemma runE_append: "runE step (xs @ ys) s = bindE (runE step xs s) (runE step ys)"
  by (induction xs arbitrary: s) (auto simp: bindE_assoc intro: bindE_cong)

end
