(* ===== verification/CppStd.thy ===== *)
theory CppStd
  imports Prelude
begin

text \<open>
  The slice of the C++ standard library the program uses on strings and numbers:
  \<open>std::string\<close> is a list of bytes, \<open>operator[]\<close> yields the terminating zero at
  \<open>size()\<close> and is undefined beyond it, \<open>substr\<close> throws when it starts past the end;
  \<open>std::to_string\<close>, \<open>std::stoul\<close> and \<open>std::stoi\<close> with their exceptions. The main facts
  are that printing and reading decimal numbers are inverse to each other.
\<close>

section \<open>Strings\<close>

definition idx :: "string \<Rightarrow> nat \<Rightarrow> char res" where
  "idx s i = (if i < length s then Inr (s ! i)
              else if i = length s then Inr (CHR 0x00)
              else Inl (UB Index_past_end))"

definition substr :: "string \<Rightarrow> nat \<Rightarrow> nat \<Rightarrow> string res" where
  "substr s pos n = (if pos \<le> length s then Inr (take n (drop pos s)) else Inl Out_of_range)"

fun find_char_from :: "nat \<Rightarrow> char \<Rightarrow> string \<Rightarrow> nat option" where
  "find_char_from i c [] = None"
| "find_char_from i c (x # xs) = (if x = c then Some i else find_char_from (Suc i) c xs)"

definition find_char :: "char \<Rightarrow> string \<Rightarrow> nat option" where
  "find_char c s = find_char_from 0 c s"

fun contains_str :: "string \<Rightarrow> string \<Rightarrow> bool" where
  "contains_str pat [] = (pat = [])"
| "contains_str pat (x # xs) = (take (length pat) (x # xs) = pat \<or> contains_str pat xs)"

definition starts_with :: "string \<Rightarrow> string \<Rightarrow> bool" where
  "starts_with pat s \<longleftrightarrow> take (length pat) s = pat"

definition isdigit :: "char \<Rightarrow> bool" where
  "isdigit c \<longleftrightarrow> CHR ''0'' \<le> c \<and> c \<le> CHR ''9''"

definition isspace :: "char \<Rightarrow> bool" where
  "isspace c \<longleftrightarrow> c \<in> {CHR '' '', CHR 0x09, CHR 0x0A, CHR 0x0B, CHR 0x0C, CHR 0x0D}"

definition tolower :: "char \<Rightarrow> char" where
  "tolower c = (if CHR ''A'' \<le> c \<and> c \<le> CHR ''Z'' then char_of ((of_char c :: nat) + 32) else c)"

lemma idx_in [simp, res_simps]: "i < length s \<Longrightarrow> idx s i = Inr (s ! i)"
  by (simp add: idx_def)

lemma idx_end [simp, res_simps]: "idx s (length s) = Inr (CHR 0x00)"
  by (simp add: idx_def)

lemma idx_total: "i \<le> length s \<Longrightarrow> \<exists>c. idx s i = Inr c"
  by (simp add: idx_def)

lemma substr_in [simp, res_simps]: "pos \<le> length s \<Longrightarrow> substr s pos n = Inr (take n (drop pos s))"
  by (simp add: substr_def)

lemma find_char_from_None_iff: "find_char_from i c s = None \<longleftrightarrow> c \<notin> set s"
  by (induction s arbitrary: i) auto

lemma find_char_None_iff [simp]: "find_char c s = None \<longleftrightarrow> c \<notin> set s"
  by (simp add: find_char_def find_char_from_None_iff)

lemma find_char_from_Some:
  "find_char_from i c s = Some j \<Longrightarrow>
    \<exists>n. j = i + n \<and> n < length s \<and> s ! n = c \<and> (\<forall>m<n. s ! m \<noteq> c)"
proof (induction s arbitrary: i)
  case (Cons x xs)
  show ?case
  proof (cases "x = c")
    case True
    with Cons.prems show ?thesis by (intro exI [of _ 0]) simp
  next
    case False
    with Cons.prems have "find_char_from (Suc i) c xs = Some j" by simp
    from Cons.IH [OF this] obtain n
      where "j = Suc i + n" "n < length xs" "xs ! n = c" "\<forall>m<n. xs ! m \<noteq> c"
      by blast
    with False show ?thesis
      by (intro exI [of _ "Suc n"]) (auto simp: less_Suc_eq_0_disj)
  qed
qed simp

lemma find_char_Some:
  "find_char c s = Some j \<Longrightarrow> j < length s \<and> s ! j = c \<and> (\<forall>m<j. s ! m \<noteq> c)"
  using find_char_from_Some [of 0 c s j] by (auto simp: find_char_def)

lemma starts_with_append [simp]: "starts_with p (p @ s)"
  by (simp add: starts_with_def)

lemma starts_with_iff: "starts_with p s \<longleftrightarrow> (\<exists>r. s = p @ r)"
  by (metis append_eq_conv_conj append_take_drop_id starts_with_def)

section \<open>Decimal numbers\<close>

definition digit_char :: "nat \<Rightarrow> char" where
  "digit_char d = char_of (48 + d)"

definition digit_value :: "char \<Rightarrow> nat" where
  "digit_value c = of_char c - 48"

fun show_nat :: "nat \<Rightarrow> string" where
  "show_nat n = (if n < 10 then [digit_char n] else show_nat (n div 10) @ [digit_char (n mod 10)])"

declare show_nat.simps [simp del]

definition show_int :: "int \<Rightarrow> string" where
  "show_int i = (if i < 0 then CHR ''-'' # show_nat (nat (- i)) else show_nat (nat i))"

definition to_string :: "'a::len word \<Rightarrow> string" where
  "to_string w = show_nat (unat w)"

definition read_digits :: "string \<Rightarrow> nat" where
  "read_digits s = foldl (\<lambda>n c. 10 * n + digit_value c) 0 s"

text \<open>
  \<open>strtoul\<close>/\<open>strtol\<close> in base 10: leading white space, an optional sign, then digits as far
  as they go; \<open>None\<close> when there is no digit.
\<close>

definition scan_number :: "string \<Rightarrow> (bool \<times> nat) option" where
  "scan_number s =
    (let t = dropWhile isspace s;
         neg = (case t of c # _ \<Rightarrow> c = CHR ''-'' | [] \<Rightarrow> False);
         u = (case t of c # r \<Rightarrow> if c = CHR ''-'' \<or> c = CHR ''+'' then r else t | [] \<Rightarrow> t);
         ds = takeWhile isdigit u
     in if ds = [] then None else Some (neg, read_digits ds))"

definition stoul :: "string \<Rightarrow> u64 res" where
  "stoul s = (case scan_number s of
      None \<Rightarrow> Inl Invalid_argument
    | Some (neg, n) \<Rightarrow>
        if n < 2 ^ 64 then Inr (if neg then - of_nat n else of_nat n) else Inl Out_of_range)"

definition stoi :: "string \<Rightarrow> int res" where
  "stoi s = (case scan_number s of
      None \<Rightarrow> Inl Invalid_argument
    | Some (neg, n) \<Rightarrow>
        (let v = (if neg then - int n else int n)
         in if - (2 ^ 31) \<le> v \<and> v < 2 ^ 31 then Inr v else Inl Out_of_range))"

lemma digit_char_simps [simp]:
  "digit_char 0 = CHR ''0''" "digit_char (Suc 0) = CHR ''1''" "digit_char 2 = CHR ''2''" "digit_char 3 = CHR ''3''"
  "digit_char 4 = CHR ''4''" "digit_char 5 = CHR ''5''" "digit_char 6 = CHR ''6''" "digit_char 7 = CHR ''7''"
  "digit_char 8 = CHR ''8''" "digit_char 9 = CHR ''9''" "digit_char 1 = CHR ''1''"
  by code_simp+

lemma of_char_digit_char: "d < 10 \<Longrightarrow> of_char (digit_char d) = (48 + d :: nat)"
  by (simp add: digit_char_def)

lemma digit_value_digit_char [simp]: "d < 10 \<Longrightarrow> digit_value (digit_char d) = d"
  by (simp add: digit_value_def of_char_digit_char)

lemma char_le_iff: "c \<le> d \<longleftrightarrow> (of_char c :: nat) \<le> of_char d" for c d :: char
  by (simp add: less_eq_char_def)

lemma isdigit_iff: "isdigit c \<longleftrightarrow> 48 \<le> (of_char c :: nat) \<and> (of_char c :: nat) \<le> 57"
  by (simp add: isdigit_def char_le_iff)

lemma isdigit_digit_char [simp]: "d < 10 \<Longrightarrow> isdigit (digit_char d)"
  by (simp add: isdigit_iff of_char_digit_char)

lemma digit_char_not_sign:
  "d < 10 \<Longrightarrow> digit_char d \<noteq> CHR ''-'' \<and> digit_char d \<noteq> CHR ''+'' \<and> \<not> isspace (digit_char d)"
  using of_char_digit_char [of d] by (auto simp: isspace_def)

lemma show_nat_digits: "\<forall>c \<in> set (show_nat n). isdigit c"
proof (induction n rule: show_nat.induct)
  case (1 n)
  then show ?case by (subst show_nat.simps) auto
qed

lemma show_nat_not_Nil [simp]: "show_nat n \<noteq> []"
  by (subst show_nat.simps) simp

lemma read_digits_snoc [simp]: "read_digits (s @ [c]) = 10 * read_digits s + digit_value c"
  by (simp add: read_digits_def)

lemma read_show_nat [simp]: "read_digits (show_nat n) = n"
proof (induction n rule: show_nat.induct)
  case (1 n)
  show ?case
  proof (cases "n < 10")
    case True
    then show ?thesis
      by (subst show_nat.simps) (simp add: read_digits_def)
  next
    case False
    with 1 show ?thesis by (subst show_nat.simps) simp
  qed
qed

lemma show_nat_inject [simp]: "show_nat m = show_nat n \<longleftrightarrow> m = n"
  by (metis read_show_nat)

lemma to_string_inject [simp]: "to_string v = to_string w \<longleftrightarrow> v = w"
  by (simp add: to_string_def word_unat_eq_iff)

lemma digit_not_sign: "isdigit c \<Longrightarrow> c \<noteq> CHR ''-'' \<and> c \<noteq> CHR ''+'' \<and> \<not> isspace c"
  by (auto simp: isdigit_iff isspace_def)

lemma scan_number_digits:
  assumes "ds \<noteq> []" and "\<forall>c \<in> set ds. isdigit c" and "\<forall>c r. rest = c # r \<longrightarrow> \<not> isdigit c"
  shows "scan_number (ds @ rest) = Some (False, read_digits ds)"
proof -
  obtain d es where ds: "ds = d # es" using assms(1) by (cases ds) auto
  then have d: "d \<noteq> CHR ''-''" "d \<noteq> CHR ''+''" "\<not> isspace d"
    using assms(2) digit_not_sign by auto
  have "takeWhile isdigit (ds @ rest) = ds"
    using assms(2,3) by (cases rest) (auto simp: takeWhile_append)
  with d ds show ?thesis by (simp add: scan_number_def Let_def)
qed

lemma scan_show_nat [simp]: "scan_number (show_nat n) = Some (False, n)"
  using scan_number_digits [of "show_nat n" "[]"] show_nat_digits by simp

lemma stoul_show_nat [simp]: "n < 2 ^ 64 \<Longrightarrow> stoul (show_nat n) = Inr (of_nat n)"
  by (simp add: stoul_def)

lemma stoul_to_string_u64 [simp]: "stoul (to_string w) = Inr w" for w :: u64
  using unsigned_less [of w, where ?'a = nat] by (simp add: to_string_def)

lemma stoi_show_nat [simp]: "n < 2 ^ 31 \<Longrightarrow> stoi (show_nat n) = Inr (int n)"
  by (simp add: stoi_def)

lemma stoi_bounds: "stoi s = Inr v \<Longrightarrow> - (2 ^ 31) \<le> v \<and> v < 2 ^ 31"
  by (auto simp: stoi_def Let_def split: option.splits if_splits)

lemma stoul_Inl: "stoul s = Inl e \<Longrightarrow> e = Invalid_argument \<or> e = Out_of_range"
  by (auto simp: stoul_def split: option.splits if_splits)

lemma stoi_Inl: "stoi s = Inl e \<Longrightarrow> e = Invalid_argument \<or> e = Out_of_range"
  by (auto simp: stoi_def Let_def split: option.splits if_splits)

end
