(* ===== verification/Config.thy ===== *)
theory Config
  imports CppStd
begin

text \<open>
  The configuration store of src/misc/config.cpp: the table of variables with their
  defaults and their integer flag, \<open>Config::get\<close>, \<open>Config::getInt\<close>,
  \<open>Config::checkValue\<close> and the line-by-line reader \<open>Config::load\<close>. The lemmas show that
  loading a file never adds or removes a variable, never changes a flag and never stores a
  value that \<open>getInt\<close> cannot read in an integer variable. The line number is only logged
  by the code and is not part of the state.
\<close>

type_synonym config = "string \<rightharpoonup> string \<times> bool"

definition default_vars :: "(string \<times> string \<times> bool) list" where
  "default_vars = [
    (''type'', ''private'', False),
    (''ipv6'', ''no'', False),
    (''port'', ''2710'', True),
    (''timeout'', ''3600'', True),
    (''clear_peers_interval'', ''600'', True),
    (''flush_records_interval'', ''5'', True),
    (''read_buffer_size'', ''512'', True),
    (''max_request_size'', ''4096'', True),
    (''max_numwant'', ''50'', True),
    (''default_numwant'', ''20'', True),
    (''default_announce_interval'', ''900'', True),
    (''min_announce_interval'', ''300'', True),
    (''updatekey'', ''00000000000000000000000000000000'', False),
    (''DB_Host'', ''127.0.0.1'', False),
    (''DB_User'', ''db_user'', False),
    (''DB_Password'', ''db_password'', False),
    (''DB_DBName'', ''db_name'', False),
    (''DB_Port'', ''3306'', True),
    (''DB_Users'', ''users_main'', False),
    (''DB_Users_ID'', ''ID'', False),
    (''DB_Users_Passkey'', ''torrent_pass'', False),
    (''DB_Users_Authorized'', ''can_leech'', False),
    (''DB_Users_Downloaded'', ''Downloaded'', False),
    (''DB_Users_Uploaded'', ''Uploaded'', False),
    (''DB_Torrents'', ''torrents'', False),
    (''DB_Torrents_ID'', ''ID'', False),
    (''DB_Torrents_InfoHash'', ''info_hash'', False),
    (''DB_Torrents_Freeleech'', ''FreeTorrent'', False),
    (''DB_Torrents_Seeders'', ''Seeders'', False),
    (''DB_Torrents_Leechers'', ''Leechers'', False),
    (''DB_Torrents_Snatches'', ''Snatched'', False),
    (''DB_Torrents_Balance'', ''balance'', False),
    (''DB_Torrents_LastAction'', ''last_action'', False),
    (''DB_Peers'', ''xbt_files_users'', False),
    (''DB_Peers_UserID'', ''uid'', False),
    (''DB_Peers_Active'', ''active'', False),
    (''DB_Peers_AnnouncesCount'', ''announced'', False),
    (''DB_Peers_Completed'', ''completed'', False),
    (''DB_Peers_Downloaded'', ''downloaded'', False),
    (''DB_Peers_Uploaded'', ''uploaded'', False),
    (''DB_Peers_Left'', ''remaining'', False),
    (''DB_Peers_UpSpeed'', ''upspeed'', False),
    (''DB_Peers_DownSpeed'', ''downspeed'', False),
    (''DB_Peers_Corrupt'', ''corrupt'', False),
    (''DB_Peers_Timespent'', ''timespent'', False),
    (''DB_Peers_UserAgent'', ''useragent'', False),
    (''DB_Peers_PeerID'', ''peer_id'', False),
    (''DB_Peers_TorrentID'', ''fid'', False),
    (''DB_Peers_IP'', ''ip'', False),
    (''DB_Peers_LastAction'', ''mtime'', False),
    (''DB_Snatches'', ''xbt_snatched'', False),
    (''DB_Snatches_UserID'', ''uid'', False),
    (''DB_Snatches_TimeStamp'', ''tstamp'', False),
    (''DB_Snatches_TorrentID'', ''fid'', False),
    (''DB_Snatches_IP'', ''IP'', False),
    (''DB_Tokens'', ''users_freeleeches'', False),
    (''DB_Tokens_UserID'', ''UserID'', False),
    (''DB_Tokens_TorrentID'', ''TorrentID'', False),
    (''DB_Tokens_Downloaded'', ''Downloaded'', False),
    (''DB_Tokens_ExpirationTime'', ''Time'', False),
    (''DB_Tokens_Expired'', ''Expired'', False),
    (''DB_IPRestrictions'', ''tk_ip_restrictions'', False),
    (''DB_IPRestrictions_UserID'', ''UserID'', False),
    (''DB_IPRestrictions_IP'', ''IP'', False),
    (''DB_IPBans'', ''tk_ip_bans'', False),
    (''DB_IPBans_FromIP'', ''FromIP'', False),
    (''DB_IPBans_ToIP'', ''ToIP'', False),
    (''DB_Whitelist'', ''xbt_client_whitelist'', False),
    (''DB_Whitelist_PeerID'', ''peer_id'', False),
    (''DB_SiteOptions'', ''site_options'', False),
    (''DB_SiteOptions_LeechStatus'', ''leech_status'', False)]"

definition default_config :: config where
  "default_config = map_of default_vars"

definition get :: "config \<Rightarrow> string \<Rightarrow> string" where
  "get vars name = (case vars name of Some (v, _) \<Rightarrow> v | None \<Rightarrow> '''')"

definition getInt :: "config \<Rightarrow> string \<Rightarrow> int" where
  "getInt vars name =
    (case bindE (at_key vars name) (\<lambda>(v, _). stoi v) of Inr i \<Rightarrow> i | Inl _ \<Rightarrow> - 1)"

section \<open>Reading a configuration file\<close>

definition whitespaces :: "char set" where
  "whitespaces = {CHR '' '', CHR 0x09, CHR 0x0B, CHR 0x0C, CHR 0x0D}"

definition find_first_not_of :: "string \<Rightarrow> nat \<Rightarrow> nat option" where
  "find_first_not_of s start =
    (let i = start + length (takeWhile (\<lambda>c. c \<in> whitespaces) (drop start s))
     in if i < length s then Some i else None)"

definition find_last_not_of :: "string \<Rightarrow> nat \<Rightarrow> nat option" where
  "find_last_not_of s end =
    (let r = dropWhile (\<lambda>c. c \<in> whitespaces) (rev (take (Suc end) s))
     in if r = [] then None else Some (length r - 1))"

text \<open>
  The lambda \<open>trim\<close> of \<open>Config::load\<close>: \<open>std::string(str, start, end - start + 1)\<close> with
  \<open>size_t\<close> arithmetic, which throws when \<open>start\<close> is \<open>npos\<close>.
\<close>

definition trim :: "string \<Rightarrow> nat \<Rightarrow> nat \<Rightarrow> string res" where
  "trim str start end =
    (case find_first_not_of str start of
       None \<Rightarrow> Inl Out_of_range
     | Some s \<Rightarrow>
         (case find_last_not_of str end of
            None \<Rightarrow> substr str s (if s = 0 then 0 else length str)
          | Some e \<Rightarrow> substr str s (if s \<le> Suc e then Suc e - s else length str)))"

text \<open>\<open>checkValue\<close> returns its verdict and the value, which it receives by reference.\<close>

definition checkValue :: "config \<Rightarrow> string \<Rightarrow> string \<Rightarrow> (bool \<times> string) res" where
  "checkValue vars name value =
    bindE (at_key vars name) (\<lambda>(_, is_integer).
      if is_integer then
        catchE (bindE (stoi value) (\<lambda>_. Inr (True, value))) (Inr (False, value))
      else if value = [] then Inl (UB Index_past_end)
      else if hd value = CHR 0x22 \<and> last value = CHR 0x22 then
        (if tl value = [] then Inl (UB Pop_back_of_empty) else Inr (True, butlast (tl value)))
      else Inr (False, value))"

definition store_value :: "config \<Rightarrow> string \<Rightarrow> string \<Rightarrow> config res" where
  "store_value vars name raw =
    bindE (checkValue vars name raw) (\<lambda>(good, value).
      if good then
        bindE (at_key vars name) (\<lambda>(_, is_integer). Inr (vars(name \<mapsto> (value, is_integer))))
      else Inr vars)"

definition load_line :: "config \<Rightarrow> string \<Rightarrow> config res" where
  "load_line vars line =
    (case find_first_not_of line 0 of
       None \<Rightarrow> Inr vars
     | Some start \<Rightarrow>
         if line = [] \<or> line ! start = CHR ''#'' then Inr vars
         else (case find_char CHR ''='' line of
           None \<Rightarrow> Inr vars
         | Some equalSign \<Rightarrow>
             if equalSign = start \<or> equalSign = length line - 1 then Inr vars
             else
               bindE (trim line start (equalSign - 1)) (\<lambda>name.
               if vars name = None then Inr vars
               else
                 bindE (trim line (equalSign + 1) (length line - 1)) (store_value vars name))))"

text \<open>The pieces \<open>std::getline\<close> delivers until the end of the file is reached.\<close>

fun getlines :: "string \<Rightarrow> string list" where
  "getlines [] = [[]]"
| "getlines (c # s) =
     (if c = CHR 0x0A then [] # getlines s
      else (case getlines s of [] \<Rightarrow> [[c]] | l # ls \<Rightarrow> (c # l) # ls))"

fun load_lines :: "config \<Rightarrow> string list \<Rightarrow> config res" where
  "load_lines vars [] = Inr vars"
| "load_lines vars (l # ls) = bindE (load_line vars l) (\<lambda>vars'. load_lines vars' ls)"

text \<open>\<open>None\<close>: the file could not be opened.\<close>

definition load :: "config \<Rightarrow> string option \<Rightarrow> config res" where
  "load vars file = (case file of None \<Rightarrow> Inr vars | Some content \<Rightarrow> load_lines vars (getlines content))"

section \<open>The invariant of the store\<close>

definition var_ok :: "string \<times> bool \<Rightarrow> bool" where
  "var_ok v \<longleftrightarrow> (snd v \<longrightarrow> (\<exists>i. stoi (fst v) = Inr i))"

definition same_flags :: "config \<Rightarrow> config \<Rightarrow> bool" where
  "same_flags vars vars' \<longleftrightarrow> (\<forall>name. map_option snd (vars' name) = map_option snd (vars name))"

definition config_ok :: "config \<Rightarrow> bool" where
  "config_ok vars \<longleftrightarrow> same_flags default_config vars \<and> (\<forall>v \<in> ran vars. var_ok v)"

lemma same_flags_refl [simp]: "same_flags vars vars"
  by (simp add: same_flags_def)

lemma same_flags_trans: "same_flags a b \<Longrightarrow> same_flags b c \<Longrightarrow> same_flags a c"
  by (simp add: same_flags_def)

lemma same_flags_upd: "vars name = Some (v, f) \<Longrightarrow> same_flags vars (vars(name \<mapsto> (w, f)))"
  by (simp add: same_flags_def)

lemma ran_upd_var_ok: "\<forall>v \<in> ran m. var_ok v \<Longrightarrow> var_ok w \<Longrightarrow> \<forall>v \<in> ran (m(k \<mapsto> w)). var_ok v"
  by (auto simp: ran_def)

lemma checkValue_integer:
  assumes "checkValue vars name value = Inr (True, value')" and "vars name = Some (v, True)"
  shows "value' = value \<and> (\<exists>i. stoi value = Inr i)"
  using assms by (cases "stoi value") (auto simp: checkValue_def catchE_split_Inr)

lemma checkValue_quoted:
  assumes "vars name = Some (v, False)"
  shows "checkValue vars name (CHR 0x22 # s @ [CHR 0x22]) = Inr (True, s)"
  using assms by (simp add: checkValue_def)

lemma store_value_keeps [keeps]:
  assumes st: "store_value vars name raw = Inr vars'" and ok: "\<forall>v \<in> ran vars. var_ok v"
  shows "same_flags vars vars' \<and> (\<forall>v \<in> ran vars'. var_ok v)"
proof -
  from st obtain good w where c: "checkValue vars name raw = Inr (good, w)"
    and rest: "(if good then bindE (at_key vars name) (\<lambda>(_, is_integer). Inr (vars(name \<mapsto> (w, is_integer))))
        else Inr vars) = Inr vars'"
    by (auto simp: store_value_def bindE_Inr_iff)
  show ?thesis
  proof (cases good)
    case True
    with rest obtain v f where v: "vars name = Some (v, f)" and vars': "vars' = vars(name \<mapsto> (w, f))"
      by (auto simp: bindE_Inr_iff)
    have "var_ok (w, f)"
      using checkValue_integer [of vars name raw w v] c v True by (cases f) (auto simp: var_ok_def)
    then show ?thesis
      using same_flags_upd [of vars name v f w] v ran_upd_var_ok [OF ok, of "(w, f)" name]
      unfolding vars' by blast
  qed (use rest ok in simp)
qed

lemma load_line_cases:
  assumes "load_line vars line = Inr vars'"
  shows "vars' = vars \<or> (\<exists>name raw. store_value vars name raw = Inr vars')"
  using assms
  by (auto simp: load_line_def bindE_Inr_iff [where r = "trim _ _ _"] split: option.splits if_splits)

lemma load_line_keeps [keeps]:
  assumes "load_line vars line = Inr vars'" and ok: "\<forall>v \<in> ran vars. var_ok v"
  shows "same_flags vars vars' \<and> (\<forall>v \<in> ran vars'. var_ok v)"
  using load_line_cases [OF assms(1)] ok store_value_keeps by auto

lemma load_lines_keeps [keeps]:
  "load_lines vars ls = Inr vars' \<Longrightarrow> \<forall>v \<in> ran vars. var_ok v \<Longrightarrow>
    same_flags vars vars' \<and> (\<forall>v \<in> ran vars'. var_ok v)"
proof (induction ls arbitrary: vars)
  case (Cons l ls)
  from Cons.prems(1) obtain w where w: "load_line vars l = Inr w" "load_lines w ls = Inr vars'"
    by auto
  with Cons.IH [of w] load_line_keeps [OF w(1) Cons.prems(2)] show ?case
    by (auto intro: same_flags_trans)
qed simp

lemma default_vars_ok: "list_all (\<lambda>(_, v). var_ok v) default_vars"
proof -
  have "list_all (\<lambda>(_, v, f). f \<longrightarrow> (case stoi v of Inr _ \<Rightarrow> True | Inl _ \<Rightarrow> False)) default_vars"
    by code_simp
  then show ?thesis
    by (auto simp: list_all_iff var_ok_def split: sum.splits)
qed

lemma default_config_ok: "config_ok default_config"
  using default_vars_ok
  by (force simp: config_ok_def default_config_def list_all_iff ran_def dest: map_of_SomeD)

lemma getInt_reads: "vars name = Some (v, f) \<Longrightarrow> stoi v = Inr i \<Longrightarrow> getInt vars name = i"
  by (simp add: getInt_def)

section \<open>Properties\<close>

text \<open>C35: Loading a file keeps the store well formed: it has exactly the variables of the
  table, their integer flags are unchanged, and every integer variable holds a text
  \<open>getInt\<close> can read, so no malformed line can break a numeric setting.\<close>

theorem load_keeps_config_ok:
  assumes "load vars f = Inr vars'" and "config_ok vars"
  shows "config_ok vars'"
proof (cases f)
  case None
  with assms show ?thesis by (simp add: load_def)
next
  case (Some content)
  have "same_flags vars vars' \<and> (\<forall>v \<in> ran vars'. var_ok v)"
    using assms Some load_lines_keeps [of vars "getlines content" vars'] by (simp add: load_def config_ok_def)
  with assms(2) show ?thesis by (auto simp: config_ok_def intro: same_flags_trans)
qed

definition sample_file :: string where
  "sample_file = ''port = 80'' @ [CHR 0x0A] @ ''# comment'' @ [CHR 0x0A] @ ''type = '' @
     [CHR 0x22] @ ''public'' @ [CHR 0x22] @ [CHR 0x0A] @ ''timeout = soon''"

lemma load_sample: "\<exists>vars. load default_config (Some sample_file) = Inr vars"
proof -
  have "(case load default_config (Some sample_file) of Inr _ \<Rightarrow> True | Inl _ \<Rightarrow> False)" by code_simp
  then show ?thesis by (auto split: sum.splits)
qed

lemma load_keeps_config_ok_witness:
  "\<exists>vars. load default_config (Some sample_file) = Inr vars \<and> config_ok vars"
  using load_sample load_keeps_config_ok default_config_ok by blast

lemma find_first_middle:
  assumes "set b \<subseteq> whitespaces" and "c \<notin> whitespaces"
  shows "find_first_not_of (a @ b @ c # r) (length a) = Some (length a + length b)"
proof -
  have "takeWhile (\<lambda>c. c \<in> whitespaces) (b @ c # r) = b"
    using assms by (subst takeWhile_append2) auto
  then show ?thesis by (simp add: find_first_not_of_def)
qed

lemma find_last_middle:
  assumes "set b \<subseteq> whitespaces" and "c \<notin> whitespaces"
  shows "find_last_not_of (a @ c # b @ r) (length a + length b) = Some (length a)"
proof -
  have "take (Suc (length a + length b)) (a @ c # b @ r) = a @ c # b" by simp
  moreover have "dropWhile (\<lambda>c. c \<in> whitespaces) (rev (a @ c # b)) = c # rev a"
    using assms by (simp, subst dropWhile_append2) auto
  ultimately show ?thesis by (simp add: find_last_not_of_def)
qed

lemma trim_middle:
  assumes "set b \<subseteq> whitespaces" and "set d \<subseteq> whitespaces" and "m \<noteq> []"
    and "hd m \<notin> whitespaces" and "last m \<notin> whitespaces"
  shows "trim (a @ b @ m @ d @ r) (length a) (length a + length b + length m + length d - 1) = Inr m"
proof -
  obtain c m1 where m1: "m = c # m1" using assms(3) by (cases m) auto
  obtain m2 l where m2: "m = m2 @ [l]" using assms(3) by (cases m rule: rev_cases) auto
  have "find_first_not_of (a @ b @ m @ d @ r) (length a) = Some (length a + length b)"
    using find_first_middle [OF assms(1), of c a "m1 @ d @ r"] assms(4) m1 by simp
  moreover have "find_last_not_of (a @ b @ m @ d @ r) (length a + length b + length m + length d - 1) =
      Some (length a + length b + length m2)"
    using find_last_middle [OF assms(2), of l "a @ b @ m2" r] assms(5) m2 by (simp add: add.assoc)
  moreover have "take (Suc (length a + length b + length m2) - (length a + length b)) (m @ d @ r) = m"
    using m2 by simp
  ultimately show ?thesis by (simp add: trim_def)
qed

lemma find_char_append: "c \<notin> set a \<Longrightarrow> find_char c (a @ c # r) = Some (length a)"
proof -
  have "c \<notin> set a \<Longrightarrow> find_char_from i c (a @ c # r) = Some (i + length a)" for i
    by (induction a arbitrary: i) auto
  then show "c \<notin> set a \<Longrightarrow> ?thesis" by (simp add: find_char_def)
qed

text \<open>A text variable given as \<open>name = "value"\<close> is stored without its quotes, whatever
  blanks surround name and value, and the other variables keep their values.\<close>

theorem load_line_quoted:
  assumes "vars name = Some (v, False)" and "name \<noteq> []"
    and "\<forall>c \<in> set name. c \<notin> whitespaces \<and> c \<noteq> CHR ''='' \<and> c \<noteq> CHR ''#''"
    and "set pre \<union> set mid1 \<union> set mid2 \<union> set post \<subseteq> whitespaces"
  shows "load_line vars (pre @ name @ mid1 @ ''='' @ mid2 @ [CHR 0x22] @ value @ [CHR 0x22] @ post) =
    Inr (vars(name \<mapsto> (value, False)))"
proof -
  let ?q = "CHR 0x22 # value @ [CHR 0x22]"
  let ?line = "pre @ name @ mid1 @ CHR ''='' # mid2 @ ?q @ post"
  obtain c n' where n: "name = c # n'" using assms(2) by (cases name) auto
  have eq_ws: "CHR ''='' \<notin> whitespaces" and quote_ws: "CHR 0x22 \<notin> whitespaces"
    by (simp_all add: whitespaces_def)
  have ws: "set pre \<subseteq> whitespaces" "set mid1 \<subseteq> whitespaces" "set mid2 \<subseteq> whitespaces" "set post \<subseteq> whitespaces"
    using assms(4) by auto
  have c: "c \<notin> whitespaces" "c \<noteq> CHR ''#''" and l: "last name \<notin> whitespaces"
    using assms(2,3) n by auto
  have start: "find_first_not_of ?line 0 = Some (length pre)"
    using find_first_middle [OF ws(1) c(1), of "[]" "n' @ mid1 @ CHR ''='' # mid2 @ ?q @ post"] n by simp
  have sign: "find_char CHR ''='' ?line = Some (length pre + length name + length mid1)"
    using find_char_append [of "CHR ''=''" "pre @ name @ mid1" "mid2 @ ?q @ post"] assms(3) ws eq_ws
    by (auto simp: add.assoc)
  have t1: "trim ?line (length pre) (length pre + length name + length mid1 - 1) = Inr name"
    using trim_middle [of "[]" mid1 name pre "CHR ''='' # mid2 @ ?q @ post"] ws(2) assms(2) c(1) l n by simp
  have t2: "trim ?line (length pre + length name + length mid1 + 1) (length ?line - 1) = Inr ?q"
    using trim_middle [OF ws(3,4), of ?q "pre @ name @ mid1 @ [CHR ''='']" "[]"] quote_ws
    by (simp add: add.assoc)
  have "load_line vars ?line = store_value vars name ?q"
    using start sign t1 t2 c(2) n assms(1) by (simp add: load_line_def nth_append)
  also have "\<dots> = Inr (vars(name \<mapsto> (value, False)))"
    using checkValue_quoted [of vars name v "value"] assms(1) by (simp add: store_value_def)
  finally show ?thesis by simp
qed

lemma load_line_quoted_witness:
  "load_line default_config (''type'' @ '' = '' @ [CHR 0x22] @ ''public'' @ [CHR 0x22]) =
    Inr (default_config(''type'' \<mapsto> (''public'', False)))"
  using load_line_quoted [of default_config "''type''" "''private''" "[]" "'' ''" "'' ''" "[]" "''public''"]
  by (simp add: default_config_def default_vars_def whitespaces_def)

end
