(* ===== verification/Utility.thy ===== *)
theory Utility
  imports CppStd
begin

text \<open>
  src/misc/utility.cpp: percent-decoding (\<open>hex_to_bin\<close>), dotted-decimal printing of IPv4
  addresses (\<open>long2ip\<close>), the compact peer address (\<open>ip_port_hex_encode\<close>) and the unit
  prefixes (\<open>getPrefix\<close>). The lemmas show that decoding never reads out of bounds and
  inverts every percent-encoding, and that \<open>long2ip\<close> is injective. \<open>inet_pton\<close> is a
  parameter: the bytes its out buffer holds after the call.
\<close>

section \<open>Percent-decoding\<close>

definition hex_nibble :: "char \<Rightarrow> nat option" where
  "hex_nibble c =
    (if isdigit c then Some (of_char c - 48)
     else if CHR ''a'' \<le> c \<and> c \<le> CHR ''f'' then Some (of_char c - 97 + 10)
     else if CHR ''A'' \<le> c \<and> c \<le> CHR ''F'' then Some (of_char c - 65 + 10)
     else None)"

text \<open>
  The loop over \<open>pos\<close>; the inner loop over the two nibbles reads \<open>input[++pos]\<close> twice.
\<close>

function hex_to_bin_from :: "string \<Rightarrow> nat \<Rightarrow> string \<Rightarrow> string res" where
  "hex_to_bin_from input pos out =
    (if pos < length input then
       (if input ! pos = CHR ''%'' \<and> length input - pos \<ge> 2 then
          bindE (idx input (pos + 1)) (\<lambda>c1. case hex_nibble c1 of None \<Rightarrow> Inr '''' | Some v1 \<Rightarrow>
          bindE (idx input (pos + 2)) (\<lambda>c2. case hex_nibble c2 of None \<Rightarrow> Inr '''' | Some v2 \<Rightarrow>
            hex_to_bin_from input (pos + 3) (out @ [char_of (16 * v1 + v2)])))
        else hex_to_bin_from input (pos + 1) (out @ [input ! pos]))
     else Inr out)"
  by pat_completeness auto
termination
  by (relation "measure (\<lambda>(input, pos, out). length input - pos)") auto

declare hex_to_bin_from.simps [simp del]

definition hex_to_bin :: "string \<Rightarrow> string res" where
  "hex_to_bin input = hex_to_bin_from input 0 []"

text \<open>
  The decoder as a structural recursion, which is what the proofs about its result use.
\<close>

fun pct_decode :: "string \<Rightarrow> string option" where
  "pct_decode [] = Some []"
| "pct_decode [c] = Some [c]"
| "pct_decode [c, d] =
     (if c = CHR ''%'' then None else map_option ((#) c) (pct_decode [d]))"
| "pct_decode (c # d # e # s) =
     (if c = CHR ''%'' then
        (case (hex_nibble d, hex_nibble e) of
           (Some v1, Some v2) \<Rightarrow> map_option ((#) (char_of (16 * v1 + v2))) (pct_decode s)
         | _ \<Rightarrow> None)
      else map_option ((#) c) (pct_decode (d # e # s)))"

lemma hex_nibble_zero [simp]: "hex_nibble (CHR 0x00) = None"
  by (simp add: hex_nibble_def isdigit_iff char_le_iff)

lemma drop_Cons_nth:
  assumes "drop pos s = c # r"
  shows "pos < length s" and "s ! pos = c" and "drop (Suc pos) s = r"
  using assms by (metis Cons_nth_drop_Suc drop_eq_Nil linorder_not_le list.distinct(1) list.inject)+

lemma hex_to_bin_from_drop:
  "hex_to_bin_from input pos out =
    Inr (case pct_decode (drop pos input) of None \<Rightarrow> [] | Some r \<Rightarrow> out @ r)"
proof (induction input pos out rule: hex_to_bin_from.induct)
  case (1 input pos out)
  consider (nil) "drop pos input = []" | (one) c where "drop pos input = [c]"
    | (two) c d where "drop pos input = [c, d]"
    | (more) c d e s where "drop pos input = c # d # e # s"
    by (metis neq_Nil_conv)
  then show ?case
  proof cases
    case nil
    then show ?thesis by (subst hex_to_bin_from.simps) simp
  next
    case (one c)
    note d = drop_Cons_nth [OF one]
    then have "length input = Suc pos" by auto
    with one d "1.IH"(2) show ?thesis by (subst hex_to_bin_from.simps) simp
  next
    case (two c d)
    note p = drop_Cons_nth [OF two] and q = drop_Cons_nth [OF drop_Cons_nth(3) [OF two]]
    then have len: "length input = pos + 2" by auto
    show ?thesis
    proof (cases "c = CHR ''%''")
      case True
      have "idx input (pos + 2) = Inr (CHR 0x00)" using idx_end [of input] len by simp
      with True p q two len show ?thesis
        by (subst hex_to_bin_from.simps) (auto split: option.splits)
    next
      case False
      with p q two "1.IH"(2) show ?thesis
        by (subst hex_to_bin_from.simps) (auto split: option.splits)
    qed
  next
    case (more c d e s)
    note p = drop_Cons_nth [OF more]
    note q = drop_Cons_nth [OF p(3)]
    note r = drop_Cons_nth [OF q(3)]
    show ?thesis
    proof (cases "c = CHR ''%''")
      case True
      with p q r more "1.IH"(1) show ?thesis
        by (subst hex_to_bin_from.simps) (auto simp: numeral_3_eq_3 split: option.splits)
    next
      case False
      with p q more "1.IH"(2) show ?thesis
        by (subst hex_to_bin_from.simps) (auto split: option.splits)
    qed
  qed
qed

lemma hex_to_bin_eq: "hex_to_bin input = Inr (case pct_decode input of None \<Rightarrow> [] | Some r \<Rightarrow> r)"
  by (simp add: hex_to_bin_def hex_to_bin_from_drop split: option.splits)

text \<open>
  The encodings RFC 3986 allows: any byte as \<open>%\<close> and two hexadecimal digits of either
  case, any byte but \<open>%\<close> as itself.
\<close>

definition nibble_char :: "bool \<Rightarrow> nat \<Rightarrow> char" where
  "nibble_char upper n = (if n < 10 then char_of (48 + n) else char_of ((if upper then 55 else 87) + n))"

datatype pct_style = Raw | Lower_hex | Upper_hex

definition pct_encode_byte :: "pct_style \<Rightarrow> char \<Rightarrow> string" where
  "pct_encode_byte st c =
    (if st = Raw \<and> c \<noteq> CHR ''%'' then [c]
     else [CHR ''%'', nibble_char (st = Upper_hex) (of_char c div 16),
           nibble_char (st = Upper_hex) (of_char c mod 16)])"

definition pct_encode :: "(pct_style \<times> char) list \<Rightarrow> string" where
  "pct_encode xs = concat (map (\<lambda>(st, c). pct_encode_byte st c) xs)"

lemma hex_nibble_nibble_char: "n < 16 \<Longrightarrow> hex_nibble (nibble_char u n) = Some n"
  by (auto simp: hex_nibble_def nibble_char_def isdigit_iff char_le_iff)

lemma pct_decode_escape:
  "hex_nibble d = Some v1 \<Longrightarrow> hex_nibble e = Some v2 \<Longrightarrow>
    pct_decode (CHR ''%'' # d # e # s) = map_option ((#) (char_of (16 * v1 + v2))) (pct_decode s)"
  by simp

lemma pct_decode_raw: "c \<noteq> CHR ''%'' \<Longrightarrow> pct_decode (c # s) = map_option ((#) c) (pct_decode s)"
  by (cases s rule: pct_decode.cases) auto

lemma pct_decode_encode_byte:
  "pct_decode (pct_encode_byte st c @ s) = map_option ((#) c) (pct_decode s)"
proof (cases "st = Raw \<and> c \<noteq> CHR ''%''")
  case True
  then show ?thesis by (simp add: pct_encode_byte_def pct_decode_raw)
next
  case False
  have lt: "(of_char c :: nat) < 256" by simp
  then have "16 * (of_char c div 16) + of_char c mod 16 = (of_char c :: nat)" by simp
  moreover have "(of_char c :: nat) div 16 < 16" using lt by (intro less_mult_imp_div_less) simp
  ultimately have "pct_decode ([CHR ''%'', nibble_char u (of_char c div 16), nibble_char u (of_char c mod 16)] @ s)
      = map_option ((#) c) (pct_decode s)" for u
    using pct_decode_escape [OF hex_nibble_nibble_char hex_nibble_nibble_char] by simp
  with False show ?thesis by (simp only: pct_encode_byte_def if_False)
qed

lemma pct_decode_encode: "pct_decode (pct_encode xs) = Some (map snd xs)"
proof (induction xs)
  case (Cons x xs)
  then show ?case by (cases x) (simp add: pct_encode_def pct_decode_encode_byte)
qed (simp add: pct_encode_def)

section \<open>IPv4 addresses\<close>

text \<open>\<open>inet_ntoa\<close> of the address whose network representation is \<open>htonl(lip)\<close>.\<close>

definition long2ip :: "u32 \<Rightarrow> string" where
  "long2ip lip =
    show_nat (unat lip div 2 ^ 24 mod 256) @ ''.'' @
    show_nat (unat lip div 2 ^ 16 mod 256) @ ''.'' @
    show_nat (unat lip div 2 ^ 8 mod 256) @ ''.'' @
    show_nat (unat lip mod 256)"

lemma split_at_separator:
  assumes "x @ c # r = y @ c # s" and "c \<notin> set x" and "c \<notin> set y"
  shows "x = y \<and> r = s"
  using assms
proof (induction x arbitrary: y)
  case Nil
  then show ?case by (cases y) auto
next
  case (Cons a x)
  then show ?case by (cases y) auto
qed

lemma dot_notin_show_nat [simp]: "CHR ''.'' \<notin> set (show_nat n)"
  using show_nat_digits [of n] by (auto simp: isdigit_iff)

lemma div_mod_inject:
  assumes "(x :: nat) div 256 = y div 256" and "x mod 256 = y mod 256"
  shows "x = y"
  using assms by (metis div_mult_mod_eq)

lemma div_step: "(x :: nat) div 2 ^ (k + 8) = x div 2 ^ k div 256"
  by (simp add: power_add div_mult2_eq)

lemma bytes_of_u32_inject:
  assumes "a < 2 ^ 32" and "b < (2 :: nat) ^ 32"
    and d24: "a div 2 ^ 24 mod 256 = b div 2 ^ 24 mod 256"
    and d16: "a div 2 ^ 16 mod 256 = b div 2 ^ 16 mod 256"
    and d8: "a div 2 ^ 8 mod 256 = b div 2 ^ 8 mod 256" and d0: "a mod 256 = b mod 256"
  shows "a = b"
proof -
  have small: "x div 2 ^ 24 div 256 = 0" if "x < 2 ^ 32" for x :: nat
    using that div_step [of x 24] by simp
  have "a div 2 ^ 24 = b div 2 ^ 24"
    by (rule div_mod_inject [OF _ d24]) (simp only: small assms(1,2))
  then have "a div 2 ^ 16 div 256 = b div 2 ^ 16 div 256"
    using div_step [of a 16] div_step [of b 16] by simp
  then have "a div 2 ^ 16 = b div 2 ^ 16"
    by (rule div_mod_inject [OF _ d16])
  then have "a div 2 ^ 8 div 256 = b div 2 ^ 8 div 256"
    using div_step [of a 8] div_step [of b 8] by simp
  then have "a div 2 ^ 8 = b div 2 ^ 8"
    by (rule div_mod_inject [OF _ d8])
  then have "a div 256 = b div 256" by simp
  then show "a = b"
    by (rule div_mod_inject [OF _ d0])
qed

lemma long2ip_inject_lemma: "long2ip a = long2ip b \<Longrightarrow> a = b"
proof -
  assume eq: "long2ip a = long2ip b"
  let ?o = "\<lambda>k w. show_nat (unat (w :: u32) div 2 ^ k mod 256)"
  have "?o 24 a = ?o 24 b \<and> ?o 16 a = ?o 16 b \<and> ?o 8 a = ?o 8 b
      \<and> show_nat (unat a mod 256) = show_nat (unat b mod 256)"
    using eq unfolding long2ip_def
    by (auto dest!: split_at_separator simp del: show_nat_inject)
  moreover have "unat a < 2 ^ 32" "unat b < 2 ^ 32"
    using unsigned_less [of a, where ?'a = nat] unsigned_less [of b, where ?'a = nat] by simp_all
  ultimately have "unat a = unat b"
    using bytes_of_u32_inject [of "unat a" "unat b"] by simp
  then show "a = b" by (simp add: word_unat_eq_iff)
qed

section \<open>Compact peer addresses\<close>

definition ip_port_hex_encode ::
  "(bool \<Rightarrow> string \<Rightarrow> string) \<Rightarrow> string \<Rightarrow> string \<Rightarrow> bool \<Rightarrow> string res" where
  "ip_port_hex_encode inet_pton ip port ipv6 =
    bindE (stoi port) (\<lambda>n.
      let value = unat (word_of_int n :: u16)
      in Inr (inet_pton ipv6 ip @ [char_of (value div 256), char_of (value mod 256)]))"

text \<open>Size of \<open>s6_addr\<close> and \<open>s_addr\<close>, and of a compact peer entry.\<close>

definition addr_size :: "bool \<Rightarrow> nat" where
  "addr_size ipv6 = (if ipv6 then 16 else 4)"

definition pton_ok :: "(bool \<Rightarrow> string \<Rightarrow> string) \<Rightarrow> bool" where
  "pton_ok inet_pton \<longleftrightarrow> (\<forall>ipv6 ip. length (inet_pton ipv6 ip) = addr_size ipv6)"

lemma ip_port_hex_encode_length:
  "ip_port_hex_encode pton ip port ipv6 = Inr h \<Longrightarrow> pton_ok pton \<Longrightarrow> length h = addr_size ipv6 + 2"
  by (auto simp: ip_port_hex_encode_def pton_ok_def Let_def)

section \<open>Unit prefixes\<close>

definition getPrefix :: "u8 \<Rightarrow> string" where
  "getPrefix level =
    (if level = 1 then ''k'' else if level = 2 then ''M'' else if level = 3 then ''G''
     else if level = 4 then ''T'' else if level = 5 then ''P'' else if level = 6 then ''E''
     else if level = 7 then ''Z'' else if level = 8 then ''Y'' else '''')"

section \<open>Properties\<close>

text \<open>C36: Percent-decoding inverts every percent-encoding of a byte string: whatever mixture
  of raw bytes and upper or lower case escapes RFC 3986 allows, \<open>hex_to_bin\<close> returns the
  bytes, and it neither fails nor reads out of bounds.\<close>

theorem hex_to_bin_inverts_encoding: "hex_to_bin (pct_encode xs) = Inr (map snd xs)"
  by (simp add: hex_to_bin_eq pct_decode_encode)

text \<open>\<open>long2ip\<close> gives different texts to different addresses, so the sets of banned and
  allowed addresses, which hold these texts, do not confuse addresses.\<close>

theorem long2ip_injective: "long2ip a = long2ip b \<longleftrightarrow> a = b"
  using long2ip_inject_lemma by blast

end
