(* ===== verification/Logger.thy ===== *)
theory Logger
  imports CppStd
begin

text \<open>
  src/misc/logger.cpp: the level filter and the shape of a log line. The levels are an
  ordered enumeration. The clock and \<open>strftime\<close> are outside the program: the formatted
  time is a parameter (\<open>None\<close> when \<open>strftime\<close> fails). Elsewhere in the development the
  calls of the logging macros are left out, as they only print.
\<close>

datatype level = INFO | WARNING | ERROR

fun level_value :: "level \<Rightarrow> nat" where
  "level_value INFO = 0"
| "level_value WARNING = 1"
| "level_value ERROR = 2"

lemma level_value_inject: "level_value a = level_value b \<longleftrightarrow> a = b"
  by (cases a; cases b) simp_all

instantiation level :: linorder
begin

definition less_eq_level :: "level \<Rightarrow> level \<Rightarrow> bool" where
  "less_eq_level a b \<longleftrightarrow> level_value a \<le> level_value b"

definition less_level :: "level \<Rightarrow> level \<Rightarrow> bool" where
  "less_level a b \<longleftrightarrow> level_value a < level_value b"

instance
  by standard (auto simp: less_eq_level_def less_level_def level_value_inject)

end

fun level_name :: "level \<Rightarrow> string" where
  "level_name INFO = ''INFO''"
| "level_name WARNING = ''WARNING''"
| "level_name ERROR = ''ERROR''"

text \<open>What \<open>Logger::write\<close> puts on the standard output.\<close>

definition log_write :: "level \<Rightarrow> string option \<Rightarrow> level \<Rightarrow> string \<Rightarrow> nat \<Rightarrow> string \<Rightarrow> string" where
  "log_write minLevel time lvl file line message =
    (if lvl \<ge> minLevel then
       (case time of Some t \<Rightarrow> ''['' @ t @ ''] '' | None \<Rightarrow> '''') @
       (if level_value lvl > 0
        then file @ '':'' @ show_nat line @ '' - '' @ level_name lvl @ '' -- '' else '''') @
       message @ [CHR 0x0A]
     else '''')"

lemma log_write_silent_iff: "log_write m t l f n msg = '''' \<longleftrightarrow> l < m"
  by (auto simp: log_write_def)

end
