(* ===== verification/Stats.thy ===== *)
theory Stats
  imports Complex_Main Utility
begin

text \<open>
  The counters of src/misc/stats.cpp. \<open>unsigned long\<close> counters wrap; the two displayed
  magnitudes are doubles, modelled as the rational the double stands for: the conversion
  from a 64 bit integer rounds to 53 significant bits (to even on a tie), the divisions by
  1024 are exact. The lemmas show that the scaling loop ends below its cap with a value
  of at most 1024 that times the unit is the rounded counter.
\<close>

record stats =
  st_changed :: bool
  st_peers :: u64
  st_torrents :: u64
  st_speed :: u64
  st_speedShow :: rat
  st_speedLvl :: u8
  st_transferred :: u64
  st_transferredShow :: rat
  st_transferredLvl :: u8

definition init_stats :: stats where
  "init_stats = \<lparr>st_changed = False, st_peers = 0, st_torrents = 0, st_speed = 0, st_speedShow = 0,
     st_speedLvl = 0, st_transferred = 0, st_transferredShow = 0, st_transferredLvl = 0\<rparr>"

definition incPeers :: "stats \<Rightarrow> stats" where
  "incPeers st = st\<lparr>st_peers := st_peers st + 1, st_changed := True\<rparr>"

definition decPeers :: "stats \<Rightarrow> stats" where
  "decPeers st = st\<lparr>st_peers := st_peers st - 1, st_changed := True\<rparr>"

definition incTorrents :: "stats \<Rightarrow> stats" where
  "incTorrents st = st\<lparr>st_torrents := st_torrents st + 1, st_changed := True\<rparr>"

definition decTorrents :: "stats \<Rightarrow> stats" where
  "decTorrents st = st\<lparr>st_torrents := st_torrents st - 1, st_changed := True\<rparr>"

definition setTorrents :: "u64 \<Rightarrow> stats \<Rightarrow> stats" where
  "setTorrents n st = st\<lparr>st_torrents := n\<rparr>"

text \<open>Conversion of an unsigned 64 bit integer to \<open>double\<close>.\<close>

fun bit_length :: "nat \<Rightarrow> nat" where
  "bit_length n = (if n = 0 then 0 else Suc (bit_length (n div 2)))"

declare bit_length.simps [simp del]

definition round53 :: "nat \<Rightarrow> nat" where
  "round53 n =
    (let sh = bit_length n - 53; q = n div 2 ^ sh; r = n mod 2 ^ sh
     in if sh = 0 then n
        else (if 2 ^ sh < 2 * r \<or> (2 ^ sh = 2 * r \<and> odd q) then q + 1 else q) * 2 ^ sh)"

definition to_double :: "u64 \<Rightarrow> rat" where
  "to_double w = of_nat (round53 (unat w))"

text \<open>\<open>while (show > 1024 && lvl < 9) { show /= 1024; ++lvl; }\<close>\<close>

function scale_unit :: "rat \<Rightarrow> nat \<Rightarrow> rat \<times> nat" where
  "scale_unit v lvl = (if v > 1024 \<and> lvl < 9 then scale_unit (v / 1024) (lvl + 1) else (v, lvl))"
  by pat_completeness auto
termination
  by (relation "measure (\<lambda>(v, lvl). 9 - lvl)") auto

declare scale_unit.simps [simp del]

definition incSpeed :: "u64 \<Rightarrow> stats \<Rightarrow> stats" where
  "incSpeed n st =
    (let sp = st_speed st + n div 2; (v, l) = scale_unit (to_double sp) 0
     in st\<lparr>st_speed := sp, st_speedShow := v, st_speedLvl := of_nat l, st_changed := True\<rparr>)"

definition decSpeed :: "u64 \<Rightarrow> stats \<Rightarrow> stats" where
  "decSpeed n st = st\<lparr>st_speed := st_speed st - n div 2\<rparr>"

definition incTransferred :: "u64 \<Rightarrow> stats \<Rightarrow> stats" where
  "incTransferred n st =
    (let tr = st_transferred st + n div 2; (v, l) = scale_unit (to_double tr) 0
     in st\<lparr>st_transferred := tr, st_transferredShow := v, st_transferredLvl := of_nat l,
           st_changed := True\<rparr>)"

text \<open>
  \<open>Stats::show\<close>: the values it prints (the text of a \<open>double\<close> is left to the library) and
  the state with the flag cleared.
\<close>

definition show_stats :: "stats \<Rightarrow> (u64 \<times> u64 \<times> rat \<times> string \<times> rat \<times> string) option \<times> stats" where
  "show_stats st =
    (if st_changed st then
       (Some (st_peers st, st_torrents st, st_speedShow st, getPrefix (st_speedLvl st),
              st_transferredShow st, getPrefix (st_transferredLvl st)),
        st\<lparr>st_changed := False\<rparr>)
     else (None, st))"

lemma st_peers_simps [simp]:
  "st_peers (incPeers st) = st_peers st + 1"
  "st_peers (decPeers st) = st_peers st - 1"
  "st_peers (incTorrents st) = st_peers st"
  "st_peers (decTorrents st) = st_peers st"
  "st_peers (setTorrents t st) = st_peers st"
  "st_peers (incSpeed n st) = st_peers st"
  "st_peers (decSpeed n st) = st_peers st"
  "st_peers (incTransferred n st) = st_peers st"
  by (simp_all add: incPeers_def decPeers_def incTorrents_def decTorrents_def setTorrents_def
      incSpeed_def decSpeed_def incTransferred_def Let_def split: prod.splits)

lemma st_torrents_simps [simp]:
  "st_torrents (incPeers st) = st_torrents st"
  "st_torrents (decPeers st) = st_torrents st"
  "st_torrents (incTorrents st) = st_torrents st + 1"
  "st_torrents (decTorrents st) = st_torrents st - 1"
  "st_torrents (setTorrents t st) = t"
  "st_torrents (incSpeed n st) = st_torrents st"
  "st_torrents (decSpeed n st) = st_torrents st"
  "st_torrents (incTransferred n st) = st_torrents st"
  by (simp_all add: incPeers_def decPeers_def incTorrents_def decTorrents_def setTorrents_def
      incSpeed_def decSpeed_def incTransferred_def Let_def split: prod.splits)

lemma scale_unit_mult: "scale_unit v l = (v', l') \<Longrightarrow> l \<le> l' \<and> v = v' * 1024 ^ (l' - l)"
proof (induction v l rule: scale_unit.induct)
  case (1 v l)
  show ?case
  proof (cases "v > 1024 \<and> l < 9")
    case True
    with "1.prems" have "scale_unit (v / 1024) (l + 1) = (v', l')"
      by (simp add: scale_unit.simps [of v l])
    with "1.IH" True have "l + 1 \<le> l'" "v / 1024 = v' * 1024 ^ (l' - (l + 1))" by auto
    moreover from this have "l' - l = Suc (l' - (l + 1))" by simp
    ultimately show ?thesis by simp
  next
    case False
    with "1.prems" show ?thesis by (auto simp: scale_unit.simps [of v l])
  qed
qed

lemma scale_unit_bound:
  "v \<le> 1024 ^ Suc k \<Longrightarrow> l + k \<le> 9 \<Longrightarrow> scale_unit v l = (v', l') \<Longrightarrow> v' \<le> 1024 \<and> l' \<le> l + k"
proof (induction k arbitrary: v l)
  case 0
  then show ?case by (auto simp: scale_unit.simps [of v l])
next
  case (Suc k)
  show ?case
  proof (cases "v > 1024")
    case True
    with Suc.prems have "scale_unit (v / 1024) (l + 1) = (v', l')"
      by (simp add: scale_unit.simps [of v l])
    moreover have "v / 1024 \<le> 1024 ^ Suc k" using Suc.prems(1) by simp
    ultimately show ?thesis using Suc.IH [of "v / 1024" "l + 1"] Suc.prems(2) by simp
  next
    case False
    with Suc.prems show ?thesis by (auto simp: scale_unit.simps [of v l])
  qed
qed

lemma bit_length_less: "n < 2 ^ k \<Longrightarrow> bit_length n \<le> k"
proof (induction k arbitrary: n)
  case 0
  then show ?case by (simp add: bit_length.simps)
next
  case (Suc k)
  then have "bit_length (n div 2) \<le> k" by (intro Suc.IH) (simp add: less_mult_imp_div_less)
  then show ?case by (simp add: bit_length.simps [of n])
qed

lemma round53_bound: "n < 2 ^ 64 \<Longrightarrow> round53 n \<le> 2 ^ 64"
proof -
  assume n: "n < 2 ^ 64"
  define sh where "sh = bit_length n - 53"
  have sh: "sh \<le> 11" using bit_length_less [OF n] by (simp add: sh_def)
  have q: "n div 2 ^ sh + 1 \<le> 2 ^ (64 - sh)"
  proof -
    have "n < 2 ^ (64 - sh) * 2 ^ sh" using n sh by (simp flip: power_add)
    then show ?thesis by (simp add: less_mult_imp_div_less Suc_le_eq)
  qed
  have up: "m * 2 ^ sh \<le> 2 ^ 64" if "m \<le> n div 2 ^ sh + 1" for m
  proof -
    have "m * 2 ^ sh \<le> 2 ^ (64 - sh) * 2 ^ sh" using that q by (intro mult_le_mono1) simp
    then show ?thesis using sh by (simp flip: power_add)
  qed
  show ?thesis
    using n up [of "n div 2 ^ sh"] up [of "n div 2 ^ sh + 1"]
    by (auto simp: round53_def Let_def sh_def)
qed

lemma to_double_bound: "to_double w \<le> 1024 ^ 7"
proof -
  have "round53 (unat w) \<le> 2 ^ 64"
    using round53_bound [of "unat w"] unsigned_less [of w, where ?'a = nat] by simp
  then have "(of_nat (round53 (unat w)) :: rat) \<le> of_nat (2 ^ 64)" by (rule of_nat_mono)
  then show ?thesis by (simp add: to_double_def)
qed

lemma scale_to_double:
  assumes "scale_unit (to_double w) 0 = (v, l)"
  shows "v \<le> 1024 \<and> l \<le> 6 \<and> v * 1024 ^ l = to_double w"
  using scale_unit_bound [of "to_double w" 6 0 v l] scale_unit_mult [OF assms] to_double_bound [of w] assms
  by simp

section \<open>Properties\<close>

text \<open>Adding to the speed scales the shown value to at most 1024 with a level \<open>getPrefix\<close>
  has a name for, and the shown value times the unit is the counter converted to a double.\<close>

theorem incSpeed_scales:
  "st_speedShow (incSpeed n st) \<le> 1024 \<and> unat (st_speedLvl (incSpeed n st)) \<le> 6 \<and>
    st_speedShow (incSpeed n st) * 1024 ^ unat (st_speedLvl (incSpeed n st)) = to_double (st_speed st + n div 2)"
proof -
  obtain v l where vl: "scale_unit (to_double (st_speed st + n div 2)) 0 = (v, l)" by fastforce
  have "unat (of_nat l :: u8) = l" using scale_to_double [OF vl] by (simp add: unat_of_nat)
  with scale_to_double [OF vl] vl show ?thesis by (simp add: incSpeed_def)
qed

end
