(* ===== verification/Response.thy ===== *)
theory Response
  imports CppStd
begin

text \<open>
  src/misc/response.cpp: the HTTP reply head and the bencoded error reply. As a
  specification, bencoded values and their encoding (BEP 3): the replies of the tracker are
  later shown to be encodings of the values they stand for. \<open>benc\<close> writes the keys of a
  dictionary in the order given; BEP 3 also asks that they are sorted and different, which is
  \<open>canonical\<close>, and which the replies are not.
\<close>

definition crlf :: string where
  "crlf = [CHR 0x0D, CHR 0x0A]"

definition response_head :: string where
  "response_head = ''HTTP/1.1 200 OK'' @ crlf @ ''Server: liquid 0.0'' @ crlf @
     ''Content-Type: text/plain'' @ crlf @ ''Connection: close'' @ crlf @ crlf"

text \<open>The second argument is not used by the code.\<close>

definition response :: "string \<Rightarrow> bool \<Rightarrow> string" where
  "response body gzip = response_head @ body"

definition error_body :: "string \<Rightarrow> string" where
  "error_body reason = ''d14:failure reason'' @ show_nat (length reason) @ '':'' @ reason @
     ''12:min intervali5400e8:intervali5400ee''"

definition error :: "string \<Rightarrow> string" where
  "error reason = response (error_body reason) False"

section \<open>Specification: bencoded values\<close>

datatype bval = BInt int | BStr string | BList "bval list" | BDict "(string \<times> bval) list"

definition benc_str :: "string \<Rightarrow> string" where
  "benc_str s = show_nat (length s) @ '':'' @ s"

fun benc :: "bval \<Rightarrow> string" where
  "benc (BInt i) = ''i'' @ show_int i @ ''e''"
| "benc (BStr s) = benc_str s"
| "benc (BList vs) = ''l'' @ concat (map benc vs) @ ''e''"
| "benc (BDict kvs) = ''d'' @ concat (map (\<lambda>(k, v). benc_str k @ benc v) kvs) @ ''e''"

text \<open>The keys of every dictionary are in strictly ascending order.\<close>

fun canonical :: "bval \<Rightarrow> bool" where
  "canonical (BInt i) = True"
| "canonical (BStr s) = True"
| "canonical (BList vs) = list_all canonical vs"
| "canonical (BDict kvs) = (sorted_wrt (<) (map fst kvs) \<and> list_all (\<lambda>(k, v). canonical v) kvs)"

lemma show_int_nat [simp]: "show_int (int n) = show_nat n"
  by (simp add: show_int_def)

lemma show_nat_small:
  "show_nat 0 = ''0''" "show_nat 2 = ''2''" "show_nat 4 = ''4''" "show_nat 5 = ''5''" "show_nat 6 = ''6''"
  "show_nat 7 = ''7''" "show_nat 8 = ''8''" "show_nat 10 = ''10''" "show_nat 12 = ''12''"
  "show_nat 14 = ''14''" "show_nat 20 = ''20''" "show_nat 5400 = ''5400''"
  by (simp_all add: show_nat.simps)

text \<open>The same facts in the form that lengths of literals simplify to.\<close>

lemmas show_nat_length =
  show_nat_small(1-11) [unfolded numeral_eq_Suc pred_numeral_simps BitM.simps]

declare show_nat_small [simp] show_nat_length [simp]

lemma length_append_response: "length (response b g) = length response_head + length b"
  by (simp add: response_def)

lemma error_body_benc:
  "error_body reason = benc (BDict [(''failure reason'', BStr reason),
     (''min interval'', BInt 5400), (''interval'', BInt 5400)])"
  by (simp add: error_body_def benc_str_def show_int_def)

section \<open>Properties\<close>

text \<open>An error reply is a bencoded dictionary with the reason and two intervals, for any
  reason; its keys are not in the order of BEP 3.\<close>

theorem error_is_bencoded:
  "error reason = response_head @ benc (BDict [(''failure reason'', BStr reason),
     (''min interval'', BInt 5400), (''interval'', BInt 5400)])"
  by (simp add: error_def response_def error_body_benc)

lemma error_not_canonical:
  "\<not> canonical (BDict [(''failure reason'', BStr reason), (''min interval'', BInt 5400), (''interval'', BInt 5400)])"
proof -
  have "\<not> ''min interval'' < ''interval''" by code_simp
  then show ?thesis by simp
qed

end
