(* ===== verification/User.thy ===== *)
theory User
  imports CppStd
begin

text \<open>
  The account of src/handler/user.cpp: byte counters that are reset when they are written
  to the database, freeleech tokens per torrent with the time they were given, and the IP
  addresses the account is restricted to. Clock readings are integers (seconds).
\<close>

record user =
  u_id :: u32
  u_uploaded :: u64
  u_downloaded :: u64
  u_authorized :: bool
  u_tokens :: "u32 \<rightharpoonup> int"
  u_IPRestrictions :: "string set"

definition new_user :: "u32 \<Rightarrow> bool \<Rightarrow> user" where
  "new_user i authorized = \<lparr>u_id = i, u_uploaded = 0, u_downloaded = 0, u_authorized = authorized,
     u_tokens = Map.empty, u_IPRestrictions = {}\<rparr>"

definition user_reset :: "user \<Rightarrow> user" where
  "user_reset u = u\<lparr>u_downloaded := 0, u_uploaded := 0\<rparr>"

text \<open>The parameters are \<open>unsigned int\<close>, the counters \<open>unsigned long\<close>.\<close>

definition user_updateStats :: "u32 \<Rightarrow> u32 \<Rightarrow> user \<Rightarrow> user" where
  "user_updateStats downloaded uploaded u =
    u\<lparr>u_downloaded := u_downloaded u + ucast downloaded, u_uploaded := u_uploaded u + ucast uploaded\<rparr>"

text \<open>\<open>tokens.at(tid) = time\<close>, or \<open>emplace\<close> when \<open>at\<close> throws.\<close>

definition user_addToken :: "u32 \<Rightarrow> int \<Rightarrow> user \<Rightarrow> user" where
  "user_addToken tid t u =
    (case u_tokens u tid of
       Some _ \<Rightarrow> u\<lparr>u_tokens := (u_tokens u)(tid \<mapsto> t)\<rparr>
     | None \<Rightarrow> u\<lparr>u_tokens := fm_emplace tid t (u_tokens u)\<rparr>)"

definition user_removeToken :: "u32 \<Rightarrow> user \<Rightarrow> user" where
  "user_removeToken tid u = u\<lparr>u_tokens := fm_erase tid (u_tokens u)\<rparr>"

definition hasToken :: "u32 \<Rightarrow> user \<Rightarrow> bool" where
  "hasToken tid u \<longleftrightarrow> u_tokens u tid \<noteq> None"

definition isTokenExpired :: "int \<Rightarrow> u32 \<Rightarrow> user \<Rightarrow> bool" where
  "isTokenExpired now tid u =
    (case u_tokens u tid of Some t \<Rightarrow> now - t < 3600 * 24 | None \<Rightarrow> False)"

definition user_addIPRestriction :: "string \<Rightarrow> user \<Rightarrow> user" where
  "user_addIPRestriction ip u = u\<lparr>u_IPRestrictions := insert ip (u_IPRestrictions u)\<rparr>"

definition user_removeIPRestriction :: "string \<Rightarrow> user \<Rightarrow> user" where
  "user_removeIPRestriction ip u = u\<lparr>u_IPRestrictions := u_IPRestrictions u - {ip}\<rparr>"

text \<open>The loop over the set returns false at the first equal address.\<close>

definition isRestricted :: "string \<Rightarrow> user \<Rightarrow> bool" where
  "isRestricted ip u =
    (if u_IPRestrictions u = {} then False
     else if ip \<in> u_IPRestrictions u then False
     else True)"

definition setAuthorized :: "bool \<Rightarrow> user \<Rightarrow> user" where
  "setAuthorized authorized u = u\<lparr>u_authorized := authorized\<rparr>"

definition hasChanged :: "user \<Rightarrow> bool" where
  "hasChanged u \<longleftrightarrow> u_downloaded u \<noteq> 0 \<or> u_uploaded u \<noteq> 0"

lemmas user_defs = user_reset_def user_updateStats_def user_addToken_def user_removeToken_def
  user_addIPRestriction_def user_removeIPRestriction_def setAuthorized_def new_user_def

lemma u_id_simps [simp]:
  "u_id (user_reset u) = u_id u" "u_id (user_updateStats d p u) = u_id u"
  "u_id (user_addToken tid t u) = u_id u" "u_id (user_removeToken tid u) = u_id u"
  "u_id (user_addIPRestriction ip u) = u_id u" "u_id (user_removeIPRestriction ip u) = u_id u"
  "u_id (setAuthorized a u) = u_id u"
  by (simp_all add: user_defs split: option.splits)

lemma u_tokens_addToken [simp]: "u_tokens (user_addToken tid t u) = (u_tokens u)(tid \<mapsto> t)"
  by (auto simp: user_addToken_def fm_emplace_def split: option.splits)

lemma u_tokens_removeToken [simp]: "u_tokens (user_removeToken tid u) = (u_tokens u)(tid := None)"
  by (simp add: user_removeToken_def fm_erase_def)

lemma not_hasChanged_reset [simp]: "\<not> hasChanged (user_reset u)"
  by (simp add: hasChanged_def user_reset_def)

section \<open>The store of accounts\<close>

text \<open>
  The program shares accounts through \<open>User*\<close>: the passkey table and every peer hold
  pointers. Accounts are allocated with \<open>new\<close> and never deleted, so the store is the list
  of all accounts allocated so far and an address is an index into it; \<open>None\<close> is
  \<open>nullptr\<close>.
\<close>

type_synonym heap = "user list"
type_synonym user_ptr = "nat option"

definition alloc :: "user \<Rightarrow> heap \<Rightarrow> nat \<times> heap" where
  "alloc u h = (length h, h @ [u])"

definition deref :: "heap \<Rightarrow> user_ptr \<Rightarrow> user res" where
  "deref h p = (case p of None \<Rightarrow> Inl (UB Null_pointer)
     | Some a \<Rightarrow> if a < length h then Inr (h ! a) else Inl (UB Index_past_end))"

definition modify :: "user_ptr \<Rightarrow> (user \<Rightarrow> user) \<Rightarrow> heap \<Rightarrow> heap res" where
  "modify p f h = bindE (deref h p) (\<lambda>u. Inr (h[the p := f u]))"

definition valid_ptr :: "heap \<Rightarrow> user_ptr \<Rightarrow> bool" where
  "valid_ptr h p \<longleftrightarrow> (case p of None \<Rightarrow> False | Some a \<Rightarrow> a < length h)"

lemma valid_ptr_simps [simp]: "\<not> valid_ptr h None" "valid_ptr h (Some a) \<longleftrightarrow> a < length h"
  by (simp_all add: valid_ptr_def)

lemma valid_ptrE [elim]:
  assumes "valid_ptr h p" obtains a where "p = Some a" and "a < length h"
  using assms by (cases p) auto

lemma deref_valid: "valid_ptr h p \<Longrightarrow> deref h p = Inr (h ! the p)"
  by (auto simp: deref_def)

lemma deref_Some [simp, res_simps]: "a < length h \<Longrightarrow> deref h (Some a) = Inr (h ! a)"
  by (simp add: deref_def)

lemma deref_Inr: "deref h p = Inr u \<Longrightarrow> valid_ptr h p \<and> u = h ! the p"
  by (auto simp: deref_def split: option.splits if_splits)

lemma modify_valid: "valid_ptr h p \<Longrightarrow> modify p f h = Inr (h[the p := f (h ! the p)])"
  by (simp add: modify_def deref_valid)

lemma modify_length [keeps]: "modify p f h = Inr h' \<Longrightarrow> length h' = length h"
  by (auto simp: modify_def)

lemma valid_ptr_length: "length h \<le> length h' \<Longrightarrow> valid_ptr h p \<Longrightarrow> valid_ptr h' p"
  by (auto simp: valid_ptr_def split: option.splits)

lemma hasToken_iff: "hasToken tid u \<longleftrightarrow> (\<exists>t. u_tokens u tid = Some t)"
  by (auto simp: hasToken_def)

section \<open>Properties\<close>

text \<open>A token counts as expired exactly during the first day after it was given: the
  comparison in \<open>isTokenExpired\<close> is the wrong way round.\<close>

theorem token_expired_while_fresh:
  "isTokenExpired now tid (user_addToken tid t u) = (now - t < 24 * 3600)"
  by (simp add: isTokenExpired_def)

lemma ucast_down_up: "unat (ucast (ucast d :: u32) :: u64) = unat d mod 2 ^ 32" for d :: u64
  by (simp add: unsigned_ucast_eq unsigned_take_bit_eq take_bit_eq_mod unat_mod_distrib)

text \<open>The amounts credited to an account are the peer's 64 bit differences reduced modulo
  \<open>2^32\<close>, because \<open>User::updateStats\<close> takes \<open>unsigned int\<close>s.\<close>

theorem credited_amounts_truncated:
  "unat (u_downloaded (user_updateStats (ucast d) (ucast p) (new_user i a))) = unat (d :: u64) mod 2 ^ 32 \<and>
   unat (u_uploaded (user_updateStats (ucast d) (ucast p) (new_user i a))) = unat (p :: u64) mod 2 ^ 32"
  using ucast_down_up [of d] ucast_down_up [of p] by (simp add: user_updateStats_def new_user_def)

end
