(* ===== verification/Peer.thy ===== *)
theory Peer
  imports Config Utility Stats User
begin

text \<open>
  One announced client on one torrent: src/handler/peer.cpp. Byte counts are
  \<open>unsigned long\<close>, speeds and the corrupt count \<open>unsigned int\<close>, times are integers. The
  values a run takes from outside the program are collected in \<open>env\<close>: the clock readings
  of one request, the result of \<open>inet_pton\<close>, what the uninitialised member \<open>corrupt\<close> of a
  new peer holds, the order the hash table imposes, and whether the build writes log messages.
  The constructor leaves \<open>corrupt\<close> without a value, and to read it then is undefined
  behaviour: \<open>None\<close> is that indeterminate value; \<open>Some v\<close> is the case of a platform on which
  the storage simply holds \<open>v\<close>.
\<close>

record peer =
  p_user :: user_ptr
  p_downloaded :: u64
  p_uploaded :: u64
  p_totalDownloaded :: u64
  p_totalUploaded :: u64
  p_downSpeed :: u32
  p_upSpeed :: u32
  p_left :: u64
  p_completed :: bool
  p_active :: bool
  p_IP :: string
  p_port :: string
  p_hexIPPort :: string
  p_peerID :: string
  p_torrentID :: u32
  p_client :: string
  p_timespent :: u64
  p_lastUpdate :: int
  p_corrupt :: "u32 option"

text \<open>
  \<open>e_now\<close> is the clock reading of the request handler, \<open>e_now_peer\<close> the later one of the
  \<open>Peer\<close> constructor, \<open>e_now_token\<close> the one of \<open>isTokenExpired\<close>; \<open>e_order\<close> ranks the keys
  of a hash table in its iteration order, \<open>e_logging\<close> says whether the program was built with
  \<open>ENABLE_LOG\<close> (the default).
\<close>

record env =
  e_now :: int
  e_now_peer :: int
  e_now_token :: int
  e_pton :: "bool \<Rightarrow> string \<Rightarrow> string"
  e_corrupt :: "u32 option"
  e_order :: "string \<Rightarrow> nat"
  e_logging :: bool

definition new_peer ::
  "env \<Rightarrow> string \<Rightarrow> string \<Rightarrow> user_ptr \<Rightarrow> u64 \<Rightarrow> u64 \<Rightarrow> u64 \<Rightarrow> u32 \<Rightarrow> string \<Rightarrow> string \<Rightarrow> bool \<Rightarrow> peer res"
  where
  "new_peer e IP port u announcedLeft announcedDownloaded announcedUploaded torrentID client peerID ipv6 =
    bindE (ip_port_hex_encode (e_pton e) IP port ipv6) (\<lambda>hex. Inr
      \<lparr>p_user = u, p_downloaded = 0, p_uploaded = 0,
       p_totalDownloaded = announcedDownloaded, p_totalUploaded = announcedUploaded,
       p_downSpeed = 0, p_upSpeed = 0, p_left = announcedLeft,
       p_completed = (announcedLeft = 0), p_active = True,
       p_IP = IP, p_port = port, p_hexIPPort = hex, p_peerID = peerID, p_torrentID = torrentID,
       p_client = client, p_timespent = 0, p_lastUpdate = e_now_peer e, p_corrupt = e_corrupt e\<rparr>)"

text \<open>
  \<open>Peer::updateStats\<close>. \<open>now - lastUpdate\<close> is converted to \<open>unsigned long\<close> in the
  divisions and in the sum; the quotients are truncated to \<open>unsigned int\<close>.
\<close>

definition peer_updateStats ::
  "u64 \<Rightarrow> u64 \<Rightarrow> u64 \<Rightarrow> u32 \<Rightarrow> int \<Rightarrow> peer \<times> stats \<Rightarrow> peer \<times> stats" where
  "peer_updateStats announcedDownloaded announcedUploaded announcedLeft announcedCorrupt now ps =
    (let (p, st) = ps;
         down = announcedDownloaded - p_totalDownloaded p;
         up = announcedUploaded - p_totalUploaded p;
         st1 = incTransferred (down + up) st;
         st2 = decSpeed (ucast (p_downSpeed p + p_upSpeed p)) st1;
         elapsed = (word_of_int (now - p_lastUpdate p) :: u64);
         ds = (if now > p_lastUpdate p then ucast (down div elapsed) else 0);
         us = (if now > p_lastUpdate p then ucast (up div elapsed) else 0);
         st3 = incSpeed (ucast (ds + us)) st2
     in (p\<lparr>p_downloaded := down, p_totalDownloaded := announcedDownloaded,
           p_uploaded := up, p_totalUploaded := announcedUploaded,
           p_downSpeed := ds, p_upSpeed := us, p_left := announcedLeft,
           p_corrupt := Some announcedCorrupt, p_timespent := p_timespent p + elapsed,
           p_lastUpdate := now\<rparr>, st3))"

text \<open>\<open>Peer::getCorrupt\<close>\<close>

definition getCorrupt :: "peer \<Rightarrow> u32 res" where
  "getCorrupt p = (case p_corrupt p of None \<Rightarrow> Inl (UB Uninitialised_read) | Some c \<Rightarrow> Inr c)"

definition complete :: "peer \<Rightarrow> peer" where
  "complete p = p\<lparr>p_completed := True\<rparr>"

definition inactive :: "peer \<Rightarrow> peer" where
  "inactive p = p\<lparr>p_active := False\<rparr>"

definition peer_timedOut :: "config \<Rightarrow> int \<Rightarrow> peer \<Rightarrow> bool" where
  "peer_timedOut cfg now p \<longleftrightarrow> now - p_lastUpdate p > getInt cfg ''timeout''"

text \<open>\<open>Peer::getTimespent\<close> resets the counter.\<close>

definition getTimespent :: "peer \<Rightarrow> u64 \<times> peer" where
  "getTimespent p = (p_timespent p, p\<lparr>p_timespent := 0\<rparr>)"

section \<open>What the other components rely on\<close>

text \<open>A peer of an IPv4 or IPv6 table: a compact address of the right size and, on a
  private tracker, a valid account.\<close>

definition peer_ok :: "bool \<Rightarrow> bool \<Rightarrow> heap \<Rightarrow> peer \<Rightarrow> bool" where
  "peer_ok private ipv6 h p \<longleftrightarrow>
    length (p_hexIPPort p) = addr_size ipv6 + 2 \<and> (private \<longrightarrow> valid_ptr h (p_user p))"

lemma peer_updateStats_fields [simp]:
  "p_user (fst (peer_updateStats d u l c now ps)) = p_user (fst ps)"
  "p_hexIPPort (fst (peer_updateStats d u l c now ps)) = p_hexIPPort (fst ps)"
  "p_peerID (fst (peer_updateStats d u l c now ps)) = p_peerID (fst ps)"
  "p_active (fst (peer_updateStats d u l c now ps)) = p_active (fst ps)"
  "p_completed (fst (peer_updateStats d u l c now ps)) = p_completed (fst ps)"
  "p_torrentID (fst (peer_updateStats d u l c now ps)) = p_torrentID (fst ps)"
  "p_totalDownloaded (fst (peer_updateStats d u l c now ps)) = d"
  "p_totalUploaded (fst (peer_updateStats d u l c now ps)) = u"
  "p_left (fst (peer_updateStats d u l c now ps)) = l"
  "p_corrupt (fst (peer_updateStats d u l c now ps)) = Some c"
  "p_lastUpdate (fst (peer_updateStats d u l c now ps)) = now"
  "p_downloaded (fst (peer_updateStats d u l c now ps)) = d - p_totalDownloaded (fst ps)"
  "p_uploaded (fst (peer_updateStats d u l c now ps)) = u - p_totalUploaded (fst ps)"
  "st_peers (snd (peer_updateStats d u l c now ps)) = st_peers (snd ps)"
  "st_torrents (snd (peer_updateStats d u l c now ps)) = st_torrents (snd ps)"
  by (cases ps; simp add: peer_updateStats_def Let_def)+

lemma getCorrupt_simps [simp, res_simps]:
  "p_corrupt p = Some c \<Longrightarrow> getCorrupt p = Inr c"
  "p_corrupt p = None \<Longrightarrow> getCorrupt p = Inl (UB Uninitialised_read)"
  by (simp_all add: getCorrupt_def)

lemma getCorrupt_Inr: "getCorrupt p = Inr c \<longleftrightarrow> p_corrupt p = Some c"
  by (simp add: getCorrupt_def split: option.splits)

lemma getCorrupt_marked [simp]:
  "getCorrupt (complete p) = getCorrupt p" "getCorrupt (inactive p) = getCorrupt p"
  "getCorrupt (snd (getTimespent p)) = getCorrupt p" "getCorrupt (p\<lparr>p_timespent := n\<rparr>) = getCorrupt p"
  by (simp_all add: getCorrupt_def complete_def inactive_def getTimespent_def)

lemma peer_ok_updateStats [keeps]:
  "peer_ok private ipv6 h (fst ps) \<Longrightarrow> peer_ok private ipv6 h (fst (peer_updateStats d u l c now ps))"
  by (simp add: peer_ok_def)

lemma peer_ok_simps [simp]:
  "peer_ok private ipv6 h (complete p) = peer_ok private ipv6 h p"
  "peer_ok private ipv6 h (inactive p) = peer_ok private ipv6 h p"
  "peer_ok private ipv6 h (snd (getTimespent p)) = peer_ok private ipv6 h p"
  by (simp_all add: peer_ok_def complete_def inactive_def getTimespent_def)

lemma peer_ok_heap [keeps]:
  "peer_ok private ipv6 h p \<Longrightarrow> length h \<le> length h' \<Longrightarrow> peer_ok private ipv6 h' p"
  by (auto simp: peer_ok_def dest: valid_ptr_length)

lemma new_peer_ok [keeps]:
  "new_peer e IP port u l d up tid client pid ipv6 = Inr p \<Longrightarrow> pton_ok (e_pton e) \<Longrightarrow>
    (private \<longrightarrow> valid_ptr h u) \<Longrightarrow> peer_ok private ipv6 h p"
  by (auto simp: new_peer_def peer_ok_def dest: ip_port_hex_encode_length)

lemma new_peer_fields:
  "new_peer e IP port u l d up tid client pid ipv6 = Inr p \<Longrightarrow>
    p_peerID p = pid \<and> p_user p = u \<and> p_left p = l \<and> p_totalDownloaded p = d \<and> p_totalUploaded p = up
    \<and> p_active p \<and> p_IP p = IP \<and> p_port p = port \<and> p_corrupt p = e_corrupt e
    \<and> p_lastUpdate p = e_now_peer e \<and> p_torrentID p = tid \<and> (p_completed p \<longleftrightarrow> l = 0)"
  by (auto simp: new_peer_def)

section \<open>The per-announce deltas add up\<close>

text \<open>
  An announce as the accounting sees it: the announced downloaded and uploaded totals, the
  bytes left, the corrupt count and the time. A peer goes through a sequence of them; what an
  account is charged is the sum of the differences \<open>updateStats\<close> leaves in the peer.
\<close>

type_synonym stats_update = "u64 \<times> u64 \<times> u64 \<times> u32 \<times> int"

fun run_updates :: "stats_update list \<Rightarrow> peer \<times> stats \<Rightarrow> u64 \<times> u64 \<times> peer \<times> stats" where
  "run_updates [] ps = (0, 0, ps)"
| "run_updates ((d, u, l, c, now) # as) ps =
    (let ps' = peer_updateStats d u l c now ps; (sd, su, ps'') = run_updates as ps'
     in (p_downloaded (fst ps') + sd, p_uploaded (fst ps') + su, ps''))"

lemma run_updates_telescope:
  "run_updates (as @ [(d, u, l, c, now)]) ps = (sd, su, ps') \<Longrightarrow>
    sd = d - p_totalDownloaded (fst ps) \<and> su = u - p_totalUploaded (fst ps) \<and>
    p_totalDownloaded (fst ps') = d \<and> p_totalUploaded (fst ps') = u \<and> p_left (fst ps') = l \<and>
    p_lastUpdate (fst ps') = now"
proof (induction as arbitrary: ps sd su)
  case (Cons a as)
  obtain d1 u1 l1 c1 now1 where a: "a = (d1, u1, l1, c1, now1)" by (cases a)
  let ?q = "peer_updateStats d1 u1 l1 c1 now1 ps"
  obtain sd' su' where "run_updates (as @ [(d, u, l, c, now)]) ?q = (sd', su', ps')"
    using Cons.prems a by (auto simp: Let_def split: prod.splits)
  with Cons.IH [OF this] Cons.prems a show ?case by (auto simp: Let_def)
qed (auto simp: Let_def)

section \<open>Properties\<close>

text \<open>C34: Over any sequence of announces of one peer, the differences it is charged with add up,
  modulo \<open>2^64\<close>, to what it announced: the downloaded ones to the downloaded total of the
  last announce minus the total it started from, the uploaded ones to the uploaded total of
  the last announce minus the one it started from. Afterwards the peer remembers the totals,
  the bytes left and the time of the last announce.\<close>

theorem announced_deltas_add_up:
  "case run_updates (as @ [(downloaded, uploaded, left, corrupt, now)]) (p, st) of (sd, su, q, st') \<Rightarrow>
    sd = downloaded - p_totalDownloaded p \<and> su = uploaded - p_totalUploaded p \<and>
    p_totalDownloaded q = downloaded \<and> p_totalUploaded q = uploaded \<and> p_left q = left \<and> p_lastUpdate q = now"
proof -
  obtain sd su q st' where
    "run_updates (as @ [(downloaded, uploaded, left, corrupt, now)]) (p, st) = (sd, su, q, st')"
    by (metis prod_cases4)
  with run_updates_telescope [OF this] show ?thesis by simp
qed

end
