(* ===== verification/Database.thy ===== *)
theory Database
  imports Peer "HOL-Library.Multiset" "HOL-Library.Sublist"
begin

text \<open>
  The write side of src/database/mysql.cpp (interface inc/database/db.hpp): the five
  pairs of queues, the rows recorded for users, peers, tokens and snatches, the statements
  the \<open>flush\<close> operations build from them, and the worker \<open>doFlushRecords\<close> that runs
  statements and keeps the ones the server refuses. \<open>requests d Users\<close> stands for
  \<open>userRequests\<close>, \<open>records d Users\<close> for \<open>userRecords\<close> and so on; \<open>threads\<close> lists the
  detached worker threads that were started. Whether \<open>mysql_real_query\<close> fails is a
  parameter. The row of a torrent is in the theory of torrents.
\<close>

datatype table = Users | Torrents | Peers_table | Tokens | Snatches

record db =
  requests :: "table \<Rightarrow> string list"
  records :: "table \<Rightarrow> string list"
  threads :: "table list"

definition empty_db :: db where
  "empty_db = \<lparr>requests = (\<lambda>_. []), records = (\<lambda>_. []), threads = []\<rparr>"

definition push_request :: "table \<Rightarrow> string \<Rightarrow> db \<Rightarrow> db" where
  "push_request t row d = d\<lparr>requests := (requests d)(t := requests d t @ [row])\<rparr>"

section \<open>Rows\<close>

definition user_row :: "user \<Rightarrow> string" where
  "user_row u = ''('' @ to_string (u_id u) @ '', '' @ to_string (u_downloaded u) @ '', '' @
     to_string (u_uploaded u) @ '')''"

definition recordUser :: "user_ptr \<Rightarrow> heap \<times> db \<Rightarrow> (heap \<times> db) res" where
  "recordUser p s =
    (let (h, d) = s in
     bindE (deref h p) (\<lambda>u.
       if hasChanged u then
         bindE (modify p user_reset h) (\<lambda>h'. Inr (h', push_request Users (user_row u) d))
       else Inr (h, d)))"

definition token_row :: "u32 \<Rightarrow> u32 \<Rightarrow> u32 \<Rightarrow> bool \<Rightarrow> string" where
  "token_row userID torrentID downloaded expired =
    ''('' @ to_string userID @ '', '' @ to_string torrentID @ '', '' @ to_string downloaded @ '', '' @
    (if expired then ''TRUE'' else ''FALSE'') @ '')''"

definition recordToken :: "u32 \<Rightarrow> u32 \<Rightarrow> u32 \<Rightarrow> bool \<Rightarrow> db \<Rightarrow> db" where
  "recordToken userID torrentID downloaded expired d =
    push_request Tokens (token_row userID torrentID downloaded expired) d"

text \<open>A value between single quotes, as the rows of peers and snatches are written.\<close>

definition sql_quote :: "string \<Rightarrow> string" where
  "sql_quote s = CHR 0x27 # s @ [CHR 0x27]"

definition peer_uid :: "config \<Rightarrow> heap \<Rightarrow> peer \<Rightarrow> string res" where
  "peer_uid cfg h p =
    (if get cfg ''type'' = ''private''
     then bindE (deref h (p_user p)) (\<lambda>u. Inr (to_string (u_id u))) else Inr ''0'')"

definition peer_row :: "string \<Rightarrow> u64 \<Rightarrow> u32 \<Rightarrow> peer \<Rightarrow> string" where
  "peer_row uid timespent corrupt p =
    ''('' @ sql_quote uid @ '', '' @ (if p_active p then ''1'' else ''0'') @ '', 1, '' @
    (if p_completed p then ''1'' else ''0'') @ '', '' @
    sql_quote (to_string (p_totalDownloaded p)) @ '', '' @
    sql_quote (to_string (p_totalUploaded p)) @ '', '' @
    sql_quote (to_string (p_left p)) @ '', '' @
    sql_quote (to_string (p_upSpeed p)) @ '', '' @
    sql_quote (to_string (p_downSpeed p)) @ '', '' @
    sql_quote (to_string corrupt) @ '', '' @
    sql_quote (to_string timespent) @ '', '' @
    sql_quote (p_client p) @ '', '' @
    sql_quote (p_peerID p) @ '', '' @
    sql_quote (to_string (p_torrentID p)) @ '', '' @
    sql_quote (p_IP p) @ '', '' @
    (if p_active p then ''UNIX_TIMESTAMP()'' else show_int (p_lastUpdate p)) @ '')''"

definition recordPeer :: "config \<Rightarrow> heap \<Rightarrow> peer \<times> db \<Rightarrow> (peer \<times> db) res" where
  "recordPeer cfg h pd =
    (let (p, d) = pd; (timespent, p') = getTimespent p in
     bindE (peer_uid cfg h p') (\<lambda>uid.
     bindE (getCorrupt p') (\<lambda>corrupt.
       Inr (p', push_request Peers_table (peer_row uid timespent corrupt p') d))))"

definition recordSnatch :: "config \<Rightarrow> heap \<Rightarrow> peer \<Rightarrow> int \<Rightarrow> db \<Rightarrow> db res" where
  "recordSnatch cfg h p now d =
    bindE (peer_uid cfg h p) (\<lambda>uid.
      Inr (push_request Snatches
        (''('' @ sql_quote uid @ '', '' @ sql_quote (show_int now) @ '', '' @
         sql_quote (to_string (p_torrentID p)) @ '', '' @ sql_quote (p_IP p) @ '')'') d))"

section \<open>Statements\<close>

text \<open>The loop over the requests with its \<open>first\<close> flag.\<close>

fun append_rows :: "bool \<Rightarrow> string \<Rightarrow> string list \<Rightarrow> string" where
  "append_rows first str [] = str"
| "append_rows first str (it # its) =
     append_rows False ((if \<not> first then str @ '', '' else str) @ it) its"

text \<open>
  The common shape of the five flush functions: requests become one statement at the end
  of the records, and a thread is started when there is anything to send.
\<close>

definition statement :: "string \<times> string \<Rightarrow> string list \<Rightarrow> string" where
  "statement sql rows = append_rows True (fst sql) rows @ snd sql"

definition flush_table :: "table \<Rightarrow> string \<times> string \<Rightarrow> db \<Rightarrow> db" where
  "flush_table t sql d =
    (let d1 = (if requests d t \<noteq> [] then
                 d\<lparr>records := (records d)(t := records d t @ [statement sql (requests d t)]),
                   requests := (requests d)(t := [])\<rparr>
               else d)
     in if records d1 t \<noteq> [] then d1\<lparr>threads := threads d1 @ [t]\<rparr> else d1)"

definition set_to_value :: "config \<Rightarrow> string \<Rightarrow> string" where
  "set_to_value cfg col = get cfg col @ '' = VALUES('' @ get cfg col @ '')''"

definition add_value :: "config \<Rightarrow> string \<Rightarrow> string" where
  "add_value cfg col = get cfg col @ '' = '' @ get cfg col @ '' + VALUES('' @ get cfg col @ '')''"

definition users_sql :: "config \<Rightarrow> string \<times> string" where
  "users_sql cfg =
    (''INSERT IGNORE INTO '' @ get cfg ''DB_Users'' @ ''('' @ get cfg ''DB_Users_ID'' @ '', '' @
     get cfg ''DB_Users_Downloaded'' @ '', '' @ get cfg ''DB_Users_Uploaded'' @ '') VALUES '',
     '' ON DUPLICATE KEY UPDATE '' @ add_value cfg ''DB_Users_Downloaded'' @ '', '' @
     add_value cfg ''DB_Users_Uploaded'')"

definition flushUsers :: "config \<Rightarrow> db \<Rightarrow> db" where
  "flushUsers cfg = flush_table Users (users_sql cfg)"

definition tokens_sql :: "config \<Rightarrow> string \<times> string" where
  "tokens_sql cfg =
    (''INSERT IGNORE INTO '' @ get cfg ''DB_Tokens'' @ ''('' @ get cfg ''DB_Tokens_UserID'' @ '', '' @
     get cfg ''DB_Tokens_TorrentID'' @ '', '' @ get cfg ''DB_Tokens_Downloaded'' @ '', '' @
     get cfg ''DB_Tokens_Expired'' @ '') VALUES '',
     '' ON DUPLICATE KEY UPDATE '' @ add_value cfg ''DB_Tokens_Downloaded'' @ '', '' @
     set_to_value cfg ''DB_Tokens_Expired'')"

definition flushTokens :: "config \<Rightarrow> db \<Rightarrow> db" where
  "flushTokens cfg = flush_table Tokens (tokens_sql cfg)"

definition torrents_sql :: "config \<Rightarrow> string \<times> string" where
  "torrents_sql cfg =
    (''INSERT IGNORE INTO '' @ get cfg ''DB_Torrents'' @ ''('' @ get cfg ''DB_Torrents_ID'' @ '', '' @
     get cfg ''DB_Torrents_Seeders'' @ '', '' @ get cfg ''DB_Torrents_Leechers'' @ '', '' @
     get cfg ''DB_Torrents_Snatches'' @ '', '' @ get cfg ''DB_Torrents_Balance'' @ '') VALUES '',
     '' ON DUPLICATE KEY UPDATE '' @ set_to_value cfg ''DB_Torrents_Seeders'' @ '', '' @
     set_to_value cfg ''DB_Torrents_Leechers'' @ '', '' @ set_to_value cfg ''DB_Torrents_Snatches'' @ '', '' @
     set_to_value cfg ''DB_Torrents_Balance'' @ '', '' @ get cfg ''DB_Torrents_LastAction'' @ '' = NOW()'')"

definition flushTorrents :: "config \<Rightarrow> db \<Rightarrow> db" where
  "flushTorrents cfg = flush_table Torrents (torrents_sql cfg)"

definition peers_sql :: "config \<Rightarrow> string \<times> string" where
  "peers_sql cfg =
    (''INSERT IGNORE INTO '' @ get cfg ''DB_Peers'' @ ''('' @ get cfg ''DB_Peers_UserID'' @ '', '' @
     get cfg ''DB_Peers_Active'' @ '', '' @ get cfg ''DB_Peers_AnnouncesCount'' @ '', '' @
     get cfg ''DB_Peers_Completed'' @ '', '' @ get cfg ''DB_Peers_Downloaded'' @ '', '' @
     get cfg ''DB_Peers_Uploaded'' @ '', '' @ get cfg ''DB_Peers_Left'' @ '', '' @
     get cfg ''DB_Peers_UpSpeed'' @ '', '' @ get cfg ''DB_Peers_DownSpeed'' @ '', '' @
     get cfg ''DB_Peers_Corrupt'' @ '', '' @ get cfg ''DB_Peers_Timespent'' @ '', '' @
     get cfg ''DB_Peers_UserAgent'' @ '', '' @ get cfg ''DB_Peers_PeerID'' @ '', '' @
     get cfg ''DB_Peers_TorrentID'' @ '', '' @ get cfg ''DB_Peers_IP'' @ '', '' @
     get cfg ''DB_Peers_LastAction'' @ '') VALUES '',
     '' ON DUPLICATE KEY UPDATE '' @ set_to_value cfg ''DB_Peers_Active'' @ '', '' @
     get cfg ''DB_Peers_AnnouncesCount'' @ '' = '' @ get cfg ''DB_Peers_AnnouncesCount'' @ '' + 1, '' @
     set_to_value cfg ''DB_Peers_Downloaded'' @ '', '' @ set_to_value cfg ''DB_Peers_Uploaded'' @ '', '' @
     add_value cfg ''DB_Peers_Timespent'' @ '', '' @ set_to_value cfg ''DB_Peers_UpSpeed'' @ '', '' @
     set_to_value cfg ''DB_Peers_DownSpeed'' @ '', '' @ set_to_value cfg ''DB_Peers_Corrupt'' @ '', '' @
     set_to_value cfg ''DB_Peers_LastAction'')"

definition flushPeers :: "config \<Rightarrow> db \<Rightarrow> db" where
  "flushPeers cfg = flush_table Peers_table (peers_sql cfg)"

definition snatches_sql :: "config \<Rightarrow> string \<times> string" where
  "snatches_sql cfg =
    (''INSERT IGNORE INTO '' @ get cfg ''DB_Snatches'' @ ''('' @ get cfg ''DB_Snatches_UserID'' @ '', '' @
     get cfg ''DB_Snatches_TimeStamp'' @ '', '' @ get cfg ''DB_Snatches_TorrentID'' @ '', '' @
     get cfg ''DB_Snatches_IP'' @ '') VALUES '',
     '''')"

definition flushSnatches :: "config \<Rightarrow> db \<Rightarrow> db" where
  "flushSnatches cfg = flush_table Snatches (snatches_sql cfg)"

definition flush :: "config \<Rightarrow> db \<Rightarrow> db" where
  "flush cfg d = flushSnatches cfg (flushTokens cfg (flushPeers cfg (flushTorrents cfg (flushUsers cfg d))))"

section \<open>The worker\<close>

text \<open>
  \<open>doFlushRecords\<close> walks the list; \<open>fails n q\<close> says whether the \<open>n\<close>-th query of this
  run, with text \<open>q\<close>, is refused. The result is the list left behind and the queries the
  server executed, in order.
\<close>

fun doFlushRecords :: "(nat \<Rightarrow> string \<Rightarrow> bool) \<Rightarrow> nat \<Rightarrow> string list \<Rightarrow> string list \<times> string list" where
  "doFlushRecords fails n [] = ([], [])"
| "doFlushRecords fails n (it # its) =
     (let (left, sent) = doFlushRecords fails (Suc n) its
      in if fails n it then (it # left, sent) else (left, it # sent))"

definition doFlush :: "(nat \<Rightarrow> string \<Rightarrow> bool) \<Rightarrow> table \<Rightarrow> db \<Rightarrow> db \<times> string list" where
  "doFlush fails t d =
    (let (left, sent) = doFlushRecords fails 0 (records d t)
     in (d\<lparr>records := (records d)(t := left)\<rparr>, sent))"

section \<open>Queues as an interface\<close>

text \<open>
  The contract the five queues share, as the request handler uses them: recording a row
  appends it; flushing leaves no request, adds one statement at the end of the records that
  holds the rows in order, and touches no other queue.
\<close>

locale sql_queue =
  fixes push :: "string \<Rightarrow> db \<Rightarrow> db"
    and flush_op :: "db \<Rightarrow> db"
    and reqs :: "db \<Rightarrow> string list"
    and recs :: "db \<Rightarrow> string list"
    and stmt :: "string list \<Rightarrow> string"
  assumes reqs_push: "reqs (push row d) = reqs d @ [row]"
    and recs_push: "recs (push row d) = recs d"
    and reqs_flush: "reqs (flush_op d) = []"
    and recs_flush: "recs (flush_op d) = recs d @ (if reqs d = [] then [] else [stmt (reqs d)])"
begin

lemma reqs_pushes: "reqs (fold push rows d) = reqs d @ rows"
  by (induction rows arbitrary: d) (simp_all add: reqs_push)

lemma recs_pushes: "recs (fold push rows d) = recs d"
  by (induction rows arbitrary: d) (simp_all add: recs_push)

lemma flush_batch:
  "reqs d = [] \<Longrightarrow> rows \<noteq> [] \<Longrightarrow> recs (flush_op (fold push rows d)) = recs d @ [stmt rows]"
  by (simp add: recs_flush reqs_pushes recs_pushes)

lemma flush_twice: "recs (flush_op (flush_op d)) = recs (flush_op d)"
  by (simp add: recs_flush reqs_flush)

lemma flush_extends: "\<exists>new. recs (flush_op d) = recs d @ new \<and> length new \<le> 1"
  by (simp add: recs_flush)

end

lemma push_request_simps [simp]:
  "requests (push_request t row d) t' = (if t' = t then requests d t @ [row] else requests d t')"
  "records (push_request t row d) = records d"
  "threads (push_request t row d) = threads d"
  by (simp_all add: push_request_def)

lemma flush_table_requests [simp]:
  "requests (flush_table t sql d) t' = (if t' = t then [] else requests d t')"
  by (auto simp: flush_table_def Let_def)

lemma flush_table_records [simp]:
  "records (flush_table t sql d) t' =
    records d t' @ (if t' = t \<and> requests d t \<noteq> [] then [statement sql (requests d t)] else [])"
  by (auto simp: flush_table_def Let_def)

lemma flush_table_threads:
  "threads (flush_table t sql d) =
    threads d @ (if requests d t \<noteq> [] \<or> records d t \<noteq> [] then [t] else [])"
  by (auto simp: flush_table_def Let_def)

lemma append_rows_eq:
  "append_rows first str rows =
    str @ concat (map (\<lambda>(i, r). (if i = 0 \<and> first then [] else '', '') @ r) (enumerate 0 rows))"
proof -
  have later: "append_rows False str rows = str @ concat (map (\<lambda>r. '', '' @ r) rows)" for str rows
    by (induction rows arbitrary: str) auto
  have "map (\<lambda>(i, r). (if i = 0 \<and> first then [] else '', '') @ r) (enumerate (Suc 0) rs)
      = map (\<lambda>r. '', '' @ r) rs" for rs :: "string list"
  proof -
    have "map (\<lambda>(i, r). (if i = 0 \<and> first then [] else '', '') @ r) (enumerate (Suc n) rs)
      = map (\<lambda>r. '', '' @ r) rs" for n
      by (induction rs arbitrary: n) auto
    then show ?thesis .
  qed
  then show ?thesis by (cases rows; cases first) (auto simp: later)
qed

interpretation users_queue: sql_queue "push_request Users" "flushUsers cfg"
    "\<lambda>d. requests d Users" "\<lambda>d. records d Users" "statement (users_sql cfg)" for cfg
  by unfold_locales (simp_all add: flushUsers_def)

interpretation torrents_queue: sql_queue "push_request Torrents" "flushTorrents cfg"
    "\<lambda>d. requests d Torrents" "\<lambda>d. records d Torrents" "statement (torrents_sql cfg)" for cfg
  by unfold_locales (simp_all add: flushTorrents_def)

interpretation peers_queue: sql_queue "push_request Peers_table" "flushPeers cfg"
    "\<lambda>d. requests d Peers_table" "\<lambda>d. records d Peers_table" "statement (peers_sql cfg)" for cfg
  by unfold_locales (simp_all add: flushPeers_def)

interpretation tokens_queue: sql_queue "push_request Tokens" "flushTokens cfg"
    "\<lambda>d. requests d Tokens" "\<lambda>d. records d Tokens" "statement (tokens_sql cfg)" for cfg
  by unfold_locales (simp_all add: flushTokens_def)

interpretation snatches_queue: sql_queue "push_request Snatches" "flushSnatches cfg"
    "\<lambda>d. requests d Snatches" "\<lambda>d. records d Snatches" "statement (snatches_sql cfg)" for cfg
  by unfold_locales (simp_all add: flushSnatches_def)

section \<open>The whole flush and the worker\<close>

fun table_sql :: "config \<Rightarrow> table \<Rightarrow> string \<times> string" where
  "table_sql cfg Users = users_sql cfg"
| "table_sql cfg Torrents = torrents_sql cfg"
| "table_sql cfg Peers_table = peers_sql cfg"
| "table_sql cfg Tokens = tokens_sql cfg"
| "table_sql cfg Snatches = snatches_sql cfg"

lemmas flush_defs = flush_def flushUsers_def flushTorrents_def flushPeers_def flushTokens_def
  flushSnatches_def

lemma flush_requests [simp]: "requests (flush cfg d) t = []"
  by (cases t) (simp_all add: flush_defs)

lemma flush_records:
  "records (flush cfg d) t =
    records d t @ (if requests d t = [] then [] else [statement (table_sql cfg t) (requests d t)])"
  by (cases t) (simp_all add: flush_defs)

lemma doFlushRecords_length:
  "doFlushRecords fails n qs = (left, sent) \<Longrightarrow> mset left + mset sent = mset qs"
  by (induction qs arbitrary: n left sent) (auto simp: Let_def split: prod.splits if_splits)

lemma doFlushRecords_order:
  "doFlushRecords fails n qs = (left, sent) \<Longrightarrow> subseq left qs \<and> subseq sent qs"
  by (induction qs arbitrary: n left sent) (auto simp: Let_def split: prod.splits if_splits)

lemma doFlushRecords_all_accepted:
  "\<forall>n q. \<not> fails n q \<Longrightarrow> doFlushRecords fails n qs = ([], qs)"
  by (induction qs arbitrary: n) (auto simp: Let_def)

lemma doFlushRecords_none_accepted:
  "\<forall>n q. fails n q \<Longrightarrow> doFlushRecords fails n qs = (qs, [])"
  by (induction qs arbitrary: n) (auto simp: Let_def)

section \<open>What recording does to the rest of the state\<close>

lemma recordPeer_Inr:
  "recordPeer cfg h (p, d) = Inr (p', d') \<Longrightarrow>
    p' = snd (getTimespent p) \<and> (\<exists>row. d' = push_request Peers_table row d)"
  by (auto simp: recordPeer_def getTimespent_def)

lemma recordPeer_valid:
  assumes "get cfg ''type'' = ''private'' \<longrightarrow> valid_ptr h (p_user p)" and "p_corrupt p \<noteq> None"
  shows "\<exists>row. recordPeer cfg h (p, d) = Inr (p\<lparr>p_timespent := 0\<rparr>, push_request Peers_table row d)"
  using assms by (auto simp: recordPeer_def peer_uid_def getTimespent_def getCorrupt_def deref_valid)

lemma recordUser_length [keeps]: "recordUser p (h, d) = Inr (h', d') \<Longrightarrow> length h' = length h"
  by (auto simp: recordUser_def split: if_splits dest: modify_length)

lemma recordUser_valid: "valid_ptr h p \<Longrightarrow> \<exists>h' d'. recordUser p (h, d) = Inr (h', d')"
  by (auto simp: recordUser_def deref_valid modify_valid)

section \<open>Properties\<close>

fun comma_join :: "string list \<Rightarrow> string" where
  "comma_join [] = ''''"
| "comma_join [r] = r"
| "comma_join (r # rs) = r @ '', '' @ comma_join rs"

lemma append_rows_later: "append_rows False str rows = str @ concat (map (\<lambda>r. '', '' @ r) rows)"
  by (induction rows arbitrary: str) auto

lemma comma_join_Cons: "comma_join (r # rs) = r @ concat (map (\<lambda>r. '', '' @ r) rs)"
  by (induction rs arbitrary: r) auto

lemma statement_eq: "rows \<noteq> [] \<Longrightarrow> statement sql rows = fst sql @ comma_join rows @ snd sql"
  by (cases rows) (simp_all add: statement_def append_rows_later comma_join_Cons)

text \<open>C33: After \<open>flush\<close> no row is pending for any table, and the statements waiting for a
  table are those from before followed, when there were rows, by one statement that lists
  all of them in the order they were recorded.\<close>

theorem flush_batches_all_rows:
  "requests (flush cfg d) t = [] \<and>
   records (flush cfg d) t = records d t @
     (if requests d t = [] then []
      else [fst (table_sql cfg t) @ comma_join (requests d t) @ snd (table_sql cfg t)])"
  by (simp add: flush_records statement_eq)

text \<open>A worker loses and duplicates nothing: the statements it sent and the ones it left
  behind are, counted with multiplicity, the ones it found; both keep their order, and the
  other tables are untouched.\<close>

theorem worker_loses_nothing:
  "case doFlush fails t d of (d', sent) \<Rightarrow>
    mset (records d' t) + mset sent = mset (records d t) \<and>
    subseq (records d' t) (records d t) \<and> subseq sent (records d t) \<and>
    requests d' = requests d \<and> records d' = (records d)(t := records d' t)"
proof -
  obtain left sent where r: "doFlushRecords fails 0 (records d t) = (left, sent)" by fastforce
  with doFlushRecords_length [OF r] doFlushRecords_order [OF r] show ?thesis
    by (simp add: doFlush_def)
qed

end
