(* ===== verification/Peers.thy ===== *)
theory Peers
  imports Database
begin

text \<open>
  The table of the peers of one kind on one torrent: src/handler/peers.cpp. The hash table
  is the list of its entries in iteration order; \<open>e_order\<close> ranks the keys after an
  insertion, so any order can arise. The persistent iterator \<open>it\<close> of \<open>nextPeer\<close> is a cursor
  that names the entry it points at; erasing that entry leaves it dangling, and using it
  then is undefined behaviour. A rehash moves entries but keeps the cursor, and the iterator of
  an empty table is still the end of its copy, as in the two common library implementations.
\<close>

type_synonym request = "string \<rightharpoonup> string"

datatype cursor = End | At string | Dangling

record peers =
  pMap :: "(string \<times> peer) list"
  pIt :: cursor

definition new_peers :: peers where
  "new_peers = \<lparr>pMap = [], pIt = End\<rparr>"

definition pm_emplace :: "(string \<Rightarrow> nat) \<Rightarrow> string \<Rightarrow> 'v \<Rightarrow> (string \<times> 'v) list \<Rightarrow> (string \<times> 'v) list" where
  "pm_emplace order k v m =
    (if k \<in> fst ` set m then m else sort_key (order \<circ> fst) ((k, v) # m))"

definition getPeer :: "string \<Rightarrow> peers \<Rightarrow> peer option" where
  "getPeer peerID ps = map_of (pMap ps) peerID"

text \<open>
  \<open>Peers::addPeer\<close>: the table and the counters after the insertion. The order in which
  the arguments of the \<open>Peer\<close> constructor are evaluated is unspecified in C++; the model
  takes it left to right, which only decides which exception ends a bad request.
\<close>

definition addPeer ::
  "env \<Rightarrow> config \<Rightarrow> (string \<rightharpoonup> nat) \<Rightarrow> request \<Rightarrow> u32 \<Rightarrow> bool \<Rightarrow> peers \<times> stats \<Rightarrow> (peers \<times> stats) res" where
  "addPeer e cfg usrMap req torrentID ipv6 s =
    (let (ps, st) = s in
     bindE (if get cfg ''type'' = ''private''
            then bindE (at_key req ''reqpasskey'') (\<lambda>k. Inr (usrMap k)) else Inr None) (\<lambda>u.
     bindE (at_key req ''peer_id'') (\<lambda>peerID.
     bindE (at_key req ''ip'') (\<lambda>ip.
     bindE (at_key req ''port'') (\<lambda>port.
     bindE (bindE (at_key req ''left'') stoul) (\<lambda>left.
     bindE (bindE (at_key req ''downloaded'') stoul) (\<lambda>downloaded.
     bindE (bindE (at_key req ''uploaded'') stoul) (\<lambda>uploaded.
     bindE (at_key req ''user-agent'') (\<lambda>client.
     bindE (new_peer e ip port u left downloaded uploaded torrentID client peerID ipv6) (\<lambda>p.
       Inr (ps\<lparr>pMap := pm_emplace (e_order e) peerID p (pMap ps)\<rparr>, incPeers st)))))))))))"

definition erase_peer :: "string \<Rightarrow> peers \<Rightarrow> peers" where
  "erase_peer k ps =
    ps\<lparr>pMap := AList.delete k (pMap ps), pIt := (if pIt ps = At k then Dangling else pIt ps)\<rparr>"

definition removePeer :: "request \<Rightarrow> peers \<times> stats \<Rightarrow> (peers \<times> stats) res" where
  "removePeer req s =
    (let (ps, st) = s in
     bindE (at_key req ''peer_id'') (\<lambda>k.
       Inr (if getPeer k ps = None then ps else erase_peer k ps, decPeers st)))"

fun cursor_after :: "string \<Rightarrow> (string \<times> 'v) list \<Rightarrow> cursor" where
  "cursor_after k [] = Dangling"
| "cursor_after k [(k', v)] = (if k' = k then End else Dangling)"
| "cursor_after k ((k', v) # (k'', w) # m) = (if k' = k then At k'' else cursor_after k ((k'', w) # m))"

text \<open>
  \<open>Peers::nextPeer\<close>; the \<open>while\<close> loop runs at most twice, since the second time the
  iterator stands at the beginning of a table that is not empty.
\<close>

definition nextPeer :: "peers \<Rightarrow> (peer option \<times> peers) res" where
  "nextPeer ps =
    (case pMap ps of
       [] \<Rightarrow> Inr (None, ps)
     | (k0, p0) # m \<Rightarrow>
         (case pIt ps of
            End \<Rightarrow> Inr (Some p0, ps\<lparr>pIt := cursor_after k0 (pMap ps)\<rparr>)
          | At k \<Rightarrow>
              (case map_of (pMap ps) k of
                 None \<Rightarrow> Inl (UB Dangling_iterator)
               | Some p \<Rightarrow> Inr (Some p, ps\<lparr>pIt := cursor_after k (pMap ps)\<rparr>))
          | Dangling \<Rightarrow> Inl (UB Dangling_iterator)))"

definition peers_size :: "peers \<Rightarrow> nat" where
  "peers_size ps = length (pMap ps)"

text \<open>\<open>Peers::timedOut\<close>: its loop over the entries, then the table with the number of
  removed peers (an \<open>unsigned int\<close>).\<close>

fun timedOut_loop ::
  "config \<Rightarrow> heap \<Rightarrow> int \<Rightarrow> (string \<times> peer) list \<Rightarrow> db \<Rightarrow> ((string \<times> peer) list \<times> db \<times> u32) res" where
  "timedOut_loop cfg h now [] d = Inr ([], d, 0)"
| "timedOut_loop cfg h now ((k, p) # m) d =
     (if peer_timedOut cfg now p then
        bindE (if get cfg ''type'' \<noteq> ''public''
               then bindE (recordPeer cfg h (inactive p, d)) (\<lambda>(p', d'). Inr d') else Inr d) (\<lambda>d'.
        bindE (timedOut_loop cfg h now m d') (\<lambda>(m', d'', changed). Inr (m', d'', changed + 1)))
      else
        bindE (timedOut_loop cfg h now m d) (\<lambda>(m', d'', changed). Inr ((k, p) # m', d'', changed)))"

definition peers_timedOut :: "config \<Rightarrow> heap \<Rightarrow> int \<Rightarrow> peers \<Rightarrow> db \<Rightarrow> (peers \<times> db \<times> u32) res" where
  "peers_timedOut cfg h now ps d =
    bindE (timedOut_loop cfg h now (pMap ps) d) (\<lambda>(m, d', changed).
      Inr (ps\<lparr>pMap := m,
              pIt := (case pIt ps of At k \<Rightarrow> if k \<in> fst ` set m then At k else Dangling | c \<Rightarrow> c)\<rparr>,
           d', changed))"

section \<open>The table as a keyed container\<close>

definition pm_wf :: "(string \<times> 'v) list \<Rightarrow> bool" where
  "pm_wf m \<longleftrightarrow> distinct (map fst m)"

lemma set_pm_emplace [simp]:
  "set (pm_emplace order k v m) = (if k \<in> fst ` set m then set m else insert (k, v) (set m))"
  by (auto simp: pm_emplace_def set_insort_key)

lemma distinct_fst_perm: "mset xs = mset ys \<Longrightarrow> distinct (map fst xs) = distinct (map fst ys)"
  by (metis mset_eq_imp_distinct_iff mset_map)

lemma map_of_perm:
  assumes "mset xs = mset ys" and "distinct (map fst ys)"
  shows "map_of xs = map_of ys"
  using assms by (metis distinct_fst_perm map_of_inject_set mset_eq_setD)

lemma pm_wf_emplace: "pm_wf m \<Longrightarrow> pm_wf (pm_emplace order k v m)"
  using distinct_fst_perm [of "sort_key (order \<circ> fst) ((k, v) # m)" "(k, v) # m"]
  by (auto simp: pm_wf_def pm_emplace_def)

lemma pm_find_emplace:
  assumes "pm_wf m"
  shows "map_of (pm_emplace order k v m) k' = (if k' = k \<and> map_of m k = None then Some v else map_of m k')"
proof (cases "k \<in> fst ` set m")
  case True
  then have "map_of m k \<noteq> None" by (simp add: map_of_eq_None_iff)
  with True show ?thesis by (simp add: pm_emplace_def)
next
  case False
  with assms have "map_of (sort_key (order \<circ> fst) ((k, v) # m)) = map_of ((k, v) # m)"
    by (intro map_of_perm) (auto simp: pm_wf_def)
  moreover from False have "map_of m k = None" by (simp add: map_of_eq_None_iff)
  ultimately show ?thesis using False by (simp add: pm_emplace_def)
qed

lemma pm_wf_delete: "pm_wf m \<Longrightarrow> pm_wf (AList.delete k m)"
  by (simp add: pm_wf_def AList.distinct_delete)

interpretation pm: keyed_container "\<lambda>k m. map_of m k" "pm_emplace order" AList.delete pm_wf
  for order :: "string \<Rightarrow> nat"
  by unfold_locales
    (simp_all add: pm_find_emplace pm_wf_emplace pm_wf_delete AList.delete_conv')

lemma length_pm_emplace:
  "length (pm_emplace order k v m) = (if k \<in> fst ` set m then length m else Suc (length m))"
  by (simp add: pm_emplace_def)

section \<open>Well-formed tables\<close>

definition cursor_ok :: "peers \<Rightarrow> bool" where
  "cursor_ok ps \<longleftrightarrow> (case pIt ps of End \<Rightarrow> True | At k \<Rightarrow> k \<in> fst ` set (pMap ps) | Dangling \<Rightarrow> False)"

definition peers_ok :: "bool \<Rightarrow> bool \<Rightarrow> heap \<Rightarrow> peers \<Rightarrow> bool" where
  "peers_ok private ipv6 h ps \<longleftrightarrow>
    pm_wf (pMap ps) \<and> (\<forall>(k, p) \<in> set (pMap ps). p_peerID p = k \<and> peer_ok private ipv6 h p)"

lemma peers_ok_new [simp]: "peers_ok private ipv6 h new_peers"
  by (simp add: peers_ok_def new_peers_def pm_wf_def)

lemma cursor_ok_new [simp]: "cursor_ok new_peers"
  by (simp add: cursor_ok_def new_peers_def)

lemma peers_ok_getPeer:
  "peers_ok private ipv6 h ps \<Longrightarrow> getPeer k ps = Some p \<Longrightarrow> p_peerID p = k \<and> peer_ok private ipv6 h p"
  by (auto simp: peers_ok_def getPeer_def dest: map_of_SomeD)

lemma peers_ok_heap [keeps]:
  "peers_ok private ipv6 h ps \<Longrightarrow> length h \<le> length h' \<Longrightarrow> peers_ok private ipv6 h' ps"
  by (auto simp: peers_ok_def intro: peer_ok_heap)

lemma peers_ok_pIt [simp]: "peers_ok private ipv6 h (ps\<lparr>pIt := c\<rparr>) = peers_ok private ipv6 h ps"
  by (simp add: peers_ok_def)

lemma peers_ok_subset:
  "peers_ok private ipv6 h ps \<Longrightarrow> pm_wf m \<Longrightarrow> set m \<subseteq> set (pMap ps) \<Longrightarrow>
    peers_ok private ipv6 h (ps\<lparr>pMap := m\<rparr>)"
  by (auto simp: peers_ok_def)

lemma addPeer_Inr:
  assumes "addPeer e cfg usrMap req tid ipv6 (ps, st) = Inr (ps', st')"
  obtains pid p u ip port l d up client where "req ''peer_id'' = Some pid"
    and "new_peer e ip port u l d up tid client pid ipv6 = Inr p"
    and "get cfg ''type'' = ''private'' \<longrightarrow> (\<exists>k. req ''reqpasskey'' = Some k \<and> u = usrMap k)"
    and "ps' = ps\<lparr>pMap := pm_emplace (e_order e) pid p (pMap ps)\<rparr>" and "st' = incPeers st"
    and "bindE (at_key req ''left'') stoul = Inr l" and "req ''ip'' = Some ip" and "req ''port'' = Some port"
    and "bindE (at_key req ''downloaded'') stoul = Inr d" and "bindE (at_key req ''uploaded'') stoul = Inr up"
    and "req ''user-agent'' = Some client"
  using assms by (auto simp: addPeer_def split: if_splits)

lemma addPeer_ok [keeps]:
  assumes add: "addPeer e cfg usrMap req tid ipv6 (ps, st) = Inr (ps', st')"
    and ok: "peers_ok (get cfg ''type'' = ''private'') ipv6 h ps" and pton: "pton_ok (e_pton e)"
    and ptr: "get cfg ''type'' = ''private'' \<longrightarrow> (\<forall>k. req ''reqpasskey'' = Some k \<longrightarrow> valid_ptr h (usrMap k))"
  shows "peers_ok (get cfg ''type'' = ''private'') ipv6 h ps'"
proof -
  from add obtain pid p u ip port l d up client where
    p: "new_peer e ip port u l d up tid client pid ipv6 = Inr p" and
    u: "get cfg ''type'' = ''private'' \<longrightarrow> (\<exists>k. req ''reqpasskey'' = Some k \<and> u = usrMap k)" and
    ps': "ps' = ps\<lparr>pMap := pm_emplace (e_order e) pid p (pMap ps)\<rparr>"
    by (rule addPeer_Inr)
  have "peer_ok (get cfg ''type'' = ''private'') ipv6 h p"
    using new_peer_ok [OF p pton] u ptr by auto
  moreover have "p_peerID p = pid" using new_peer_fields [OF p] by simp
  ultimately show ?thesis
    using ok by (auto simp: ps' peers_ok_def pm_wf_emplace)
qed

lemma addPeer_cursor [keeps]:
  "addPeer e cfg usrMap req tid ipv6 (ps, st) = Inr (ps', st') \<Longrightarrow> cursor_ok ps \<Longrightarrow> cursor_ok ps'"
  by (erule addPeer_Inr) (auto simp: cursor_ok_def split: cursor.splits)

lemma set_delete_subset: "set (AList.delete k m) \<subseteq> set m"
  by (auto simp: AList.delete_eq)

lemma erase_peer_ok [keeps]:
  "peers_ok private ipv6 h ps \<Longrightarrow> peers_ok private ipv6 h (erase_peer k ps)"
  using set_delete_subset [of k "pMap ps"]
  by (auto simp: erase_peer_def peers_ok_def pm_wf_delete)

lemma getPeer_erase [simp]: "getPeer k' (erase_peer k ps) = (if k' = k then None else getPeer k' ps)"
  by (simp add: getPeer_def erase_peer_def AList.delete_conv')

lemma erase_peer_cursor:
  "cursor_ok ps \<Longrightarrow> pIt ps \<noteq> At k \<Longrightarrow> cursor_ok (erase_peer k ps)"
  by (cases "pIt ps") (force simp: cursor_ok_def erase_peer_def AList.delete_eq)+

section \<open>Iteration\<close>

lemma cursor_after_append:
  "distinct (map fst (xs @ (k, p) # ys)) \<Longrightarrow>
    cursor_after k (xs @ (k, p) # ys) = (case ys of [] \<Rightarrow> End | (k', _) # _ \<Rightarrow> At k')"
proof (induction xs)
  case Nil
  then show ?case by (cases ys) auto
next
  case (Cons x xs)
  then show ?case by (cases x; cases xs) (auto split: list.splits)
qed

text \<open>The entries in the order the cursor will visit them.\<close>

definition rotation :: "peers \<Rightarrow> peer list" where
  "rotation ps = (case pIt ps of
     At k \<Rightarrow> map snd (dropWhile (\<lambda>(k', _). k' \<noteq> k) (pMap ps) @ takeWhile (\<lambda>(k', _). k' \<noteq> k) (pMap ps))
   | _ \<Rightarrow> map snd (pMap ps))"

lemma length_drop_takeWhile: "length (dropWhile P xs) + length (takeWhile P xs) = length xs"
  by (metis add.commute length_append takeWhile_dropWhile_id)

lemma length_rotation [simp]: "length (rotation ps) = peers_size ps"
  unfolding rotation_def peers_size_def
  by (cases "pIt ps") (simp_all only: cursor.case length_map length_append length_drop_takeWhile)

lemma split_at_key:
  assumes "distinct (map fst (xs @ (k, p) # ys))"
  shows "takeWhile (\<lambda>(k', _). k' \<noteq> k) (xs @ (k, p) # ys) = xs"
    and "dropWhile (\<lambda>(k', _). k' \<noteq> k) (xs @ (k, p) # ys) = (k, p) # ys"
proof -
  have "\<forall>x \<in> set xs. (\<lambda>(k', _). k' \<noteq> k) x" using assms by force
  then show "takeWhile (\<lambda>(k', _). k' \<noteq> k) (xs @ (k, p) # ys) = xs"
    and "dropWhile (\<lambda>(k', _). k' \<noteq> k) (xs @ (k, p) # ys) = (k, p) # ys"
    by (simp_all add: takeWhile_append2 dropWhile_append2)
qed

lemma nextPeer_rotation:
  assumes wf: "pm_wf (pMap ps)" and c: "cursor_ok ps" and ne: "pMap ps \<noteq> []"
  shows "\<exists>ps'. nextPeer ps = Inr (Some (hd (rotation ps)), ps') \<and> rotation ps' = rotate1 (rotation ps)
    \<and> pMap ps' = pMap ps \<and> cursor_ok ps'"
proof -
  obtain xs k p ys where m: "pMap ps = xs @ (k, p) # ys"
    and cur: "(pIt ps = End \<and> xs = []) \<or> pIt ps = At k"
  proof (cases "pIt ps")
    case End
    with ne that [of "[]"] show thesis by (cases "pMap ps") auto
  next
    case (At k)
    with c obtain p where "(k, p) \<in> set (pMap ps)" by (auto simp: cursor_ok_def)
    then obtain xs ys where "pMap ps = xs @ (k, p) # ys" by (meson split_list)
    with At that show thesis by blast
  next
    case Dangling
    with c show thesis by (simp add: cursor_ok_def)
  qed
  have d: "distinct (map fst (xs @ (k, p) # ys))" using wf m by (simp add: pm_wf_def)
  have rot: "rotation ps = p # map snd ys @ map snd xs"
    using cur m split_at_key [OF d] by (auto simp: rotation_def)
  have look: "map_of (pMap ps) k = Some p" using d m by (intro map_of_is_SomeI) auto
  define ps' where "ps' = ps\<lparr>pIt := cursor_after k (pMap ps)\<rparr>"
  have step: "nextPeer ps = Inr (Some p, ps')"
  proof (cases "pMap ps")
    case Nil with ne show ?thesis by simp
  next
    case (Cons x zs)
    obtain k0 p0 where x: "x = (k0, p0)" by (cases x)
    show ?thesis
    proof (cases "pIt ps = At k")
      case True
      with look Cons x show ?thesis by (auto simp: nextPeer_def ps'_def)
    next
      case False
      with cur m Cons x show ?thesis by (auto simp: nextPeer_def ps'_def)
    qed
  qed
  have after: "pIt ps' = (case ys of [] \<Rightarrow> End | (k', _) # _ \<Rightarrow> At k')"
    using cursor_after_append [OF d] m by (simp add: ps'_def)
  have "rotation ps' = map snd ys @ map snd xs @ [p] \<and> cursor_ok ps'"
  proof (cases ys)
    case Nil
    with after m show ?thesis by (simp add: rotation_def ps'_def cursor_ok_def)
  next
    case (Cons y ys')
    obtain k' q where y: "y = (k', q)" by (cases y)
    have "distinct (map fst ((xs @ [(k, p)]) @ (k', q) # ys'))" using d Cons y by simp
    from split_at_key [OF this] after m Cons y show ?thesis
      by (simp add: rotation_def ps'_def cursor_ok_def)
  qed
  with step rot show ?thesis by (auto simp: ps'_def)
qed

text \<open>\<open>n\<close> successive calls, as \<open>getPeers\<close> makes them.\<close>

fun nextPeers :: "nat \<Rightarrow> peers \<Rightarrow> (peer list \<times> peers) res" where
  "nextPeers 0 ps = Inr ([], ps)"
| "nextPeers (Suc n) ps =
     bindE (nextPeer ps) (\<lambda>(p, ps'). bindE (nextPeers n ps') (\<lambda>(qs, ps'').
       Inr ((case p of Some q \<Rightarrow> q # qs | None \<Rightarrow> qs), ps'')))"

lemma nextPeers_rotation:
  "pm_wf (pMap ps) \<Longrightarrow> cursor_ok ps \<Longrightarrow> n \<le> peers_size ps \<Longrightarrow>
    \<exists>ps'. nextPeers n ps = Inr (take n (rotation ps), ps') \<and> pMap ps' = pMap ps
      \<and> rotation ps' = rotate n (rotation ps) \<and> cursor_ok ps'"
proof (induction n arbitrary: ps)
  case 0
  then show ?case by simp
next
  case (Suc n)
  then have ne: "pMap ps \<noteq> []" by (auto simp: peers_size_def)
  obtain ps1 where s1: "nextPeer ps = Inr (Some (hd (rotation ps)), ps1)"
    and r1: "rotation ps1 = rotate1 (rotation ps)" "pMap ps1 = pMap ps" "cursor_ok ps1"
    using nextPeer_rotation [OF Suc.prems(1,2) ne] by blast
  obtain ps2 where s2: "nextPeers n ps1 = Inr (take n (rotation ps1), ps2)"
    and r2: "pMap ps2 = pMap ps1" "rotation ps2 = rotate n (rotation ps1)" "cursor_ok ps2"
    using Suc.IH [of ps1] Suc.prems r1 by (auto simp: peers_size_def)
  have rne: "rotation ps \<noteq> []"
    using ne length_rotation [of ps] by (auto simp: peers_size_def simp del: length_rotation)
  have n: "n \<le> length (tl (rotation ps))" using Suc.prems(3) by simp
  have "take (Suc n) (rotation ps) = hd (rotation ps) # take n (rotation ps1)"
    using rne n r1(1) by (cases "rotation ps") simp_all
  moreover have "rotation ps2 = rotate (Suc n) (rotation ps)"
    using r2(2) r1(1) by (simp add: rotate1_rotate_swap)
  ultimately show ?case using s1 s2 r1 r2 by auto
qed

section \<open>Clearing timed-out peers\<close>

lemma timedOut_loop_Inr:
  "timedOut_loop cfg h now m d = Inr (m', d', c) \<Longrightarrow>
    m' = filter (\<lambda>(k, p). \<not> peer_timedOut cfg now p) m \<and>
    c = of_nat (length (filter (\<lambda>(k, p). peer_timedOut cfg now p) m))"
proof (induction m arbitrary: d m' d' c)
  case (Cons x m)
  then show ?case by (cases x) (fastforce split: if_splits)
qed simp

lemma timedOut_loop_total:
  assumes "\<forall>(k, p) \<in> set m. get cfg ''type'' = ''private'' \<longrightarrow> valid_ptr h (p_user p)"
    and "\<forall>(k, p) \<in> set m. get cfg ''type'' \<noteq> ''public'' \<longrightarrow> p_corrupt p \<noteq> None"
  shows "\<exists>r. timedOut_loop cfg h now m d = Inr r"
  using assms
proof (induction m arbitrary: d)
  case (Cons x m)
  obtain k p where x: "x = (k, p)" by (cases x)
  have tail: "\<exists>r. timedOut_loop cfg h now m d' = Inr r" for d'
    using Cons by simp
  have "get cfg ''type'' = ''private'' \<longrightarrow> valid_ptr h (p_user (inactive p))"
    using Cons.prems x by (simp add: inactive_def)
  moreover have "p_corrupt (inactive p) \<noteq> None" if "get cfg ''type'' \<noteq> ''public''"
    using Cons.prems(2) x that by (simp add: inactive_def)
  ultimately obtain row where "get cfg ''type'' \<noteq> ''public'' \<Longrightarrow>
    recordPeer cfg h (inactive p, d) = Inr ((inactive p)\<lparr>p_timespent := 0\<rparr>, push_request Peers_table row d)"
    using recordPeer_valid [of cfg h "inactive p" d] by blast
  then show ?case
    using tail [of d] tail [of "push_request Peers_table row d"] x
    by (cases "get cfg ''type'' = ''public''") (auto split: prod.splits)
qed simp

lemma peers_timedOut_pMap:
  "peers_timedOut cfg h now ps d = Inr (ps', d', c) \<Longrightarrow>
    pMap ps' = filter (\<lambda>(k, p). \<not> peer_timedOut cfg now p) (pMap ps)"
  by (auto simp: peers_timedOut_def dest: timedOut_loop_Inr)

lemma peers_timedOut_ok [keeps]:
  assumes r: "peers_timedOut cfg h now ps d = Inr (ps', d', c)" and ok: "peers_ok private ipv6 h ps"
  shows "peers_ok private ipv6 h ps'"
  using ok peers_timedOut_pMap [OF r]
  by (auto simp: peers_ok_def pm_wf_def intro: distinct_map_filter)

lemma peers_timedOut_total:
  assumes "peers_ok (get cfg ''type'' = ''private'') ipv6 h ps"
    and known: "\<forall>(k, p) \<in> set (pMap ps). get cfg ''type'' \<noteq> ''public'' \<longrightarrow> p_corrupt p \<noteq> None"
  shows "\<exists>r. peers_timedOut cfg h now ps d = Inr r"
proof -
  have "\<forall>(k, p) \<in> set (pMap ps). get cfg ''type'' = ''private'' \<longrightarrow> valid_ptr h (p_user p)"
    using assms(1) by (auto simp: peers_ok_def peer_ok_def)
  from timedOut_loop_total [OF this known] obtain r where "timedOut_loop cfg h now (pMap ps) d = Inr r"
    by blast
  then show ?thesis by (simp add: peers_timedOut_def split: prod.split)
qed

section \<open>Properties\<close>

definition sample_peer :: "string \<Rightarrow> peer" where
  "sample_peer k = \<lparr>p_user = Some 0, p_downloaded = 0, p_uploaded = 0, p_totalDownloaded = 5, p_totalUploaded = 0,
     p_downSpeed = 0, p_upSpeed = 0, p_left = 1, p_completed = False, p_active = True, p_IP = ''10.0.0.1'',
     p_port = ''80'', p_hexIPPort = ''abcdef'', p_peerID = k, p_torrentID = 7, p_client = ''c'',
     p_timespent = 0, p_lastUpdate = 0, p_corrupt = Some 0\<rparr>"

definition sample_peers :: "cursor \<Rightarrow> peers" where
  "sample_peers c = \<lparr>pMap = [(''a'', sample_peer ''a''), (''b'', sample_peer ''b''), (''c'', sample_peer ''c'')],
     pIt = c\<rparr>"

text \<open>C18: Successive calls of \<open>nextPeer\<close> on an unchanged table go round the table: \<open>n\<close> calls
  return the first \<open>n\<close> entries starting at the cursor and move the cursor past them, so no
  peer comes twice before every other has come once.\<close>

theorem nextPeer_round_robin:
  assumes "pm_wf (pMap ps)" and "cursor_ok ps" and "n \<le> peers_size ps"
  shows "\<exists>ps'. nextPeers n ps = Inr (take n (rotation ps), ps') \<and> pMap ps' = pMap ps \<and>
    rotation ps' = rotate n (rotation ps) \<and> cursor_ok ps'"
  using nextPeers_rotation [OF assms] .

lemma nextPeer_round_robin_witness:
  "\<exists>ps'. nextPeers 2 (sample_peers (At ''b'')) = Inr ([sample_peer ''b'', sample_peer ''c''], ps') \<and>
    rotation ps' = [sample_peer ''a'', sample_peer ''b'', sample_peer ''c'']"
proof -
  have "\<exists>ps'. nextPeers 2 (sample_peers (At ''b'')) = Inr (take 2 (rotation (sample_peers (At ''b''))), ps') \<and>
      pMap ps' = pMap (sample_peers (At ''b'')) \<and> rotation ps' = rotate 2 (rotation (sample_peers (At ''b''))) \<and> cursor_ok ps'"
    by (rule nextPeer_round_robin) (simp_all add: sample_peers_def pm_wf_def cursor_ok_def peers_size_def)
  then show ?thesis by (auto simp: sample_peers_def rotation_def numeral_2_eq_2)
qed

text \<open>C40: Removing the peer the cursor stands at leaves a dangling iterator: the next
  \<open>nextPeer\<close> on the table, if it is not empty, is undefined behaviour.\<close>

theorem removed_cursor_dangles:
  assumes "req ''peer_id'' = Some k" and "getPeer k ps \<noteq> None" and "pIt ps = At k"
    and "removePeer req (ps, st) = Inr (ps', st')" and "pMap ps' \<noteq> []"
  shows "nextPeer ps' = Inl (UB Dangling_iterator)"
  using assms by (auto simp: removePeer_def erase_peer_def nextPeer_def split: list.splits)

lemma removed_cursor_dangles_witness:
  "nextPeer (erase_peer ''b'' (sample_peers (At ''b''))) = Inl (UB Dangling_iterator)"
  by (rule removed_cursor_dangles [of "[''peer_id'' \<mapsto> ''b'']" "''b''" "sample_peers (At ''b'')" init_stats
        _ "decPeers init_stats"])
    (simp_all add: removePeer_def sample_peers_def getPeer_def erase_peer_def)

end
