(* ===== verification/Torrent.thy ===== *)
theory Torrent
  imports Peers
begin

text \<open>
  src/handler/torrent.cpp and the torrent row of src/database/mysql.cpp: a torrent has
  four peer tables (seeders and leechers, IPv4 and IPv6), the percentage of free leech, the
  number of snatches and the balance, a \<open>long\<close>, here an integer whose operations check
  the range of that type. The code reaches the four tables through
  pointers; here a \<open>slot\<close> names one of them, and reading and replacing a slot obey the
  usual laws of independent fields.
\<close>

record torrent =
  t_seeders :: peers
  t_seeders6 :: peers
  t_leechers :: peers
  t_leechers6 :: peers
  t_id :: u32
  t_free :: u8
  t_snatches :: u32
  t_balance :: int

definition new_torrent :: "u32 \<Rightarrow> u8 \<Rightarrow> u32 \<Rightarrow> int \<Rightarrow> torrent" where
  "new_torrent i free snatches balance =
    \<lparr>t_seeders = new_peers, t_seeders6 = new_peers, t_leechers = new_peers, t_leechers6 = new_peers,
     t_id = i, t_free = free, t_snatches = snatches, t_balance = balance\<rparr>"

definition incSnatches :: "torrent \<Rightarrow> torrent" where
  "incSnatches t = t\<lparr>t_snatches := t_snatches t + 1\<rparr>"

definition setFree :: "u8 \<Rightarrow> torrent \<Rightarrow> torrent" where
  "setFree free t = t\<lparr>t_free := free\<rparr>"

text \<open>
  The range of \<open>long\<close>. \<open>Torrent::setBalance\<close> adds its argument to the balance; a sum that is
  no \<open>long\<close> is undefined behaviour.
\<close>

definition long_range :: "int \<Rightarrow> int res" where
  "long_range x = (if - (2 ^ 63) \<le> x \<and> x < 2 ^ 63 then Inr x else Inl (UB Signed_overflow))"

definition setBalance :: "int \<Rightarrow> torrent \<Rightarrow> torrent res" where
  "setBalance balance t = bindE (long_range (t_balance t + balance)) (\<lambda>b. Inr (t\<lparr>t_balance := b\<rparr>))"

definition seeder_count :: "torrent \<Rightarrow> nat" where
  "seeder_count t = peers_size (t_seeders t) + peers_size (t_seeders6 t)"

definition leecher_count :: "torrent \<Rightarrow> nat" where
  "leecher_count t = peers_size (t_leechers t) + peers_size (t_leechers6 t)"

definition torrent_row :: "torrent \<Rightarrow> string" where
  "torrent_row t = ''('' @ to_string (t_id t) @ '', '' @ show_nat (seeder_count t) @ '', '' @
     show_nat (leecher_count t) @ '', '' @ to_string (t_snatches t) @ '', '' @
     show_int (t_balance t) @ '')''"

definition recordTorrent :: "torrent \<Rightarrow> db \<Rightarrow> db" where
  "recordTorrent t d = push_request Torrents (torrent_row t) d"

section \<open>The four tables\<close>

datatype slot = Seeders | Seeders6 | Leechers | Leechers6

fun slot_ipv6 :: "slot \<Rightarrow> bool" where
  "slot_ipv6 Seeders = False"
| "slot_ipv6 Seeders6 = True"
| "slot_ipv6 Leechers = False"
| "slot_ipv6 Leechers6 = True"

fun get_slot :: "slot \<Rightarrow> torrent \<Rightarrow> peers" where
  "get_slot Seeders t = t_seeders t"
| "get_slot Seeders6 t = t_seeders6 t"
| "get_slot Leechers t = t_leechers t"
| "get_slot Leechers6 t = t_leechers6 t"

fun set_slot :: "slot \<Rightarrow> peers \<Rightarrow> torrent \<Rightarrow> torrent" where
  "set_slot Seeders ps t = t\<lparr>t_seeders := ps\<rparr>"
| "set_slot Seeders6 ps t = t\<lparr>t_seeders6 := ps\<rparr>"
| "set_slot Leechers ps t = t\<lparr>t_leechers := ps\<rparr>"
| "set_slot Leechers6 ps t = t\<lparr>t_leechers6 := ps\<rparr>"

locale indexed_fields =
  fixes read :: "'i \<Rightarrow> 's \<Rightarrow> 'v"
    and store :: "'i \<Rightarrow> 'v \<Rightarrow> 's \<Rightarrow> 's"
  assumes read_store: "read j (store i v s) = (if j = i then v else read j s)"
begin

lemma all_store: "(\<forall>j. P j (read j (store i v s))) \<longleftrightarrow> P i v \<and> (\<forall>j. j \<noteq> i \<longrightarrow> P j (read j s))"
  by (auto simp: read_store)

lemma all_store_keeps: "\<forall>j. P j (read j s) \<Longrightarrow> P i v \<Longrightarrow> \<forall>j. P j (read j (store i v s))"
  by (simp add: read_store)

lemma store_store: "read j (store i v (store i w s)) = read j (store i v s)"
  by (simp add: read_store)

end

interpretation slots: indexed_fields get_slot set_slot
proof
  fix j i v s
  show "get_slot j (set_slot i v s) = (if j = i then v else get_slot j s)"
    by (cases i; cases j) simp_all
qed

declare slots.read_store [simp]

lemma slot_frame [simp]:
  "t_id (set_slot sl ps t) = t_id t" "t_free (set_slot sl ps t) = t_free t"
  "t_snatches (set_slot sl ps t) = t_snatches t" "t_balance (set_slot sl ps t) = t_balance t"
  by (cases sl; simp)+

lemma get_slot_frame [simp]:
  "get_slot sl (incSnatches t) = get_slot sl t" "get_slot sl (setFree f t) = get_slot sl t"
  "get_slot sl (t\<lparr>t_balance := b\<rparr>) = get_slot sl t" "get_slot sl (new_torrent i f s b) = new_peers"
  by (cases sl; simp add: incSnatches_def setFree_def new_torrent_def)+

lemma t_frame [simp]:
  "t_id (incSnatches t) = t_id t" "t_id (setFree f t) = t_id t"
  "t_free (incSnatches t) = t_free t" "t_free (setFree f t) = f"
  "t_balance (incSnatches t) = t_balance t" "t_balance (setFree f t) = t_balance t"
  "t_snatches (incSnatches t) = t_snatches t + 1" "t_snatches (setFree f t) = t_snatches t"
  by (simp_all add: incSnatches_def setFree_def)

lemma setBalance_Inr:
  "setBalance b t = Inr t' \<longleftrightarrow>
    - (2 ^ 63) \<le> t_balance t + b \<and> t_balance t + b < 2 ^ 63 \<and> t' = t\<lparr>t_balance := t_balance t + b\<rparr>"
  by (auto simp: setBalance_def long_range_def)

definition torrent_ok :: "bool \<Rightarrow> heap \<Rightarrow> torrent \<Rightarrow> bool" where
  "torrent_ok private h t \<longleftrightarrow> (\<forall>sl. peers_ok private (slot_ipv6 sl) h (get_slot sl t))"

definition cursors_ok :: "torrent \<Rightarrow> bool" where
  "cursors_ok t \<longleftrightarrow> (\<forall>sl. cursor_ok (get_slot sl t))"

lemma torrent_ok_new [simp]: "torrent_ok private h (new_torrent i f s b)"
  by (simp add: torrent_ok_def)

lemma cursors_ok_new [simp]: "cursors_ok (new_torrent i f s b)"
  by (simp add: cursors_ok_def)

lemma torrent_ok_slot: "torrent_ok private h t \<Longrightarrow> peers_ok private (slot_ipv6 sl) h (get_slot sl t)"
  by (simp add: torrent_ok_def)

lemma torrent_ok_set_slot [keeps]:
  "torrent_ok private h t \<Longrightarrow> peers_ok private (slot_ipv6 sl) h ps \<Longrightarrow> torrent_ok private h (set_slot sl ps t)"
  unfolding torrent_ok_def by (rule slots.all_store_keeps)

lemma cursors_ok_set_slot [keeps]: "cursors_ok t \<Longrightarrow> cursor_ok ps \<Longrightarrow> cursors_ok (set_slot sl ps t)"
  unfolding cursors_ok_def by (rule slots.all_store_keeps)

lemma torrent_ok_frame [simp]:
  "torrent_ok private h (incSnatches t) = torrent_ok private h t"
  "torrent_ok private h (setFree f t) = torrent_ok private h t"
  "torrent_ok private h (t\<lparr>t_balance := b\<rparr>) = torrent_ok private h t"
  by (simp_all add: torrent_ok_def)

lemma torrent_ok_heap [keeps]: "torrent_ok private h t \<Longrightarrow> length h \<le> length h' \<Longrightarrow> torrent_ok private h' t"
  by (auto simp: torrent_ok_def intro: peers_ok_heap)

section \<open>Peers reached through a pointer\<close>

text \<open>
  The \<open>Peer*\<close> of the request handler points at an entry of one of the four tables: a slot
  and a key.
\<close>

type_synonym peer_ptr = "slot \<times> string"

definition peer_at :: "peer_ptr \<Rightarrow> torrent \<Rightarrow> peer res" where
  "peer_at pp t = (case getPeer (snd pp) (get_slot (fst pp) t) of
     None \<Rightarrow> Inl (UB Null_pointer) | Some p \<Rightarrow> Inr p)"

definition update_peer :: "peer_ptr \<Rightarrow> peer \<Rightarrow> torrent \<Rightarrow> torrent" where
  "update_peer pp p t =
    set_slot (fst pp) ((get_slot (fst pp) t)\<lparr>pMap := AList.update (snd pp) p (pMap (get_slot (fst pp) t))\<rparr>) t"

lemma peer_at_Inr: "peer_at (sl, k) t = Inr p \<longleftrightarrow> getPeer k (get_slot sl t) = Some p"
  by (auto simp: peer_at_def split: option.splits)

lemma getPeer_update_peer [simp]:
  "getPeer k' (get_slot sl' (update_peer (sl, k) p t)) =
    (if sl' = sl \<and> k' = k then Some p else getPeer k' (get_slot sl' t))"
  by (simp add: update_peer_def getPeer_def)

lemma getPeer_Some_in: "getPeer k ps = Some p \<Longrightarrow> k \<in> fst ` set (pMap ps)"
  by (force simp: getPeer_def dest: map_of_SomeD)

lemma peers_ok_update:
  assumes "peers_ok private ipv6 h ps" and "getPeer k ps = Some p"
    and "peer_ok private ipv6 h q" and "p_peerID q = k"
  shows "peers_ok private ipv6 h (ps\<lparr>pMap := AList.update k q (pMap ps)\<rparr>)"
  using assms om_update_keys [OF getPeer_Some_in [OF assms(2)], of q]
  by (auto simp: peers_ok_def pm_wf_def dest!: set_update_subset)

lemma torrent_ok_update_peer [keeps]:
  assumes ok: "torrent_ok private h t" and p: "getPeer k (get_slot sl t) = Some p"
    and q: "peer_ok private (slot_ipv6 sl) h q" "p_peerID q = p_peerID p"
  shows "torrent_ok private h (update_peer (sl, k) q t)"
proof -
  have "p_peerID q = k"
    using peers_ok_getPeer [OF torrent_ok_slot [OF ok] p] q(2) by simp
  from peers_ok_update [OF torrent_ok_slot [OF ok] p q(1) this] ok show ?thesis
    by (simp add: update_peer_def torrent_ok_set_slot)
qed

lemma cursors_ok_update_peer [keeps]:
  assumes "cursors_ok t" and p: "getPeer k (get_slot sl t) = Some p"
  shows "cursors_ok (update_peer (sl, k) q t)"
proof -
  have "cursor_ok (get_slot sl t)" using assms by (simp add: cursors_ok_def)
  then have "cursor_ok ((get_slot sl t)\<lparr>pMap := AList.update k q (pMap (get_slot sl t))\<rparr>)"
    by (simp add: cursor_ok_def om_update_key_set [OF getPeer_Some_in [OF p]] split: cursor.splits)
  with assms(1) show ?thesis by (simp add: update_peer_def cursors_ok_set_slot)
qed

lemma update_peer_frame [simp]:
  "t_id (update_peer pp p t) = t_id t" "t_free (update_peer pp p t) = t_free t"
  "t_snatches (update_peer pp p t) = t_snatches t" "t_balance (update_peer pp p t) = t_balance t"
  by (simp_all add: update_peer_def)

lemma peers_size_update_peer [simp]:
  "getPeer k (get_slot sl t) = Some p \<Longrightarrow>
    peers_size (get_slot sl' (update_peer (sl, k) q t)) = peers_size (get_slot sl' t)"
  using arg_cong [where f = length, OF om_update_keys [OF getPeer_Some_in [of k "get_slot sl t" p], of q]]
  by (simp add: update_peer_def peers_size_def)

end
