(* ===== verification/Parser.thy ===== *)
theory Parser
  imports Peers
begin

text \<open>
  src/misc/parser.cpp: the required parameters per action, \<open>Parser::check\<close>, and the
  index-based scanner \<open>Parser::parse\<close> of the first request line and the headers. Every
  read and every \<open>substr\<close> of the code is a fallible operation here; the lemmas show that
  none of them fails, and that a rendered request line parses to its parameters.
\<close>

section \<open>Required parameters\<close>

definition required_params :: "config \<Rightarrow> string \<rightharpoonup> string list" where
  "required_params cfg = map_of [
    (''announce'', (if get cfg ''type'' = ''private'' then [''reqpasskey''] else []) @
       [''port'', ''peer_id'', ''left'', ''user-agent'', ''downloaded'', ''uploaded'']),
    (''scrape'', []),
    (''update'', [''type'', ''reqpasskey'']),
    (''change_passkey'', [''old_passkey'', ''new_passkey'']),
    (''add_torrent'', [''id'', ''size'']),
    (''delete_torrent'', []),
    (''update_torrent'', [''freetorrent'']),
    (''add_user'', [''passkey'', ''id'']),
    (''update_user'', [''passkey'', ''can_leech'']),
    (''remove_user'', [''passkey'']),
    (''remove_users'', [''passkeys'']),
    (''add_token'', [''passkey'']),
    (''remove_token'', [''passkey'']),
    (''add_ban'', [''from'', ''to'']),
    (''remove_ban'', [''from'', ''to'']),
    (''add_ip_restriction'', []),
    (''remove_ip_restriction'', []),
    (''add_whitelist'', [''peer_id'']),
    (''edit_whitelist'', [''old_peer_id'', ''new_peer_id'']),
    (''remove_whitelist'', [''peer_id'']),
    (''set_leech_status'', [])]"

definition missing_message :: "string \<Rightarrow> string" where
  "missing_message it = ''missing param ('' @ it @ '')''"

text \<open>The loop that returns at the first absent parameter.\<close>

fun check_params :: "string list \<Rightarrow> request \<Rightarrow> string option" where
  "check_params [] req = None"
| "check_params (it # its) req =
     (if req it = None then Some (missing_message it) else check_params its req)"

definition check :: "(string \<rightharpoonup> string list) \<Rightarrow> request \<Rightarrow> string res" where
  "check required req =
    catchE
      (bindE (at_key req ''action'') (\<lambda>action.
       bindE (at_key required action) (\<lambda>params.
       case check_params params req of Some msg \<Rightarrow> Inr msg
       | None \<Rightarrow>
           if action = ''update'' then
             bindE (at_key req ''type'') (\<lambda>type.
               catchE
                 (bindE (at_key required type) (\<lambda>params'.
                  case check_params params' req of Some msg \<Rightarrow> Inr msg | None \<Rightarrow> Inr ''success''))
                 (Inr ''missing update type''))
           else Inr ''success'')))
      (Inr ''missing action'')"

lemma check_params_None: "check_params its req = None \<longleftrightarrow> (\<forall>it \<in> set its. req it \<noteq> None)"
  by (induction its) auto

lemma check_params_Some:
  "check_params its req = Some msg \<Longrightarrow> \<exists>it \<in> set its. req it = None \<and> msg = missing_message it"
  by (induction its) (auto split: if_splits)

lemma missing_message_neq [simp]: "missing_message it \<noteq> ''success''"
  by (simp add: missing_message_def)

lemma check_total: "\<exists>msg. check required req = Inr msg"
  by (auto simp: check_def at_key_def split: option.splits)

lemma check_params_case:
  "(case check_params its req of Some msg \<Rightarrow> Inr msg | None \<Rightarrow> r) = Inr ''success'' \<longleftrightarrow>
    check_params its req = None \<and> r = (Inr ''success'' :: string res)"
  using check_params_Some [of its req] by (cases "check_params its req") auto

lemma catchE_success:
  assumes "\<And>u. r \<noteq> Inl (UB u)" and "msg \<noteq> ''success''"
  shows "catchE r (Inr msg) = Inr ''success'' \<longleftrightarrow> r = (Inr ''success'' :: string res)"
  using assms by (auto simp: catchE_split_Inr)

lemma bindE_at_key_no_UB:
  "(\<And>x. m k = Some x \<Longrightarrow> f x \<noteq> Inl (UB u)) \<Longrightarrow> bindE (at_key m k) f \<noteq> Inl (UB u)"
  by (cases "m k") auto

lemma catchE_no_UB: "r \<noteq> Inl (UB u) \<Longrightarrow> h \<noteq> Inl (UB u) \<Longrightarrow> catchE r h \<noteq> Inl (UB u)"
  by (auto simp: catchE_def split: sum.splits exn.splits)

lemma check_params_no_UB:
  "r \<noteq> Inl (UB u) \<Longrightarrow> (case check_params its req of Some msg \<Rightarrow> Inr msg | None \<Rightarrow> r) \<noteq> Inl (UB u)"
  by (cases "check_params its req") auto

lemmas no_UB = bindE_at_key_no_UB catchE_no_UB check_params_no_UB

lemma bindE_at_key_Inr: "bindE (at_key m k) f = Inr y \<longleftrightarrow> (\<exists>x. m k = Some x \<and> f x = Inr y)"
  by (cases "m k") auto

lemma check_success_lemma:
  "check required req = Inr ''success'' \<longleftrightarrow>
    (\<exists>action params. req ''action'' = Some action \<and> required action = Some params \<and>
      (\<forall>it \<in> set params. req it \<noteq> None) \<and>
      (action = ''update'' \<longrightarrow> (\<exists>type params'. req ''type'' = Some type \<and> required type = Some params' \<and>
        (\<forall>it \<in> set params'. req it \<noteq> None))))"
proof -
  let ?inner = "\<lambda>type. catchE
      (bindE (at_key required type) (\<lambda>params'.
         case check_params params' req of Some msg \<Rightarrow> Inr msg | None \<Rightarrow> Inr ''success''))
      (Inr ''missing update type'')"
  have inner: "?inner type = Inr ''success'' \<longleftrightarrow>
      (\<exists>params'. required type = Some params' \<and> check_params params' req = None)" for type
    by (subst catchE_success)
      (simp_all add: no_UB bindE_at_key_Inr check_params_case)
  let ?body = "\<lambda>action. if action = ''update'' then bindE (at_key req ''type'') ?inner else Inr ''success''"
  have body: "?body action = Inr ''success'' \<longleftrightarrow> (action = ''update'' \<longrightarrow>
      (\<exists>type params'. req ''type'' = Some type \<and> required type = Some params' \<and> check_params params' req = None))"
    for action by (simp add: bindE_at_key_Inr inner)
  have noub: "?body action \<noteq> Inl (UB u)" for action u
    by (simp add: no_UB)
  have "check required req = Inr ''success'' \<longleftrightarrow>
      bindE (at_key req ''action'') (\<lambda>action. bindE (at_key required action) (\<lambda>params.
        case check_params params req of Some msg \<Rightarrow> Inr msg | None \<Rightarrow> ?body action)) = Inr ''success''"
    unfolding check_def
    by (rule catchE_success) (rule bindE_at_key_no_UB bindE_at_key_no_UB check_params_no_UB noub | simp)+
  also have "\<dots> \<longleftrightarrow> (\<exists>action params. req ''action'' = Some action \<and> required action = Some params \<and>
      check_params params req = None \<and> ?body action = Inr ''success'')"
    unfolding bindE_at_key_Inr check_params_case by blast
  finally show ?thesis
    unfolding body unfolding check_params_None .
qed

section \<open>The scanner\<close>

text \<open>\<open>input.substr(pos, i - pos)\<close> with \<open>int\<close> operands converted to \<open>size_t\<close>.\<close>

definition slice :: "string \<Rightarrow> nat \<Rightarrow> nat \<Rightarrow> string res" where
  "slice input pos i = substr input pos (if pos \<le> i then i - pos else length input)"

fun action_length :: "string \<Rightarrow> nat \<Rightarrow> nat \<Rightarrow> nat \<Rightarrow> nat res" where
  "action_length input pos i 0 = Inr i"
| "action_length input pos i (Suc n) =
     bindE (idx input (pos + i)) (\<lambda>c.
       if c = CHR ''/'' \<or> c = CHR ''?'' then Inr i else action_length input pos (Suc i) n)"

text \<open>Storing a value: info hashes are decoded and pushed to the front of their list.\<close>

definition store_param :: "string \<Rightarrow> string \<Rightarrow> request \<times> string list \<Rightarrow> (request \<times> string list) res" where
  "store_param key v s =
    (let (out, hashes) = s in
     if key = ''info_hash'' then bindE (hex_to_bin v) (\<lambda>h. Inr (out, h # hashes))
     else Inr (fm_emplace key v out, hashes))"

function params_loop ::
  "string \<Rightarrow> nat \<Rightarrow> nat \<Rightarrow> string \<Rightarrow> bool \<Rightarrow> request \<times> string list \<Rightarrow> (nat \<times> request \<times> string list) res" where
  "params_loop input i pos key found_data s =
    (if i < length input then
       (if input ! i = CHR ''='' then
          bindE (slice input pos i) (\<lambda>key'. params_loop input (i + 2) (i + 1) key' found_data s)
        else if input ! i = CHR ''&'' \<or> input ! i = CHR '' '' then
          bindE (if found_data then bindE (slice input pos i) (\<lambda>v. store_param key v s) else Inr s) (\<lambda>s'.
          let pos' = (if found_data then i + 1 else pos); i' = (if found_data then i + 1 else i) in
          bindE (idx input (pos' - 1)) (\<lambda>c.
            if c = CHR '' '' then Inr (pos', s')
            else params_loop input (i' + 1) pos' [] False s'))
        else params_loop input (i + 1) pos key True s)
     else Inr (pos, s))"
  by pat_completeness auto
termination
  by (relation "measure (\<lambda>(input, i, pos, key, found_data, s). length input - i)") auto

declare params_loop.simps [simp del]

function headers_loop :: "string \<Rightarrow> nat \<Rightarrow> nat \<Rightarrow> string \<Rightarrow> bool \<Rightarrow> request \<Rightarrow> request res" where
  "headers_loop input i pos key found_data out =
    (if i < length input then
       (if input ! i = CHR '':'' then
          bindE (slice input pos i) (\<lambda>key'. headers_loop input (i + 3) (i + 2) key' found_data out)
        else if input ! i = CHR 0x0A \<or> input ! i = CHR 0x0D then
          (if found_data then
             bindE (if map tolower key = ''user-agent''
                    then bindE (slice input pos i) (\<lambda>v. Inr (fm_emplace (map tolower key) v out))
                    else Inr out) (\<lambda>out'.
               headers_loop input (i + 3) (i + 2) [] False out')
           else headers_loop input (i + 1) pos [] False out)
        else headers_loop input (i + 1) pos key True out)
     else Inr out)"
  by pat_completeness auto
termination
  by (relation "measure (\<lambda>(input, i, pos, key, found_data, out). length input - i)") auto

declare headers_loop.simps [simp del]

text \<open>
  \<open>Parser::parse\<close>: the part up to the question mark, then the two loops.
\<close>

definition parse_action :: "string \<Rightarrow> nat \<Rightarrow> request \<Rightarrow> (request \<times> nat) res" where
  "parse_action input pos out =
    bindE (idx input pos) (\<lambda>c.
      if c \<noteq> CHR ''?'' then
        bindE (action_length input pos 0 8) (\<lambda>i.
        bindE (substr input pos i) (\<lambda>action. Inr (fm_emplace ''action'' action out, pos + i)))
      else Inr (out, pos))"

definition parse :: "string \<Rightarrow> (request \<times> string list) res" where
  "parse input =
    (if length input < 60 then Inr (Map.empty, [])
     else
       bindE (idx input 5) (\<lambda>c0.
       bindE (substr input 5 32) (\<lambda>key32.
       let (out1, pos1) =
         (if c0 \<noteq> CHR ''?'' \<and> find_char CHR ''/'' key32 = None \<and> find_char CHR ''?'' key32 = None
          then (fm_emplace ''reqpasskey'' key32 Map.empty, 37) else (Map.empty, 5))
       in bindE (idx input pos1) (\<lambda>c1.
       let pos2 = (if c1 = CHR ''/'' then pos1 + 1 else pos1)
       in bindE (parse_action input pos2 out1) (\<lambda>(out2, pos3).
       bindE (idx input pos3) (\<lambda>c3.
       if c3 = CHR ''?'' then
         bindE (params_loop input (pos3 + 1) (pos3 + 1) [] False (out2, [])) (\<lambda>(pos4, out4, hashes).
         bindE (headers_loop input (pos4 + 10) (pos4 + 10) [] False out4) (\<lambda>out5.
           Inr (out5, hashes)))
       else Inr (Map.empty, [])))))))"

section \<open>No read of the scanner is out of bounds\<close>

lemma slice_in: "pos \<le> i \<Longrightarrow> pos \<le> length input \<Longrightarrow> slice input pos i = Inr (take (i - pos) (drop pos input))"
  by (simp add: slice_def)

lemma store_param_total: "\<exists>s'. store_param key v s = Inr s'"
  by (cases s) (simp add: store_param_def hex_to_bin_eq)

lemma action_length_total:
  "pos + i + n \<le> length input \<Longrightarrow> \<exists>j. action_length input pos i n = Inr j \<and> j \<le> i + n"
proof (induction n arbitrary: i)
  case (Suc n)
  then have "idx input (pos + i) = Inr (input ! (pos + i))" by simp
  with Suc.IH [of "Suc i"] Suc.prems show ?case by auto
qed simp

lemma params_loop_total:
  "1 \<le> pos \<Longrightarrow> (i < length input \<Longrightarrow> pos \<le> i) \<Longrightarrow> \<exists>pos' s'. params_loop input i pos key found s = Inr (pos', s')"
proof (induction input i pos key found s rule: params_loop.induct)
  case (1 input i pos key found s)
  show ?case
  proof (cases "i < length input")
    case False
    then show ?thesis by (simp add: params_loop.simps [of input i])
  next
    case i: True
    with "1.prems"(2) have pos: "pos \<le> i" by simp
    have sp: "slice input pos i = Inr (take (i - pos) (drop pos input))"
      using pos i by (simp add: slice_in)
    consider (eq) "input ! i = CHR ''=''" | (amp) "input ! i \<noteq> CHR ''=''" "input ! i = CHR ''&'' \<or> input ! i = CHR '' ''"
      | (other) "input ! i \<noteq> CHR ''=''" "\<not> (input ! i = CHR ''&'' \<or> input ! i = CHR '' '')" by blast
    then show ?thesis
    proof cases
      case eq
      with "1.IH"(1) [OF i eq] sp i show ?thesis by (simp add: params_loop.simps [of input i])
    next
      case amp
      define pos' where "pos' = (if found then i + 1 else pos)"
      define i' where "i' = (if found then i + 1 else i)"
      obtain s' where s': "(if found then bindE (slice input pos i) (\<lambda>v. store_param key v s) else Inr s) = Inr s'"
        using store_param_total [of key "take (i - pos) (drop pos input)" s] sp that
        by (cases found) (auto simp only: bindE_simps if_True if_False)
      obtain c where c: "idx input (pos' - 1) = Inr c"
        using i pos idx_total [of "pos' - 1" input] by (cases found) (auto simp: pos'_def)
      have "\<exists>p t. params_loop input (i' + 1) pos' [] False s' = Inr (p, t)" if "c \<noteq> CHR '' ''"
        using "1.IH"(2) [OF i amp s' pos'_def i'_def c that] "1.prems"(1) pos by (simp add: pos'_def i'_def)
      then show ?thesis
        unfolding params_loop.simps [of input i] Let_def pos'_def [symmetric] i'_def [symmetric]
        using i amp s' c by simp
    next
      case other
      with "1.IH"(3) [OF i other] "1.prems"(1) pos i show ?thesis
        by (simp add: params_loop.simps [of input i])
    qed
  qed
qed

lemma headers_loop_total:
  "(i < length input \<Longrightarrow> pos \<le> i) \<Longrightarrow> \<exists>out'. headers_loop input i pos key found out = Inr out'"
proof (induction input i pos key found out rule: headers_loop.induct)
  case (1 input i pos key found out)
  show ?case
  proof (cases "i < length input")
    case False
    then show ?thesis by (simp add: headers_loop.simps [of input i])
  next
    case i: True
    with "1.prems" have sp: "slice input pos i = Inr (take (i - pos) (drop pos input))"
      by (simp add: slice_in)
    consider (colon) "input ! i = CHR '':''"
      | (eol) "input ! i \<noteq> CHR '':''" "input ! i = CHR 0x0A \<or> input ! i = CHR 0x0D"
      | (other) "input ! i \<noteq> CHR '':''" "\<not> (input ! i = CHR 0x0A \<or> input ! i = CHR 0x0D)" by blast
    then show ?thesis
    proof cases
      case colon
      with "1.IH"(1) [OF i colon] sp i show ?thesis by (simp add: headers_loop.simps [of input i])
    next
      case eol
      show ?thesis
      proof (cases found)
        case True
        obtain out' where o: "(if map tolower key = ''user-agent''
                    then bindE (slice input pos i) (\<lambda>v. Inr (fm_emplace (map tolower key) v out))
                    else Inr out) = Inr out'" using sp that by (cases "map tolower key = ''user-agent''") auto
        from "1.IH"(2) [OF i eol True o] True o eol i show ?thesis
          unfolding headers_loop.simps [of input i] by simp
      next
        case False
        with "1.IH"(3) [OF i eol False] "1.prems" eol i show ?thesis
          by (simp add: headers_loop.simps [of input i])
      qed
    next
      case other
      with "1.IH"(4) [OF i other] "1.prems" i show ?thesis
        by (simp add: headers_loop.simps [of input i])
    qed
  qed
qed

lemma parse_action_total:
  assumes "pos + 8 \<le> length input"
  shows "\<exists>out' pos'. parse_action input pos out = Inr (out', pos') \<and> pos \<le> pos' \<and> pos' \<le> pos + 8"
proof -
  obtain j where "action_length input pos 0 8 = Inr j" "j \<le> 8"
    using action_length_total [of pos 0 8 input] assms by auto
  with assms show ?thesis by (auto simp: parse_action_def)
qed

lemma parse_never_fails: "\<exists>req hashes. parse input = Inr (req, hashes)"
proof (cases "length input < 60")
  case True
  then show ?thesis by (simp add: parse_def)
next
  case False
  have tail: "\<exists>req hashes. bindE (parse_action input pos2 out1) (\<lambda>(out2, pos3).
       bindE (idx input pos3) (\<lambda>c3.
       if c3 = CHR ''?'' then
         bindE (params_loop input (pos3 + 1) (pos3 + 1) [] False (out2, [])) (\<lambda>(pos4, out4, hashes).
         bindE (headers_loop input (pos4 + 10) (pos4 + 10) [] False out4) (\<lambda>out5.
           Inr (out5, hashes)))
       else Inr (Map.empty, []))) = Inr (req, hashes)" if "pos2 \<le> 38" for pos2 out1
  proof -
    obtain out2 pos3 where a: "parse_action input pos2 out1 = Inr (out2, pos3)" "pos3 \<le> pos2 + 8"
      using parse_action_total [of pos2 input out1] False \<open>pos2 \<le> 38\<close> by auto
    have c: "idx input pos3 = Inr (input ! pos3)" using a False \<open>pos2 \<le> 38\<close> by simp
    obtain pos4 out4 hashes where p: "params_loop input (pos3 + 1) (pos3 + 1) [] False (out2, []) = Inr (pos4, out4, hashes)"
      using params_loop_total [of "pos3 + 1" "pos3 + 1" input "[]" False "(out2, [])"] by auto
    obtain out5 where "headers_loop input (pos4 + 10) (pos4 + 10) [] False out4 = Inr out5"
      using headers_loop_total [of "pos4 + 10" input "pos4 + 10" "[]" False out4] by auto
    with a c p show ?thesis by auto
  qed
  show ?thesis
    using False by (auto simp: parse_def Let_def intro!: tail split: prod.splits if_splits)
qed

section \<open>A rendered request parses to what was rendered\<close>

definition decode_hash :: "string \<Rightarrow> string" where
  "decode_hash v = (case pct_decode v of None \<Rightarrow> [] | Some r \<Rightarrow> r)"

text \<open>What the loops compute, on the abstract list of parameters and headers.\<close>

fun store_params :: "(string \<times> string) list \<Rightarrow> request \<times> string list \<Rightarrow> request \<times> string list" where
  "store_params [] s = s"
| "store_params ((k, v) # ps) (out, hs) =
     store_params ps (if k = ''info_hash'' then (out, decode_hash v # hs) else (fm_emplace k v out, hs))"

fun store_headers :: "(string \<times> string) list \<Rightarrow> request \<Rightarrow> request" where
  "store_headers [] out = out"
| "store_headers ((k, v) # hs) out =
     store_headers hs (if map tolower k = ''user-agent'' then fm_emplace ''user-agent'' v out else out)"

fun render_params :: "(string \<times> string) list \<Rightarrow> string" where
  "render_params [] = []"
| "render_params [(k, v)] = k @ ''='' @ v"
| "render_params ((k, v) # p # ps) = k @ ''='' @ v @ ''&'' @ render_params (p # ps)"

definition eol :: string where
  "eol = [CHR 0x0D, CHR 0x0A]"

fun render_headers :: "(string \<times> string) list \<Rightarrow> string" where
  "render_headers [] = eol"
| "render_headers ((k, v) # hs) = k @ '': '' @ v @ eol @ render_headers hs"

definition param_ok :: "string \<times> string \<Rightarrow> bool" where
  "param_ok kv \<longleftrightarrow> 2 \<le> length (fst kv) \<and> snd kv \<noteq> [] \<and>
    (\<forall>c \<in> set (fst kv) \<union> set (snd kv). c \<noteq> CHR ''='' \<and> c \<noteq> CHR ''&'' \<and> c \<noteq> CHR '' '')"

definition header_ok :: "string \<times> string \<Rightarrow> bool" where
  "header_ok kv \<longleftrightarrow> 2 \<le> length (fst kv) \<and> snd kv \<noteq> [] \<and>
    (\<forall>c \<in> set (fst kv) \<union> set (snd kv). c \<noteq> CHR '':'' \<and> c \<noteq> CHR 0x0A \<and> c \<noteq> CHR 0x0D)"

lemma store_param_eq:
  "store_param k v (out, hs) =
    Inr (if k = ''info_hash'' then (out, decode_hash v # hs) else (fm_emplace k v out, hs))"
  by (simp add: store_param_def hex_to_bin_eq decode_hash_def)

lemma params_plain:
  "\<forall>c \<in> set w. c \<noteq> CHR ''='' \<and> c \<noteq> CHR ''&'' \<and> c \<noteq> CHR '' '' \<Longrightarrow>
    params_loop (pre @ w @ post) (length pre) pos key found s =
    params_loop (pre @ w @ post) (length pre + length w) pos key (found \<or> w \<noteq> []) s"
proof (induction w arbitrary: pre found)
  case (Cons c w)
  have "params_loop (pre @ (c # w) @ post) (length pre) pos key found s =
      params_loop (pre @ (c # w) @ post) (length pre + 1) pos key True s"
    using Cons.prems by (simp add: params_loop.simps [of "pre @ c # w @ post" "length pre"] nth_append)
  also have "\<dots> = params_loop (pre @ (c # w) @ post) (length pre + length (c # w)) pos key True s"
    using Cons.IH [of "pre @ [c]" True] Cons.prems by simp
  finally show ?case by simp
qed simp

lemma headers_plain:
  "\<forall>c \<in> set w. c \<noteq> CHR '':'' \<and> c \<noteq> CHR 0x0A \<and> c \<noteq> CHR 0x0D \<Longrightarrow>
    headers_loop (pre @ w @ post) (length pre) pos key found out =
    headers_loop (pre @ w @ post) (length pre + length w) pos key (found \<or> w \<noteq> []) out"
proof (induction w arbitrary: pre found)
  case (Cons c w)
  have "headers_loop (pre @ (c # w) @ post) (length pre) pos key found out =
      headers_loop (pre @ (c # w) @ post) (length pre + 1) pos key True out"
    using Cons.prems by (simp add: headers_loop.simps [of "pre @ c # w @ post" "length pre"] nth_append)
  also have "\<dots> = headers_loop (pre @ (c # w) @ post) (length pre + length (c # w)) pos key True out"
    using Cons.IH [of "pre @ [c]" True] Cons.prems by simp
  finally show ?case by simp
qed simp

lemma slice_middle: "slice (pre @ w @ post) (length pre) (length pre + length w) = Inr w"
  by (simp add: slice_in)

text \<open>
  One parameter: the scan starts at most one character into the key (the code skips the
  first character after a separator).
\<close>

lemma params_key:
  assumes ok: "param_ok (k, v)" and j: "j \<le> 1"
  shows "params_loop (pre @ k @ ''='' @ rest) (length pre + j) (length pre) key found s =
    params_loop (pre @ k @ ''='' @ rest) (length pre + length k + 2) (length pre + length k + 1) k True s"
proof -
  obtain k1 k2 where k: "k = k1 @ k2" "length k1 = j" "k2 \<noteq> []"
    using ok j by (intro that [of "take j k" "drop j k"]) (auto simp: param_ok_def)
  have "params_loop ((pre @ k1) @ k2 @ ''='' @ rest) (length (pre @ k1)) (length pre) key found s =
    params_loop ((pre @ k1) @ k2 @ ''='' @ rest) (length (pre @ k1) + length k2) (length pre) key True s"
    using params_plain [of k2 "pre @ k1"] ok k by (simp add: param_ok_def)
  moreover have "params_loop (pre @ k @ ''='' @ rest) (length pre + length k) (length pre) key True s =
    params_loop (pre @ k @ ''='' @ rest) (length pre + length k + 2) (length pre + length k + 1) k True s"
    using slice_middle [of pre k "''='' @ rest"]
    by (simp add: params_loop.simps [of "pre @ k @ CHR ''='' # rest" "length pre + length k"] nth_append)
  ultimately show ?thesis using k by (simp add: add.assoc)
qed

lemma params_value:
  assumes ok: "param_ok (k, v)" and c: "c = CHR ''&'' \<or> c = CHR '' ''"
  shows "params_loop (pre @ v @ c # rest) (length pre + 1) (length pre) k True (out, hs) =
    (let s' = (if k = ''info_hash'' then (out, decode_hash v # hs) else (fm_emplace k v out, hs));
         n = length pre + length v + 1
     in if c = CHR '' '' then Inr (n, s') else params_loop (pre @ v @ c # rest) (n + 1) n [] False s')"
proof -
  obtain a w where v: "v = a # w" using ok by (cases v) (auto simp: param_ok_def)
  have "params_loop ((pre @ [a]) @ w @ c # rest) (length (pre @ [a])) (length pre) k True (out, hs) =
    params_loop ((pre @ [a]) @ w @ c # rest) (length (pre @ [a]) + length w) (length pre) k True (out, hs)"
    using params_plain [of w "pre @ [a]"] ok v by (simp add: param_ok_def)
  then have "params_loop (pre @ v @ c # rest) (length pre + 1) (length pre) k True (out, hs) =
    params_loop (pre @ v @ c # rest) (length pre + length v) (length pre) k True (out, hs)"
    using v by simp
  also have "\<dots> = (let s' = (if k = ''info_hash'' then (out, decode_hash v # hs) else (fm_emplace k v out, hs));
         n = length pre + length v + 1
     in if c = CHR '' '' then Inr (n, s') else params_loop (pre @ v @ c # rest) (n + 1) n [] False s')"
    using slice_middle [of pre v "c # rest"] c
    by (auto simp: params_loop.simps [of "pre @ v @ c # rest" "length pre + length v"] nth_append
        store_param_eq Let_def)
  finally show ?thesis .
qed

lemma params_loop_render:
  "ps \<noteq> [] \<Longrightarrow> list_all param_ok ps \<Longrightarrow> j \<le> 1 \<Longrightarrow>
    params_loop (pre @ render_params ps @ CHR '' '' # rest) (length pre + j) (length pre) [] False s =
    Inr (length pre + length (render_params ps) + 1, store_params ps s)"
proof (induction ps arbitrary: pre j s rule: render_params.induct)
  case (2 k v)
  obtain out hs where s: "s = (out, hs)" by (cases s)
  from 2 have ok: "param_ok (k, v)" by simp
  show ?case
    using params_key [OF ok \<open>j \<le> 1\<close>, of pre "v @ CHR '' '' # rest" "[]" False s]
      params_value [OF ok, of "CHR '' ''" "pre @ k @ ''=''" rest out hs] s
    by (simp add: Let_def)
next
  case (3 k v p ps)
  obtain out hs where s: "s = (out, hs)" by (cases s)
  from 3 have ok: "param_ok (k, v)" by simp
  let ?s = "if k = ''info_hash'' then (out, decode_hash v # hs) else (fm_emplace k v out, hs)"
  have "params_loop ((pre @ k @ ''='' @ v @ ''&'') @ render_params (p # ps) @ CHR '' '' # rest)
      (length (pre @ k @ ''='' @ v @ ''&'') + 1) (length (pre @ k @ ''='' @ v @ ''&'')) [] False ?s =
    Inr (length (pre @ k @ ''='' @ v @ ''&'') + length (render_params (p # ps)) + 1, store_params (p # ps) ?s)"
    using 3 by (intro "3.IH") auto
  then show ?case
    using params_key [OF ok \<open>j \<le> 1\<close>, of pre "v @ CHR ''&'' # render_params (p # ps) @ CHR '' '' # rest" "[]" False s]
      params_value [OF ok, of "CHR ''&''" "pre @ k @ ''=''" "render_params (p # ps) @ CHR '' '' # rest" out hs] s
    by (simp add: Let_def add.assoc)
qed simp

lemma headers_key:
  assumes ok: "header_ok (k, v)" and j: "j \<le> 1"
  shows "headers_loop (pre @ k @ '': '' @ rest) (length pre + j) (length pre) key found out =
    headers_loop (pre @ k @ '': '' @ rest) (length pre + length k + 3) (length pre + length k + 2) k True out"
proof -
  obtain k1 k2 where k: "k = k1 @ k2" "length k1 = j" "k2 \<noteq> []"
    using ok j by (intro that [of "take j k" "drop j k"]) (auto simp: header_ok_def)
  have "headers_loop ((pre @ k1) @ k2 @ '': '' @ rest) (length (pre @ k1)) (length pre) key found out =
    headers_loop ((pre @ k1) @ k2 @ '': '' @ rest) (length (pre @ k1) + length k2) (length pre) key True out"
    using headers_plain [of k2 "pre @ k1"] ok k by (simp add: header_ok_def)
  moreover have "headers_loop (pre @ k @ '': '' @ rest) (length pre + length k) (length pre) key True out =
    headers_loop (pre @ k @ '': '' @ rest) (length pre + length k + 3) (length pre + length k + 2) k True out"
    using slice_middle [of pre k "'': '' @ rest"]
    by (simp add: headers_loop.simps [of "pre @ k @ CHR '':'' # CHR '' '' # rest" "length pre + length k"] nth_append)
  ultimately show ?thesis using k by (simp add: add.assoc)
qed

lemma headers_value:
  assumes ok: "header_ok (k, v)"
  shows "headers_loop (pre @ v @ eol @ rest) (length pre + 1) (length pre) k True out =
    headers_loop (pre @ v @ eol @ rest) (length pre + length v + 3) (length pre + length v + 2) [] False
      (if map tolower k = ''user-agent'' then fm_emplace ''user-agent'' v out else out)"
proof -
  obtain a w where v: "v = a # w" using ok by (cases v) (auto simp: header_ok_def)
  have "headers_loop ((pre @ [a]) @ w @ eol @ rest) (length (pre @ [a])) (length pre) k True out =
    headers_loop ((pre @ [a]) @ w @ eol @ rest) (length (pre @ [a]) + length w) (length pre) k True out"
    using headers_plain [of w "pre @ [a]"] ok v by (simp add: header_ok_def)
  then have "headers_loop (pre @ v @ eol @ rest) (length pre + 1) (length pre) k True out =
    headers_loop (pre @ v @ eol @ rest) (length pre + length v) (length pre) k True out"
    using v by simp
  also have "\<dots> = headers_loop (pre @ v @ eol @ rest) (length pre + length v + 3) (length pre + length v + 2) [] False
      (if map tolower k = ''user-agent'' then fm_emplace ''user-agent'' v out else out)"
    using slice_middle [of pre v "eol @ rest"]
    by (simp add: headers_loop.simps [of "pre @ v @ CHR 0x0D # CHR 0x0A # rest" "length pre + length v"]
        nth_append eol_def)
  finally show ?thesis .
qed

lemma headers_end:
  "j \<le> 1 \<Longrightarrow> headers_loop (pre @ eol) (length pre + j) (length pre) [] False out = Inr out"
  by (cases j) (simp_all add: headers_loop.simps [of "pre @ [CHR 0x0D, CHR 0x0A]"] eol_def nth_append)

lemma headers_loop_render:
  "list_all header_ok hs \<Longrightarrow> j \<le> 1 \<Longrightarrow>
    headers_loop (pre @ render_headers hs) (length pre + j) (length pre) [] False out =
    Inr (store_headers hs out)"
proof (induction hs arbitrary: pre j out rule: render_headers.induct)
  case 1
  then show ?case using headers_end [of j pre out] by simp
next
  case (2 k v hs)
  from 2 have ok: "header_ok (k, v)" by simp
  let ?out = "if map tolower k = ''user-agent'' then fm_emplace ''user-agent'' v out else out"
  have "headers_loop ((pre @ k @ '': '' @ v @ eol) @ render_headers hs) (length (pre @ k @ '': '' @ v @ eol) + 1)
      (length (pre @ k @ '': '' @ v @ eol)) [] False ?out = Inr (store_headers hs ?out)"
    using 2 by (intro "2.IH") auto
  then show ?case
    using headers_key [OF ok \<open>j \<le> 1\<close>, of pre "v @ eol @ render_headers hs" "[]" False out]
      headers_value [OF ok, of "pre @ k @ '': ''" "render_headers hs" out]
    by (simp add: add.assoc eol_def numeral_eq_Suc)
qed

text \<open>
  A whole request as a client or the site front end sends it (case 1 of the comment in
  \<open>Parser::parse\<close>).
\<close>

definition render_request ::
  "string \<Rightarrow> string \<Rightarrow> (string \<times> string) list \<Rightarrow> (string \<times> string) list \<Rightarrow> string" where
  "render_request passkey action ps hs =
    ''GET /'' @ passkey @ ''/'' @ action @ ''?'' @ render_params ps @ '' HTTP/1.1'' @ eol @ render_headers hs"

definition path_ok :: "string \<Rightarrow> bool" where
  "path_ok w \<longleftrightarrow> (\<forall>c \<in> set w. c \<noteq> CHR ''/'' \<and> c \<noteq> CHR ''?'')"

lemma action_length_word:
  "path_ok w \<Longrightarrow> length w \<le> n \<Longrightarrow> i = length pre \<Longrightarrow>
    action_length (pre @ w @ CHR ''?'' # rest) pos (i - pos) n = Inr (i - pos + length w)" if "pos \<le> i"
  using that
proof (induction w arbitrary: pre i n)
  case Nil
  then show ?case by (cases n) (simp_all add: nth_append)
next
  case (Cons c w)
  then obtain m where n: "n = Suc m" by (cases n) auto
  have "Suc i - pos = Suc (i - pos)" using Cons.prems by simp
  then show ?case
    using Cons.IH [of m "Suc i" "pre @ [c]"] Cons.prems n
    by (simp add: nth_append path_ok_def)
qed

lemma parse_action_word:
  assumes "path_ok w" and "length w \<le> 8" and "w \<noteq> []"
  shows "parse_action (pre @ w @ CHR ''?'' # rest) (length pre) out =
    Inr (fm_emplace ''action'' w out, length pre + length w)"
proof -
  obtain c v where w: "w = c # v" using assms(3) by (cases w) auto
  have "action_length (pre @ w @ CHR ''?'' # rest) (length pre) 0 8 = Inr (length w)"
    using action_length_word [of "length pre" "length pre" w 8 pre rest] assms by simp
  with w assms(1) show ?thesis by (simp add: parse_action_def nth_append path_ok_def)
qed

lemma parse_render_request:
  assumes pk: "length passkey = 32" "path_ok passkey"
    and act: "path_ok action" "length action \<le> 8" "action \<noteq> []"
    and ps: "ps \<noteq> []" "list_all param_ok ps" and hs: "list_all header_ok hs"
    and len: "60 \<le> length (render_request passkey action ps hs)"
  shows "parse (render_request passkey action ps hs) =
    (let (out, hashes) = store_params ps (fm_emplace ''action'' action (fm_emplace ''reqpasskey'' passkey Map.empty), [])
     in Inr (store_headers hs out, hashes))"
proof -
  define input where "input = render_request passkey action ps hs"
  define body where "body = render_params ps @ CHR '' '' # ''HTTP/1.1'' @ eol @ render_headers hs"
  define pre where "pre = ''GET /'' @ passkey @ ''/''"
  define pre3 where "pre3 = pre @ action @ ''?''"
  have i1: "input = ''GET /'' @ passkey @ CHR ''/'' # action @ CHR ''?'' # body"
    by (simp add: input_def render_request_def body_def)
  have i2: "input = pre @ action @ CHR ''?'' # body" by (simp add: i1 pre_def)
  have i3: "input = pre3 @ render_params ps @ CHR '' '' # ''HTTP/1.1'' @ eol @ render_headers hs"
    by (simp add: i2 pre3_def body_def)
  define pre4 where "pre4 = pre3 @ render_params ps @ '' HTTP/1.1'' @ eol"
  have i4: "input = pre4 @ render_headers hs" by (simp add: i3 pre4_def)
  have lpre: "length pre = 38" using pk(1) by (simp add: pre_def)
  have lpre3: "length pre3 = 38 + length action + 1" using lpre by (simp add: pre3_def)
  have lpre4: "length pre4 = length pre3 + length (render_params ps) + 11" by (simp add: pre4_def eol_def)
  note lens = lpre lpre3 lpre4
  obtain c0 pk' where c0: "passkey = c0 # pk'" using pk(1) by (cases passkey) auto
  have r1: "idx input 5 = Inr c0" "c0 \<noteq> CHR ''?''"
    using c0 pk(2) by (simp_all add: i1 nth_append path_ok_def)
  have r2: "substr input 5 32 = Inr passkey"
    using pk(1) by (simp add: i1)
  have nf: "find_char CHR ''/'' passkey = None" "find_char CHR ''?'' passkey = None"
    using pk(2) by (auto simp: path_ok_def)
  have r3: "idx input 37 = Inr CHR ''/''"
    using pk(1) by (simp add: i1 nth_append)
  have r4: "parse_action input 38 out = Inr (fm_emplace ''action'' action out, 38 + length action)" for out
    using parse_action_word [OF act, of pre body out] by (simp add: i2 lpre)
  have r5: "idx input (38 + length action) = Inr CHR ''?''"
    using lpre by (simp add: i2 nth_append)
  have r6: "params_loop input (38 + length action + 1) (38 + length action + 1) [] False s =
      Inr (length pre3 + length (render_params ps) + 1, store_params ps s)" for s
    using params_loop_render [OF ps, of 0 pre3 "''HTTP/1.1'' @ eol @ render_headers hs" s]
    unfolding i3 [symmetric] lpre3 by simp
  have r7: "headers_loop input (length pre3 + length (render_params ps) + 1 + 10)
      (length pre3 + length (render_params ps) + 1 + 10) [] False out = Inr (store_headers hs out)" for out
    using headers_loop_render [OF hs, of 0 pre4 out] unfolding i4 [symmetric] lpre4
    by (simp add: add.assoc add.commute [of 11])
  have next_pos: "37 + 1 = (38 :: nat)" by simp
  have "\<not> length input < 60" using len by (simp add: input_def)
  then have "parse input =
    (let (out, hashes) = store_params ps (fm_emplace ''action'' action (fm_emplace ''reqpasskey'' passkey Map.empty), [])
     in Inr (store_headers hs out, hashes))"
    unfolding parse_def Let_def
    by (simp only: r1 r2 nf r3 next_pos r4 r5 r6 if_False if_True bindE_simps simp_thms prod.case split: prod.split)
      (simp only: prod.case bindE_simps r7, simp)
  then show ?thesis by (simp add: input_def)
qed

section \<open>Properties\<close>

text \<open>C20: Parsing any input returns a result: no read past the end, no \<open>substr\<close> beyond the
  string, and both scanning loops end.\<close>

theorem parse_total: "\<exists>req hashes. parse input = Inr (req, hashes)"
  by (rule parse_never_fails)

text \<open>C19: Parsing a request line rendered from a passkey, an action, parameters and headers
  gives back exactly those parameters, the decoded info hashes in reverse order and the user
  agent.\<close>

theorem parse_inverts_render:
  assumes "length passkey = 32" and "path_ok passkey"
    and "path_ok action" and "length action \<le> 8" and "action \<noteq> []"
    and "ps \<noteq> []" and "list_all param_ok ps" and "list_all header_ok hs"
    and "60 \<le> length (render_request passkey action ps hs)"
  shows "parse (render_request passkey action ps hs) =
    (let (out, hashes) = store_params ps (fm_emplace ''action'' action (fm_emplace ''reqpasskey'' passkey Map.empty), [])
     in Inr (store_headers hs out, hashes))"
  using parse_render_request assms by blast

definition sample_key :: string where
  "sample_key = replicate 32 (CHR ''a'')"

lemma parse_inverts_render_witness:
  "parse (render_request sample_key ''scrape'' [(''info_hash'', ''%41%42'')] [(''User-Agent'', ''x'')]) =
    (let (out, hashes) = store_params [(''info_hash'', ''%41%42'')]
       (fm_emplace ''action'' ''scrape'' (fm_emplace ''reqpasskey'' sample_key Map.empty), [])
     in Inr (store_headers [(''User-Agent'', ''x'')] out, hashes))"
  by (rule parse_inverts_render) code_simp+

text \<open>Specification: the parameters of an action or update type are all there.\<close>

definition has_params :: "(string \<rightharpoonup> string list) \<Rightarrow> request \<Rightarrow> string \<Rightarrow> bool" where
  "has_params required req act =
    (case required act of None \<Rightarrow> False | Some its \<Rightarrow> list_all (\<lambda>it. req it \<noteq> None) its)"

definition complete_params :: "(string \<rightharpoonup> string list) \<Rightarrow> request \<Rightarrow> bool" where
  "complete_params required req =
    (case req ''action'' of None \<Rightarrow> False | Some act \<Rightarrow> has_params required req act \<and>
      (if act = ''update'' then case req ''type'' of None \<Rightarrow> False | Some t \<Rightarrow> has_params required req t else True))"

text \<open>C21: \<open>check\<close> throws nothing, and answers success exactly for a request whose action is
  known and whose parameters for that action, and for the update type when it is an update,
  are all present.\<close>

theorem check_success_iff:
  "(\<exists>msg. check required req = Inr msg) \<and> (check required req = Inr ''success'') = complete_params required req"
proof -
  have "complete_params required req \<longleftrightarrow>
    (\<exists>action params. req ''action'' = Some action \<and> required action = Some params \<and>
      (\<forall>it \<in> set params. req it \<noteq> None) \<and>
      (action = ''update'' \<longrightarrow> (\<exists>type params'. req ''type'' = Some type \<and> required type = Some params' \<and>
        (\<forall>it \<in> set params'. req it \<noteq> None))))"
    by (cases "req ''action''"; cases "req ''type''")
      (simp_all add: complete_params_def has_params_def list_all_iff split: option.splits)
  with check_total [of required req] check_success_lemma [of required req] show ?thesis by simp
qed

end
