(* ===== verification/Announce.thy ===== *)
theory Announce
  imports Torrent Parser Response
begin

text \<open>
  The announce and scrape requests of src/handler/requestHandler.cpp, block by block in the
  order of the code, over the state of the tracker. The pointers of the code into the
  tables of one torrent are slots and keys; \<open>work\<close> is the part of the state an announce
  changes after it has found its torrent. An \<open>Inl\<close> result is an exception that leaves the
  request handler (nothing catches it before \<open>main\<close>) or undefined behaviour.
\<close>

datatype leech_status = NORMAL | FREELEECH

record tracker =
  torMap :: "(string \<times> torrent) list"
  usrMap :: "string \<rightharpoonup> nat"
  accounts :: heap
  dbase :: db
  bannedIPs :: "string set"
  clientWhitelist :: "string list"
  leechStatus :: leech_status
  statistics :: stats

definition empty_tracker :: tracker where
  "empty_tracker = \<lparr>torMap = [], usrMap = Map.empty, accounts = [], dbase = empty_db,
     bannedIPs = {}, clientWhitelist = [], leechStatus = NORMAL, statistics = init_stats\<rparr>"

definition is_private :: "config \<Rightarrow> bool" where
  "is_private cfg \<longleftrightarrow> get cfg ''type'' = ''private''"

definition is_public :: "config \<Rightarrow> bool" where
  "is_public cfg \<longleftrightarrow> get cfg ''type'' = ''public''"

definition getUser :: "string \<Rightarrow> tracker \<Rightarrow> user_ptr" where
  "getUser passkey s = usrMap s passkey"

section \<open>The peer list of a reply\<close>

definition bstring :: "string \<Rightarrow> string" where
  "bstring s = show_nat (length s) @ '':'' @ s"

definition peer_entry :: "bool \<Rightarrow> peer \<Rightarrow> string" where
  "peer_entry is_compact p =
    (if is_compact then p_hexIPPort p
     else ''7:peer id'' @ bstring (p_peerID p) @ ''2:ip'' @ bstring (p_IP p) @
          ''4:port'' @ bstring (p_port p))"

fun getPeers_loop :: "bool \<Rightarrow> nat \<Rightarrow> string \<Rightarrow> peers \<Rightarrow> (string \<times> peers) res" where
  "getPeers_loop is_compact 0 peerlist ps = Inr (peerlist, ps)"
| "getPeers_loop is_compact (Suc n) peerlist ps =
     bindE (nextPeer ps) (\<lambda>(p, ps').
       getPeers_loop is_compact n
         (case p of Some q \<Rightarrow> peerlist @ peer_entry is_compact q | None \<Rightarrow> peerlist) ps')"

text \<open>
  The products and the decrement of \<open>int\<close> values, which a client can drive out of range with
  a negative \<open>numwant\<close>.
\<close>

definition int_range :: "int \<Rightarrow> int res" where
  "int_range x = (if - (2 ^ 31) \<le> x \<and> x < 2 ^ 31 then Inr x else Inl (UB Signed_overflow))"

definition getPeers :: "peers \<Rightarrow> int \<Rightarrow> bool \<Rightarrow> bool \<Rightarrow> (string \<times> peers) res" where
  "getPeers ps numwant ipv6 is_compact =
    (let head = (if ipv6 then ''6:peers6'' else ''5:peers'');
         bytes = (if ipv6 then 18 else 6)
     in bindE (if is_compact then bindE (int_range (numwant * bytes)) (\<lambda>n. Inr (show_int n @ '':''))
               else Inr ''d'') (\<lambda>open_list.
        bindE (int_range (numwant - 1)) (\<lambda>_.
        bindE (getPeers_loop is_compact (nat numwant) (head @ open_list) ps) (\<lambda>(peerlist, ps').
          Inr (if is_compact then peerlist else peerlist @ ''e'', ps')))))"

section \<open>Announce, block by block\<close>

definition whitelisted :: "string list \<Rightarrow> string \<Rightarrow> bool" where
  "whitelisted wl peer_id \<longleftrightarrow> (\<exists>it \<in> set wl. starts_with it peer_id)"

record work =
  w_tor :: torrent
  w_users :: heap
  w_stats :: stats
  w_db :: db

definition leech_slot :: "bool \<Rightarrow> slot" where
  "leech_slot ipv6 = (if ipv6 then Leechers6 else Leechers)"

definition seed_slot :: "bool \<Rightarrow> slot" where
  "seed_slot ipv6 = (if ipv6 then Seeders6 else Seeders)"

definition add_to_slot ::
  "env \<Rightarrow> config \<Rightarrow> (string \<rightharpoonup> nat) \<Rightarrow> request \<Rightarrow> bool \<Rightarrow> slot \<Rightarrow> work \<Rightarrow> work res" where
  "add_to_slot e cfg um req ipv6 sl w =
    bindE (addPeer e cfg um req (t_id (w_tor w)) ipv6 (get_slot sl (w_tor w), w_stats w)) (\<lambda>(ps, st).
      Inr (w\<lparr>w_tor := set_slot sl ps (w_tor w), w_stats := st\<rparr>))"

text \<open>The free leech percentage that applies, and the row for a token in use.\<close>

definition free_rate ::
  "env \<Rightarrow> config \<Rightarrow> leech_status \<Rightarrow> request \<Rightarrow> peer_ptr \<Rightarrow> work \<Rightarrow> (int \<times> work) res" where
  "free_rate e cfg ls req pp w =
    (if is_private cfg then
       bindE (peer_at pp (w_tor w)) (\<lambda>p.
       bindE (deref (w_users w) (p_user p)) (\<lambda>u.
       let tid = t_id (w_tor w);
           free = (if ls = FREELEECH then 100 else int (unat (t_free (w_tor w))))
       in if hasToken tid u then
            bindE (bindE (at_key req ''downloaded'') stoul) (\<lambda>d.
              Inr (100, w\<lparr>w_db := recordToken (u_id u) tid (ucast (p_totalDownloaded p - d))
                     (isTokenExpired (e_now_token e) tid u) (w_db w)\<rparr>))
          else Inr (free, w)))
     else Inr (0, w))"

definition mark_completed :: "peer_ptr \<Rightarrow> work \<Rightarrow> work res" where
  "mark_completed pp w =
    bindE (peer_at pp (w_tor w)) (\<lambda>p.
      Inr (w\<lparr>w_tor := incSnatches (update_peer pp (complete p) (w_tor w))\<rparr>))"

text \<open>\<open>if (left != "0" || event == "completed")\<close>\<close>

definition leech_block ::
  "env \<Rightarrow> config \<Rightarrow> leech_status \<Rightarrow> (string \<rightharpoonup> nat) \<Rightarrow> request \<Rightarrow> string \<Rightarrow> string \<Rightarrow> bool \<Rightarrow> work \<Rightarrow>
    (peer_ptr \<times> int \<times> work) res" where
  "leech_block e cfg ls um req pid event ipv6 w =
    (let pp = (leech_slot ipv6, pid) in
     bindE (if getPeer pid (get_slot (leech_slot ipv6) (w_tor w)) = None
            then add_to_slot e cfg um req ipv6 (leech_slot ipv6) w else Inr w) (\<lambda>w1.
     bindE (free_rate e cfg ls req pp w1) (\<lambda>(free, w2).
     bindE (if event = ''completed'' then mark_completed pp w2 else Inr w2) (\<lambda>w3.
       Inr (pp, free, w3)))))"

text \<open>
  \<open>if (left == "0")\<close>. Both branches of the second lookup of the code read the IPv4
  leechers.
\<close>

definition seed_block ::
  "env \<Rightarrow> config \<Rightarrow> (string \<rightharpoonup> nat) \<Rightarrow> request \<Rightarrow> string \<Rightarrow> bool \<Rightarrow> work \<Rightarrow> (peer_ptr \<times> work) res" where
  "seed_block e cfg um req pid ipv6 w =
    (if getPeer pid (get_slot (seed_slot ipv6) (w_tor w)) \<noteq> None then Inr ((seed_slot ipv6, pid), w)
     else if getPeer pid (get_slot Leechers (w_tor w)) \<noteq> None then Inr ((Leechers, pid), w)
     else bindE (add_to_slot e cfg um req ipv6 (seed_slot ipv6) w) (\<lambda>w'.
            Inr ((seed_slot ipv6, pid), w')))"

definition find_peer ::
  "env \<Rightarrow> config \<Rightarrow> leech_status \<Rightarrow> (string \<rightharpoonup> nat) \<Rightarrow> request \<Rightarrow> string \<Rightarrow> string \<Rightarrow> string \<Rightarrow> bool \<Rightarrow> work \<Rightarrow>
    (peer_ptr \<times> int \<times> work) res" where
  "find_peer e cfg ls um req pid left event ipv6 w =
    bindE (if left \<noteq> ''0'' \<or> event = ''completed''
           then bindE (leech_block e cfg ls um req pid event ipv6 w) (\<lambda>(pp, free, w'). Inr (Some pp, free, w'))
           else Inr (None, 0, w)) (\<lambda>(pp1, free, w1).
    bindE (if left = ''0''
           then bindE (seed_block e cfg um req pid ipv6 w1) (\<lambda>(pp, w'). Inr (Some pp, w'))
           else Inr (pp1, w1)) (\<lambda>(pp2, w2).
      case pp2 of None \<Rightarrow> Inl (UB Null_pointer) | Some pp \<Rightarrow> Inr (pp, free, w2)))"

definition mark_stopped :: "peer_ptr \<Rightarrow> string \<Rightarrow> work \<Rightarrow> work res" where
  "mark_stopped pp event w =
    (if event = ''stopped'' then
       bindE (peer_at pp (w_tor w)) (\<lambda>p. Inr (w\<lparr>w_tor := update_peer pp (inactive p) (w_tor w)\<rparr>))
     else Inr w)"

definition number :: "request \<Rightarrow> string \<Rightarrow> u64 res" where
  "number req key = bindE (at_key req key) stoul"

text \<open>
  The accounting of a private tracker. \<open>balance\<close> is a \<open>long\<close> that starts at 0; the other
  operand of its three compound assignments is \<open>unsigned long\<close>, so each computes modulo
  \<open>2^64\<close> and converts the result to \<open>long\<close>, and only the last of these conversions shows.
  \<open>corrupt\<close> is an \<open>unsigned long\<close> that \<open>updateStats\<close> truncates; the corrupt count of the peer
  is read before it is written; \<open>free / 100\<close> is an integer division.
\<close>

definition update_amounts ::
  "env \<Rightarrow> config \<Rightarrow> request \<Rightarrow> u64 \<Rightarrow> int \<Rightarrow> peer_ptr \<Rightarrow> work \<Rightarrow> (int \<times> work) res" where
  "update_amounts e cfg req corrupt free pp w =
    (if is_private cfg then
       bindE (peer_at pp (w_tor w)) (\<lambda>p.
       bindE (getCorrupt p) (\<lambda>known.
       bindE (number req ''downloaded'') (\<lambda>d.
       bindE (number req ''uploaded'') (\<lambda>u.
       bindE (number req ''left'') (\<lambda>l.
         let ps = peer_updateStats (d * word_of_int (1 - free div 100)) u l (ucast corrupt) (e_now e) (p, w_stats w);
             balance = 0 - (ucast known - corrupt) - p_downloaded (fst ps) + p_uploaded (fst ps)
         in Inr (sint balance, w\<lparr>w_tor := update_peer pp (fst ps) (w_tor w), w_stats := snd ps\<rparr>))))))
     else Inr (0, w))"

text \<open>\<open>tor->setBalance(balance)\<close>\<close>

definition balance_block :: "int \<Rightarrow> work \<Rightarrow> work res" where
  "balance_block balance w = bindE (setBalance balance (w_tor w)) (\<lambda>t. Inr (w\<lparr>w_tor := t\<rparr>))"

definition record_peer_block :: "config \<Rightarrow> peer_ptr \<Rightarrow> work \<Rightarrow> work res" where
  "record_peer_block cfg pp w =
    (if \<not> is_public cfg then
       bindE (peer_at pp (w_tor w)) (\<lambda>p.
       bindE (recordPeer cfg (w_users w) (p, w_db w)) (\<lambda>(p', d').
         Inr (w\<lparr>w_tor := update_peer pp p' (w_tor w), w_db := d'\<rparr>)))
     else Inr w)"

definition record_user_block :: "config \<Rightarrow> peer_ptr \<Rightarrow> work \<Rightarrow> work res" where
  "record_user_block cfg pp w =
    (if is_private cfg then
       bindE (peer_at pp (w_tor w)) (\<lambda>p.
       bindE (modify (p_user p) (user_updateStats (ucast (p_downloaded p)) (ucast (p_uploaded p))) (w_users w)) (\<lambda>h.
       bindE (recordUser (p_user p) (h, w_db w)) (\<lambda>(h', d').
         Inr (w\<lparr>w_users := h', w_db := d'\<rparr>))))
     else Inr w)"

definition remove_from :: "request \<Rightarrow> slot \<Rightarrow> work \<Rightarrow> work res" where
  "remove_from req sl w =
    bindE (removePeer req (get_slot sl (w_tor w), w_stats w)) (\<lambda>(ps, st).
      Inr (w\<lparr>w_tor := set_slot sl ps (w_tor w), w_stats := st\<rparr>))"

text \<open>
  A stopped peer leaves the table its \<open>left\<close> names; a completed one is removed from the
  leechers of the other address family.
\<close>

definition removal_block :: "request \<Rightarrow> string \<Rightarrow> string \<Rightarrow> bool \<Rightarrow> work \<Rightarrow> work res" where
  "removal_block req left event ipv6 w =
    bindE (if event = ''stopped''
           then remove_from req (if left \<noteq> ''0'' then leech_slot ipv6 else seed_slot ipv6) w
           else Inr w) (\<lambda>w1.
    if event = ''completed''
    then remove_from req (if ipv6 then Leechers else Leechers6) w1
    else Inr w1)"

definition record_torrent_block :: "config \<Rightarrow> work \<Rightarrow> work" where
  "record_torrent_block cfg w =
    (if \<not> is_public cfg then w\<lparr>w_db := recordTorrent (w_tor w) (w_db w)\<rparr> else w)"

section \<open>The reply\<close>

definition numwant_of :: "config \<Rightarrow> request \<Rightarrow> int" where
  "numwant_of cfg req =
    (case bindE (at_key req ''numwant'') stoi of Inr i \<Rightarrow> i | Inl _ \<Rightarrow> getInt cfg ''default_numwant'')"

definition list_slot :: "string \<Rightarrow> bool \<Rightarrow> slot" where
  "list_slot left ipv6 = (if left = ''0'' then leech_slot ipv6 else seed_slot ipv6)"

text \<open>How many IPv4 and IPv6 peers the reply lists.\<close>

definition list_lengths :: "config \<Rightarrow> request \<Rightarrow> string \<Rightarrow> string \<Rightarrow> bool \<Rightarrow> torrent \<Rightarrow> int \<times> int" where
  "list_lengths cfg req left event ipv6 t =
    (if event \<noteq> ''stopped'' then
       (let i = min (min (numwant_of cfg req) (getInt cfg ''max_numwant''))
                  (int (peers_size (get_slot (list_slot left False) t)));
            j = (if ipv6 then min (min i (getInt cfg ''max_numwant''))
                  (int (peers_size (get_slot (list_slot left True) t))) else 0)
        in (i - j, j))
     else (0, 0))"

definition list_peers :: "slot \<Rightarrow> int \<Rightarrow> bool \<Rightarrow> bool \<Rightarrow> torrent \<Rightarrow> (string \<times> torrent) res" where
  "list_peers sl n ipv6 is_compact t =
    bindE (getPeers (get_slot sl t) n ipv6 is_compact) (\<lambda>(str, ps). Inr (str, set_slot sl ps t))"

definition announce_body :: "config \<Rightarrow> torrent \<Rightarrow> string \<Rightarrow> string \<Rightarrow> string" where
  "announce_body cfg t peerlist6 peerlist =
    ''d8:completei'' @ show_nat (seeder_count t) @
    ''e10:incompletei'' @ show_nat (leecher_count t) @
    ''e10:downloadedi'' @ to_string (t_snatches t) @
    ''e8:intervali'' @ get cfg ''default_announce_interval'' @
    ''e12:min intervali'' @ get cfg ''min_announce_interval'' @
    ''e'' @ peerlist6 @ peerlist @ ''e''"

definition wants_gzip :: "request \<Rightarrow> int \<Rightarrow> int \<Rightarrow> bool res" where
  "wants_gzip req i j =
    (case req ''accept-encoding'' of None \<Rightarrow> Inr False
     | Some enc \<Rightarrow>
         if contains_str ''gzip'' enc
         then bindE (int_range (i * 6)) (\<lambda>a. bindE (int_range (j * 18)) (\<lambda>b.
                bindE (int_range (a + b)) (\<lambda>n. Inr (n > 100))))
         else Inr False)"

definition reply_block ::
  "config \<Rightarrow> request \<Rightarrow> string \<Rightarrow> string \<Rightarrow> bool \<Rightarrow> torrent \<Rightarrow> (string \<times> torrent) res" where
  "reply_block cfg req left event ipv6 t =
    (let is_compact = (req ''compact'' \<noteq> Some ''0'');
         (i, j) = list_lengths cfg req left event ipv6 t in
     bindE (if j > 0 then list_peers (list_slot left True) j True is_compact t else Inr ('''', t)) (\<lambda>(peerlist6, t1).
     bindE (list_peers (list_slot left False) i False is_compact t1) (\<lambda>(peerlist, t2).
     bindE (wants_gzip req i j) (\<lambda>gzip.
       Inr (response (announce_body cfg t2 peerlist6 peerlist) gzip, t2)))))"

section \<open>The whole announce\<close>

definition corrupt_of :: "request \<Rightarrow> u64" where
  "corrupt_of req = (case number req ''corrupt'' of Inr c \<Rightarrow> c | Inl _ \<Rightarrow> 0)"

definition announce_work ::
  "env \<Rightarrow> config \<Rightarrow> leech_status \<Rightarrow> (string \<rightharpoonup> nat) \<Rightarrow> request \<Rightarrow> string \<Rightarrow> bool \<Rightarrow> work \<Rightarrow> (string \<times> work) res" where
  "announce_work e cfg ls um req event ipv6 w =
    bindE (at_key req ''left'') (\<lambda>left.
    bindE (at_key req ''peer_id'') (\<lambda>pid.
    bindE (find_peer e cfg ls um req pid left event ipv6 w) (\<lambda>(pp, free, w1).
    bindE (mark_stopped pp event w1) (\<lambda>w2.
    bindE (update_amounts e cfg req (corrupt_of req) free pp w2) (\<lambda>(balance, w3).
    bindE (balance_block balance w3) (\<lambda>wb.
    bindE (record_peer_block cfg pp wb) (\<lambda>w4.
    bindE (record_user_block cfg pp w4) (\<lambda>w5.
    bindE (removal_block req left event ipv6 w5) (\<lambda>w6.
    let w7 = record_torrent_block cfg w6 in
    bindE (reply_block cfg req left event ipv6 (w_tor w7)) (\<lambda>(reply, t).
      Inr (reply, w7\<lparr>w_tor := t\<rparr>)))))))))))"

text \<open>
  A public tracker creates the torrent on its first announce; its number is the torrent
  count at that moment, truncated to \<open>unsigned int\<close>.
\<close>

definition create_if_public :: "config \<Rightarrow> string \<Rightarrow> tracker \<Rightarrow> tracker" where
  "create_if_public cfg infoHash s =
    (if is_public cfg \<and> map_of (torMap s) infoHash = None then
       s\<lparr>torMap := om_emplace infoHash (new_torrent (ucast (st_torrents (statistics s))) 0 0 0) (torMap s),
         statistics := incTorrents (statistics s)\<rparr>
     else s)"

definition start_work :: "torrent \<Rightarrow> tracker \<Rightarrow> work" where
  "start_work t s = \<lparr>w_tor = t, w_users = accounts s, w_stats = statistics s, w_db = dbase s\<rparr>"

definition finish_work :: "string \<Rightarrow> work \<Rightarrow> tracker \<Rightarrow> tracker" where
  "finish_work infoHash w s =
    s\<lparr>torMap := AList.update infoHash (w_tor w) (torMap s), accounts := w_users w,
      statistics := w_stats w, dbase := w_db w\<rparr>"

definition announce :: "env \<Rightarrow> config \<Rightarrow> request \<Rightarrow> string \<Rightarrow> bool \<Rightarrow> tracker \<Rightarrow> (string \<times> tracker) res" where
  "announce e cfg req infoHash ipv6 s =
    bindE (at_key req ''event'') (\<lambda>event.
    bindE (if clientWhitelist s \<noteq> []
           then bindE (at_key req ''peer_id'') (\<lambda>pid. Inr (whitelisted (clientWhitelist s) pid))
           else Inr True) (\<lambda>allowed.
    if \<not> allowed then Inr (error ''client not in whitelist'', s)
    else
      let s1 = create_if_public cfg infoHash s in
      case map_of (torMap s1) infoHash of
        None \<Rightarrow> Inr (error ''torrent not found'', s1)
      | Some t \<Rightarrow>
          bindE (if is_private cfg
                 then bindE (at_key req ''reqpasskey'') (\<lambda>k. bindE (deref (accounts s1) (getUser k s1)) (\<lambda>u.
                        Inr (u_authorized u)))
                 else Inr True) (\<lambda>authorized.
          if \<not> authorized then Inr (error ''user unauthorized'', s1)
          else
            bindE (announce_work e cfg (leechStatus s1) (usrMap s1) req event ipv6 (start_work t s1)) (\<lambda>(reply, w).
              Inr (reply, finish_work infoHash w s1)))))"

section \<open>Scrape\<close>

text \<open>The \<open>incomplete\<close> figure adds the IPv4 leechers to themselves, as the code does.\<close>

fun scrape_files :: "(string \<times> torrent) list \<Rightarrow> string list \<Rightarrow> string" where
  "scrape_files tm [] = ''''"
| "scrape_files tm (infoHash # hs) =
     (case map_of tm infoHash of
        None \<Rightarrow> ''''
      | Some t \<Rightarrow>
          bstring infoHash @ ''d8:completei'' @
          show_nat (peers_size (t_seeders t) + peers_size (t_seeders6 t)) @ ''e10:incompletei'' @
          show_nat (peers_size (t_leechers t) + peers_size (t_leechers t)) @ ''e10:downloadedi'' @
          to_string (t_snatches t) @ ''ee'') @
     scrape_files tm hs"

definition scrape :: "string list \<Rightarrow> tracker \<Rightarrow> string" where
  "scrape infoHashes s = response (''d5:filesd'' @ scrape_files (torMap s) infoHashes @ ''ee'') False"

section \<open>Properties\<close>

text \<open>A half-price torrent (\<open>free = 50\<close>, or any percentage below 100) is accounted like a
  full-price one, because \<open>free/100\<close> is an integer division.\<close>

theorem partial_freeleech_has_no_effect:
  assumes "0 \<le> free" and "free < 100"
  shows "update_amounts e cfg req corrupt free pp w = update_amounts e cfg req corrupt 0 pp w"
proof -
  have "free div 100 = 0" using assms by simp
  then show ?thesis by (simp add: update_amounts_def)
qed

lemma peer_at_update: "peer_at (sl, k) (update_peer (sl, k) p t) = Inr p"
  by (simp add: peer_at_Inr)

text \<open>With full freeleech the announced total is multiplied by zero: the peer is charged
  \<open>0 - total\<close>, which wraps below zero, and its remembered total falls to zero.\<close>

theorem full_freeleech_wraps:
  assumes "is_private cfg" and "peer_at (sl, k) (w_tor w) = Inr p" and "p_corrupt p \<noteq> None"
    and "number req ''downloaded'' = Inr d" and "number req ''uploaded'' = Inr u" and "number req ''left'' = Inr l"
  shows "\<exists>b w' q. update_amounts e cfg req corrupt 100 (sl, k) w = Inr (b, w') \<and>
    peer_at (sl, k) (w_tor w') = Inr q \<and> p_downloaded q = 0 - p_totalDownloaded p \<and> p_totalDownloaded q = 0"
  using assms by (auto simp: update_amounts_def Let_def peer_at_update)

definition sample_request :: request where
  "sample_request = map_of [(''action'', ''announce''), (''reqpasskey'', ''key''), (''peer_id'', ''b''), (''ip'', ''10.0.0.1''), (''port'', ''80''),
     (''left'', ''1''), (''downloaded'', ''7''), (''uploaded'', ''2''), (''user-agent'', ''c''), (''event'', ''updating''),
     (''numwant'', ''2'')]"

definition sample_torrent :: torrent where
  "sample_torrent = (new_torrent 7 0 3 0)\<lparr>t_leechers := sample_peers End\<rparr>"

definition sample_work :: work where
  "sample_work = \<lparr>w_tor = sample_torrent, w_users = [new_user 1 True], w_stats = init_stats, w_db = empty_db\<rparr>"

lemma default_type [simp]: "get default_config ''type'' = ''private''"
  by code_simp

lemma default_kind [simp]: "is_private default_config" "\<not> is_public default_config"
  by (simp_all add: is_private_def is_public_def)

lemma sample_request_simps [simp]:
  "sample_request ''action'' = Some ''announce''" "sample_request ''reqpasskey'' = Some ''key''"
  "sample_request ''peer_id'' = Some ''b''" "sample_request ''ip'' = Some ''10.0.0.1''"
  "sample_request ''port'' = Some ''80''" "sample_request ''left'' = Some ''1''"
  "sample_request ''downloaded'' = Some ''7''" "sample_request ''uploaded'' = Some ''2''"
  "sample_request ''user-agent'' = Some ''c''" "sample_request ''event'' = Some ''updating''"
  "sample_request ''numwant'' = Some ''2''" "sample_request ''compact'' = None"
  "sample_request ''corrupt'' = None" "sample_request ''accept-encoding'' = None"
  by (simp_all add: sample_request_def)

lemma sample_numbers [simp]:
  "stoul ''7'' = Inr 7" "stoul ''2'' = Inr 2" "stoul ''1'' = Inr 1" "stoi ''80'' = Inr 80" "stoi ''2'' = Inr 2"
  by (simp_all add: stoul_def stoi_def scan_number_def isspace_def isdigit_iff read_digits_def digit_value_def)

definition sample_env :: env where
  "sample_env = \<lparr>e_now = 100, e_now_peer = 100, e_now_token = 100,
     e_pton = (\<lambda>ipv6 ip. replicate (addr_size ipv6) (CHR ''a'')), e_corrupt = Some 0, e_order = length, e_logging = True\<rparr>"

lemma sample_env_ok: "pton_ok (e_pton sample_env)"
  by (simp add: sample_env_def pton_ok_def)

lemma partial_freeleech_has_no_effect_witness:
  "update_amounts sample_env default_config sample_request 0 50 (Leechers, ''b'') sample_work =
    update_amounts sample_env default_config sample_request 0 0 (Leechers, ''b'') sample_work"
  by (rule partial_freeleech_has_no_effect) simp_all

lemma sample_peer_at: "peer_at (Leechers, ''b'') (w_tor sample_work) = Inr (sample_peer ''b'')"
  by (simp add: peer_at_Inr sample_work_def sample_torrent_def sample_peers_def getPeer_def)

lemma full_freeleech_wraps_witness:
  "\<exists>b w' q. update_amounts sample_env default_config sample_request 0 100 (Leechers, ''b'') sample_work = Inr (b, w') \<and>
    peer_at (Leechers, ''b'') (w_tor w') = Inr q \<and> p_downloaded q = 0 - p_totalDownloaded (sample_peer ''b'') \<and>
    p_totalDownloaded q = 0"
  by (rule full_freeleech_wraps [where d = 7 and u = 2 and l = 1, OF _ sample_peer_at]) (simp_all add: number_def sample_peer_def)

end
