(* ===== verification/AnnounceInv.thy ===== *)
theory AnnounceInv
  imports Announce
begin

text \<open>
  The invariant of the tracker and its preservation by announce, block by block; under the
  conditions a parsed request meets, no block of an announce dereferences a null pointer or
  throws.
\<close>

section \<open>The invariant\<close>

definition tracker_ok :: "config \<Rightarrow> tracker \<Rightarrow> bool" where
  "tracker_ok cfg s \<longleftrightarrow>
    om_wf (torMap s) \<and>
    (\<forall>(h, t) \<in> set (torMap s). torrent_ok (is_private cfg) (accounts s) t) \<and>
    (\<forall>k a. usrMap s k = Some a \<longrightarrow> a < length (accounts s))"

definition work_ok :: "config \<Rightarrow> work \<Rightarrow> bool" where
  "work_ok cfg w \<longleftrightarrow> torrent_ok (is_private cfg) (w_users w) (w_tor w)"

text \<open>A step of an announce keeps the invariant and neither adds nor drops accounts.\<close>

definition keeps_work :: "config \<Rightarrow> work \<Rightarrow> work \<Rightarrow> bool" where
  "keeps_work cfg w w' \<longleftrightarrow>
    (work_ok cfg w \<longrightarrow> work_ok cfg w') \<and> length (w_users w') = length (w_users w)"

definition passkey_ok :: "config \<Rightarrow> (string \<rightharpoonup> nat) \<Rightarrow> request \<Rightarrow> nat \<Rightarrow> bool" where
  "passkey_ok cfg um req n \<longleftrightarrow>
    (is_private cfg \<longrightarrow> (\<forall>k. req ''reqpasskey'' = Some k \<longrightarrow> (\<exists>a. um k = Some a \<and> a < n)))"

lemma keeps_work_refl [simp, intro]: "keeps_work cfg w w"
  by (simp add: keeps_work_def)

lemma keeps_work_trans: "keeps_work cfg w w' \<Longrightarrow> keeps_work cfg w' w'' \<Longrightarrow> keeps_work cfg w w''"
  by (simp add: keeps_work_def)

lemma keeps_workI:
  "(work_ok cfg w \<Longrightarrow> torrent_ok (is_private cfg) (w_users w) (w_tor w')) \<Longrightarrow>
    length (w_users w') = length (w_users w) \<Longrightarrow> keeps_work cfg w w'"
  by (auto simp: keeps_work_def work_ok_def intro: torrent_ok_heap)

lemma work_ok_length:
  "keeps_work cfg w w' \<Longrightarrow> length (w_users w') = length (w_users w)"
  by (simp add: keeps_work_def)

lemma slot_ipv6_simps [simp]:
  "slot_ipv6 (leech_slot ipv6) = ipv6" "slot_ipv6 (seed_slot ipv6) = ipv6"
  "slot_ipv6 (list_slot left ipv6) = ipv6"
  by (simp_all add: leech_slot_def seed_slot_def list_slot_def)

section \<open>Each block keeps it\<close>

lemma add_to_slot_keeps [keeps]:
  assumes r: "add_to_slot e cfg um req (slot_ipv6 sl) sl w = Inr w'" and pton: "pton_ok (e_pton e)"
    and pk: "passkey_ok cfg um req (length (w_users w))"
  shows "keeps_work cfg w w'"
proof -
  from r obtain ps st where a: "addPeer e cfg um req (t_id (w_tor w)) (slot_ipv6 sl)
      (get_slot sl (w_tor w), w_stats w) = Inr (ps, st)"
    and w': "w' = w\<lparr>w_tor := set_slot sl ps (w_tor w), w_stats := st\<rparr>"
    by (auto simp: add_to_slot_def)
  have "peers_ok (is_private cfg) (slot_ipv6 sl) (w_users w) ps" if "work_ok cfg w"
    using addPeer_ok [OF a _ pton, folded is_private_def] torrent_ok_slot that pk
    by (fastforce simp: work_ok_def passkey_ok_def)
  then show ?thesis
    by (intro keeps_workI) (auto simp: w' work_ok_def intro: torrent_ok_set_slot)
qed

lemma update_peer_keeps:
  assumes "peer_at pp (w_tor w) = Inr p"
    and "peer_ok (is_private cfg) (slot_ipv6 (fst pp)) (w_users w) p \<Longrightarrow>
      peer_ok (is_private cfg) (slot_ipv6 (fst pp)) (w_users w) q"
    and "p_peerID q = p_peerID p"
  shows "work_ok cfg w \<Longrightarrow> torrent_ok (is_private cfg) (w_users w) (update_peer pp q (w_tor w))"
  using assms peers_ok_getPeer [OF torrent_ok_slot, of "is_private cfg" "w_users w" "w_tor w" "snd pp" "fst pp"]
  by (cases pp) (auto simp: work_ok_def peer_at_Inr intro!: torrent_ok_update_peer)

lemma peer_ID_simps [simp]:
  "p_peerID (complete p) = p_peerID p" "p_peerID (inactive p) = p_peerID p"
  "p_peerID (snd (getTimespent p)) = p_peerID p"
  by (simp_all add: complete_def inactive_def getTimespent_def)

lemma free_rate_keeps [keeps]: "free_rate e cfg ls req pp w = Inr (free, w') \<Longrightarrow> keeps_work cfg w w'"
  by (auto simp: free_rate_def Let_def keeps_work_def work_ok_def split: if_splits)

lemma mark_completed_keeps [keeps]:
  "mark_completed pp w = Inr w' \<Longrightarrow> keeps_work cfg w w'"
  by (auto simp: mark_completed_def intro!: keeps_workI update_peer_keeps)

lemma leech_block_keeps [keeps]:
  assumes "leech_block e cfg ls um req pid event ipv6 w = Inr (pp, free, w')" and "pton_ok (e_pton e)"
    and "passkey_ok cfg um req (length (w_users w))"
  shows "keeps_work cfg w w'"
proof -
  from assms(1) obtain w1 w2 where
    w1: "(if getPeer pid (get_slot (leech_slot ipv6) (w_tor w)) = None
            then add_to_slot e cfg um req ipv6 (leech_slot ipv6) w else Inr w) = Inr w1" and
    w2: "free_rate e cfg ls req (leech_slot ipv6, pid) w1 = Inr (free, w2)" and
    w3: "(if event = ''completed'' then mark_completed (leech_slot ipv6, pid) w2 else Inr w2) = Inr w'"
    by (auto simp: leech_block_def Let_def)
  have "keeps_work cfg w w1"
    using w1 add_to_slot_keeps [of e cfg um req "leech_slot ipv6" w w1] assms(2,3) by (auto split: if_splits)
  moreover have "keeps_work cfg w2 w'"
    using w3 mark_completed_keeps by (auto split: if_splits)
  ultimately show ?thesis
    using free_rate_keeps [OF w2] keeps_work_trans by blast
qed

lemma seed_block_keeps [keeps]:
  assumes "seed_block e cfg um req pid ipv6 w = Inr (pp, w')" and "pton_ok (e_pton e)"
    and "passkey_ok cfg um req (length (w_users w))"
  shows "keeps_work cfg w w'"
  using assms add_to_slot_keeps [of e cfg um req "seed_slot ipv6" w w']
  by (auto simp: seed_block_def split: if_splits)

lemma find_peer_keeps [keeps]:
  assumes f: "find_peer e cfg ls um req pid left event ipv6 w = Inr (pp, free, w')" and pton: "pton_ok (e_pton e)"
    and pk: "passkey_ok cfg um req (length (w_users w))"
  shows "keeps_work cfg w w'"
proof -
  from f obtain pp1 free1 w1 where
    a: "(if left \<noteq> ''0'' \<or> event = ''completed''
           then bindE (leech_block e cfg ls um req pid event ipv6 w) (\<lambda>(pp, free, w'). Inr (Some pp, free, w'))
           else Inr (None, 0, w)) = Inr (pp1, free1, w1)" and
    b: "\<exists>pp2. (if left = ''0''
           then bindE (seed_block e cfg um req pid ipv6 w1) (\<lambda>(pp, w'). Inr (Some pp, w'))
           else Inr (pp1, w1)) = Inr (pp2, w')"
    unfolding find_peer_def
    by (auto split: option.splits simp del: bindE_simps)
  have k1: "keeps_work cfg w w1"
    using a leech_block_keeps [OF _ pton pk] by (auto split: if_splits)
  moreover have "keeps_work cfg w1 w'"
    using b seed_block_keeps [OF _ pton] pk work_ok_length [OF k1] by (auto split: if_splits)
  ultimately show ?thesis by (rule keeps_work_trans)
qed

lemma mark_stopped_keeps [keeps]: "mark_stopped pp event w = Inr w' \<Longrightarrow> keeps_work cfg w w'"
  by (auto simp: mark_stopped_def intro!: keeps_workI update_peer_keeps split: if_splits)

lemma update_amounts_keeps [keeps]:
  assumes "update_amounts e cfg req corrupt free pp w = Inr (balance, w')"
  shows "keeps_work cfg w w'"
proof (cases "is_private cfg")
  case True
  with assms obtain p d u l where p: "peer_at pp (w_tor w) = Inr p" and
    w': "w' = w\<lparr>w_tor := update_peer pp (fst (peer_updateStats d u l (ucast corrupt) (e_now e) (p, w_stats w))) (w_tor w),
      w_stats := snd (peer_updateStats d u l (ucast corrupt) (e_now e) (p, w_stats w))\<rparr>"
    by (auto simp: update_amounts_def Let_def simp del: peer_updateStats_fields)
  show ?thesis
    unfolding w' by (intro keeps_workI) (auto intro!: update_peer_keeps [OF p] peer_ok_updateStats)
next
  case False
  with assms show ?thesis by (simp add: update_amounts_def)
qed

lemma balance_block_Inr:
  "balance_block b w = Inr w' \<Longrightarrow> w' = w\<lparr>w_tor := (w_tor w)\<lparr>t_balance := t_balance (w_tor w) + b\<rparr>\<rparr>"
  by (auto simp: balance_block_def setBalance_Inr)

lemma balance_block_keeps [keeps]: "balance_block b w = Inr w' \<Longrightarrow> keeps_work cfg w w'"
  by (auto dest!: balance_block_Inr simp: keeps_work_def work_ok_def)

lemma record_peer_block_keeps [keeps]:
  assumes "record_peer_block cfg pp w = Inr w'" shows "keeps_work cfg w w'"
  using assms
  by (auto simp: record_peer_block_def intro!: keeps_workI update_peer_keeps split: if_splits
      dest!: recordPeer_Inr)

lemma record_user_block_keeps [keeps]:
  assumes "record_user_block cfg pp w = Inr w'" shows "keeps_work cfg w w'"
  using assms
  by (auto simp: record_user_block_def work_ok_def intro!: keeps_workI split: if_splits
      dest!: modify_length recordUser_length)

lemma remove_from_keeps [keeps]:
  assumes "remove_from req sl w = Inr w'" shows "keeps_work cfg w w'"
proof -
  from assms obtain k where w': "w' = w\<lparr>w_tor := set_slot sl (if getPeer k (get_slot sl (w_tor w)) = None
      then get_slot sl (w_tor w) else erase_peer k (get_slot sl (w_tor w))) (w_tor w), w_stats := decPeers (w_stats w)\<rparr>"
    by (auto simp: remove_from_def removePeer_def)
  have "torrent_ok (is_private cfg) (w_users w) (w_tor w')" if "work_ok cfg w"
    using that torrent_ok_slot [of "is_private cfg" "w_users w" "w_tor w" sl]
    by (auto simp: w' work_ok_def intro!: torrent_ok_set_slot erase_peer_ok)
  then show ?thesis by (intro keeps_workI) (simp_all add: w')
qed

lemma removal_block_keeps [keeps]:
  assumes "removal_block req left event ipv6 w = Inr w'" shows "keeps_work cfg w w'"
proof -
  from assms obtain w1 where
    a: "(if event = ''stopped''
           then remove_from req (if left \<noteq> ''0'' then leech_slot ipv6 else seed_slot ipv6) w
           else Inr w) = Inr w1" and
    b: "(if event = ''completed'' then remove_from req (if ipv6 then Leechers else Leechers6) w1
        else Inr w1) = Inr w'"
    by (auto simp: removal_block_def)
  have "keeps_work cfg w w1" using a remove_from_keeps by (auto split: if_splits)
  moreover have "keeps_work cfg w1 w'" using b remove_from_keeps by (auto split: if_splits)
  ultimately show ?thesis by (rule keeps_work_trans)
qed

lemma record_torrent_block_keeps [keeps]: "keeps_work cfg w (record_torrent_block cfg w)"
  by (simp add: record_torrent_block_def keeps_work_def work_ok_def)

lemma nextPeer_pMap: "nextPeer ps = Inr (p, ps') \<Longrightarrow> pMap ps' = pMap ps"
  by (auto simp: nextPeer_def split: list.splits cursor.splits option.splits)

lemma getPeers_loop_pMap: "getPeers_loop c n str ps = Inr (str', ps') \<Longrightarrow> pMap ps' = pMap ps"
  by (induction n arbitrary: str ps) (auto dest: nextPeer_pMap)

lemma getPeers_pMap: "getPeers ps n ipv6 c = Inr (str, ps') \<Longrightarrow> pMap ps' = pMap ps"
  by (auto simp: getPeers_def Let_def dest: getPeers_loop_pMap)

lemma peers_ok_pMap: "pMap ps' = pMap ps \<Longrightarrow> peers_ok private ipv6 h ps' = peers_ok private ipv6 h ps"
  by (simp add: peers_ok_def)

lemma list_peers_ok [keeps]:
  assumes "list_peers sl n ipv6 c t = Inr (str, t')" and "torrent_ok private h t"
  shows "torrent_ok private h t'"
  using assms torrent_ok_slot [OF assms(2), of sl]
  by (auto simp: list_peers_def peers_ok_pMap [OF getPeers_pMap] intro!: torrent_ok_set_slot)

lemma reply_block_parts:
  assumes "reply_block cfg req left event ipv6 t = Inr (reply, t')"
  obtains peerlist6 peerlist t1 i j g where "list_lengths cfg req left event ipv6 t = (i, j)"
    and "(if j > 0 then list_peers (list_slot left True) j True (req ''compact'' \<noteq> Some ''0'') t
          else Inr ('''', t)) = Inr (peerlist6, t1)"
    and "list_peers (list_slot left False) i False (req ''compact'' \<noteq> Some ''0'') t1 = Inr (peerlist, t')"
    and "reply = response (announce_body cfg t' peerlist6 peerlist) g"
  using assms by (auto simp: reply_block_def Let_def split: prod.splits)

lemma reply_block_ok [keeps]:
  assumes "reply_block cfg req left event ipv6 t = Inr (reply, t')" and "torrent_ok private h t"
  shows "torrent_ok private h t'"
  using assms(1)
proof (rule reply_block_parts)
  fix peerlist6 peerlist t1 i j g
  assume a: "(if j > 0 then list_peers (list_slot left True) j True (req ''compact'' \<noteq> Some ''0'') t
          else Inr ('''', t)) = Inr (peerlist6, t1)"
    and b: "list_peers (list_slot left False) i False (req ''compact'' \<noteq> Some ''0'') t1 = Inr (peerlist, t')"
  have "torrent_ok private h t1" using a assms(2) list_peers_ok by (auto split: if_splits)
  with b show ?thesis by (rule list_peers_ok)
qed

lemma announce_work_parts:
  assumes "announce_work e cfg ls um req event ipv6 w = Inr (reply, w')"
  obtains left pid pp free balance w1 w2 w3 wb w4 w5 w6 t where
    "req ''left'' = Some left" "req ''peer_id'' = Some pid"
    "find_peer e cfg ls um req pid left event ipv6 w = Inr (pp, free, w1)"
    "mark_stopped pp event w1 = Inr w2"
    "update_amounts e cfg req (corrupt_of req) free pp w2 = Inr (balance, w3)"
    "balance_block balance w3 = Inr wb" "record_peer_block cfg pp wb = Inr w4"
    "record_user_block cfg pp w4 = Inr w5" "removal_block req left event ipv6 w5 = Inr w6"
    "reply_block cfg req left event ipv6 (w_tor (record_torrent_block cfg w6)) = Inr (reply, t)"
    "w' = (record_torrent_block cfg w6)\<lparr>w_tor := t\<rparr>"
  using assms by (auto simp: announce_work_def Let_def bindE_at_key_Inr)

lemma announce_work_keeps [keeps]:
  assumes a: "announce_work e cfg ls um req event ipv6 w = Inr (reply, w')" and pton: "pton_ok (e_pton e)"
    and pk: "passkey_ok cfg um req (length (w_users w))"
  shows "keeps_work cfg w w'"
proof -
  from a obtain left pid pp free balance w1 w2 w3 wb w4 w5 w6 t where
    f: "find_peer e cfg ls um req pid left event ipv6 w = Inr (pp, free, w1)" and
    st: "mark_stopped pp event w1 = Inr w2" and
    am: "update_amounts e cfg req (corrupt_of req) free pp w2 = Inr (balance, w3)" and
    ba: "balance_block balance w3 = Inr wb" and
    rp: "record_peer_block cfg pp wb = Inr w4" and
    ru: "record_user_block cfg pp w4 = Inr w5" and
    rm: "removal_block req left event ipv6 w5 = Inr w6" and
    re: "reply_block cfg req left event ipv6 (w_tor (record_torrent_block cfg w6)) = Inr (reply, t)" and
    w': "w' = (record_torrent_block cfg w6)\<lparr>w_tor := t\<rparr>"
    by (cases rule: announce_work_parts) auto
  have "keeps_work cfg (record_torrent_block cfg w6) w'"
    using reply_block_ok [OF re] by (intro keeps_workI) (auto simp: w' work_ok_def)
  note steps = find_peer_keeps [OF f pton pk] mark_stopped_keeps [OF st] update_amounts_keeps [OF am]
    balance_block_keeps [OF ba] record_peer_block_keeps [OF rp] record_user_block_keeps [OF ru]
    removal_block_keeps [OF rm] record_torrent_block_keeps [of cfg w6] this
  show ?thesis by (rule steps keeps_work_trans)+
qed

section \<open>The whole announce keeps the invariant\<close>

lemma tracker_okI:
  assumes "om_wf (torMap s)" and "\<And>h t. (h, t) \<in> set (torMap s) \<Longrightarrow> torrent_ok (is_private cfg) (accounts s) t"
    and "\<And>k a. usrMap s k = Some a \<Longrightarrow> a < length (accounts s)"
  shows "tracker_ok cfg s"
  using assms by (auto simp: tracker_ok_def)

lemma tracker_ok_torrent:
  "tracker_ok cfg s \<Longrightarrow> map_of (torMap s) h = Some t \<Longrightarrow> torrent_ok (is_private cfg) (accounts s) t"
  by (auto simp: tracker_ok_def dest: map_of_SomeD)

lemma set_om_emplace: "set (om_emplace k v xs) \<subseteq> insert (k, v) (set xs)"
  by (induction k v xs rule: om_emplace.induct) auto

lemma create_if_public_ok [keeps]: "tracker_ok cfg s \<Longrightarrow> tracker_ok cfg (create_if_public cfg h s)"
  using set_om_emplace [of h "new_torrent (ucast (st_torrents (statistics s))) 0 0 0" "torMap s"]
  by (auto simp: create_if_public_def tracker_ok_def om_wf_emplace)

lemma create_if_public_frame [simp]:
  "accounts (create_if_public cfg h s) = accounts s" "usrMap (create_if_public cfg h s) = usrMap s"
  "bannedIPs (create_if_public cfg h s) = bannedIPs s"
  "clientWhitelist (create_if_public cfg h s) = clientWhitelist s"
  "leechStatus (create_if_public cfg h s) = leechStatus s" "dbase (create_if_public cfg h s) = dbase s"
  by (simp_all add: create_if_public_def)

lemma finish_work_ok [keeps]:
  assumes ok: "tracker_ok cfg s" and t: "map_of (torMap s) h = Some t" and k: "keeps_work cfg (start_work t s) w"
  shows "tracker_ok cfg (finish_work h w s)"
proof -
  have len: "length (w_users w) = length (accounts s)" and w: "torrent_ok (is_private cfg) (w_users w) (w_tor w)"
    using k tracker_ok_torrent [OF ok t] by (simp_all add: keeps_work_def work_ok_def start_work_def)
  have "h \<in> fst ` set (torMap s)" using t by (force dest: map_of_SomeD)
  then show ?thesis
    using ok len w
    by (intro tracker_okI)
      (auto simp: finish_work_def tracker_ok_def intro: om_wf_update torrent_ok_heap dest!: set_update_subset)
qed

lemma announce_cases:
  assumes "announce e cfg req h ipv6 s = Inr (reply, s')"
  obtains (refused) "reply = error ''client not in whitelist'' \<and> s' = s"
  | (unknown) "reply = error ''torrent not found''" "s' = create_if_public cfg h s"
  | (unauthorized) "reply = error ''user unauthorized''" "s' = create_if_public cfg h s" "is_private cfg"
  | (served) event t w where "req ''event'' = Some event" "map_of (torMap (create_if_public cfg h s)) h = Some t"
      "announce_work e cfg (leechStatus s) (usrMap s) req event ipv6 (start_work t (create_if_public cfg h s)) = Inr (reply, w)"
      "s' = finish_work h w (create_if_public cfg h s)"
      "is_private cfg \<Longrightarrow> (\<exists>k u. req ''reqpasskey'' = Some k \<and> deref (accounts s) (usrMap s k) = Inr u \<and> u_authorized u)"
proof -
  from assms obtain event allowed where ev: "req ''event'' = Some event" and
    rest: "(if \<not> allowed then Inr (error ''client not in whitelist'', s)
    else
      let s1 = create_if_public cfg h s in
      case map_of (torMap s1) h of
        None \<Rightarrow> Inr (error ''torrent not found'', s1)
      | Some t \<Rightarrow>
          bindE (if is_private cfg
                 then bindE (at_key req ''reqpasskey'') (\<lambda>k. bindE (deref (accounts s1) (getUser k s1)) (\<lambda>u.
                        Inr (u_authorized u)))
                 else Inr True) (\<lambda>authorized.
          if \<not> authorized then Inr (error ''user unauthorized'', s1)
          else
            bindE (announce_work e cfg (leechStatus s1) (usrMap s1) req event ipv6 (start_work t s1)) (\<lambda>(reply, w).
              Inr (reply, finish_work h w s1)))) = Inr (reply, s')"
    unfolding announce_def by (auto simp: bindE_at_key_Inr bindE_Inr_iff [where y = "(reply, s')"])
  show thesis
  proof (cases allowed)
    case False
    with rest refused show thesis by simp
  next
    case True
    show thesis
    proof (cases "map_of (torMap (create_if_public cfg h s)) h")
      case None
      with rest True unknown show thesis by simp
    next
      case (Some t)
      let ?auth = "if is_private cfg
        then bindE (at_key req ''reqpasskey'') (\<lambda>k. bindE (deref (accounts s) (usrMap s k)) (\<lambda>u. Inr (u_authorized u)))
        else Inr True"
      from rest True Some obtain authorized where
        au: "?auth = Inr authorized" and
        rest2: "(if \<not> authorized then Inr (error ''user unauthorized'', create_if_public cfg h s)
          else
            bindE (announce_work e cfg (leechStatus s) (usrMap s) req event ipv6 (start_work t (create_if_public cfg h s)))
              (\<lambda>(reply, w). Inr (reply, finish_work h w (create_if_public cfg h s)))) = Inr (reply, s')"
        unfolding Let_def getUser_def create_if_public_frame
        by (simp only: not_True_eq_False if_False option.case bindE_Inr_iff [of ?auth]) blast
      show thesis
      proof (cases authorized)
        case False
        with rest2 au unauthorized show thesis by (auto split: if_splits)
      next
        case auth: True
        with rest2 obtain w where
          "announce_work e cfg (leechStatus s) (usrMap s) req event ipv6 (start_work t (create_if_public cfg h s)) = Inr (reply, w)"
          "s' = finish_work h w (create_if_public cfg h s)" by auto
        moreover have "\<exists>k u. req ''reqpasskey'' = Some k \<and> deref (accounts s) (usrMap s k) = Inr u \<and> u_authorized u"
          if "is_private cfg" using au that auth by auto
        ultimately show thesis using served [OF ev Some] by blast
      qed
    qed
  qed
qed

lemma announce_keeps [keeps]:
  assumes a: "announce e cfg req h ipv6 s = Inr (reply, s')" and ok: "tracker_ok cfg s" and pton: "pton_ok (e_pton e)"
  shows "tracker_ok cfg s'"
  using a
proof (cases rule: announce_cases)
  case (served event t w)
  have "passkey_ok cfg (usrMap s) req (length (w_users (start_work t (create_if_public cfg h s))))"
    using served(5) by (auto simp: passkey_ok_def start_work_def dest!: deref_Inr elim!: valid_ptrE)
  from announce_work_keeps [OF served(3) pton this]
  show ?thesis
    unfolding served(4) using finish_work_ok [OF create_if_public_ok [OF ok] served(2)] by simp
qed (use ok create_if_public_ok in auto)

section \<open>The peer list\<close>

lemma nextPeer_empty: "pMap ps = [] \<Longrightarrow> nextPeer ps = Inr (None, ps)"
  by (simp add: nextPeer_def)

lemma getPeers_loop_total:
  "pm_wf (pMap ps) \<Longrightarrow> cursor_ok ps \<Longrightarrow> \<exists>str' ps'. getPeers_loop c n str ps = Inr (str', ps') \<and> cursor_ok ps'"
proof (induction n arbitrary: str ps)
  case (Suc n)
  show ?case
  proof (cases "pMap ps = []")
    case True
    then show ?thesis using Suc.IH [OF Suc.prems] nextPeer_empty by simp
  next
    case False
    obtain p ps1 where "nextPeer ps = Inr (Some p, ps1)" "pMap ps1 = pMap ps" "cursor_ok ps1"
      using nextPeer_rotation [OF Suc.prems False] by blast
    with Suc.IH [of ps1] Suc.prems show ?thesis by simp
  qed
qed simp

lemma getPeers_loop_rotation:
  "pm_wf (pMap ps) \<Longrightarrow> cursor_ok ps \<Longrightarrow> n \<le> peers_size ps \<Longrightarrow>
    \<exists>ps'. getPeers_loop c n str ps = Inr (str @ concat (map (peer_entry c) (take n (rotation ps))), ps')
      \<and> rotation ps' = rotate n (rotation ps) \<and> cursor_ok ps' \<and> pMap ps' = pMap ps"
proof (induction n arbitrary: str ps)
  case 0
  then show ?case by simp
next
  case (Suc n)
  then have ne: "pMap ps \<noteq> []" by (auto simp: peers_size_def)
  obtain ps1 where s1: "nextPeer ps = Inr (Some (hd (rotation ps)), ps1)"
    and r1: "rotation ps1 = rotate1 (rotation ps)" "pMap ps1 = pMap ps" "cursor_ok ps1"
    using nextPeer_rotation [OF Suc.prems(1,2) ne] by blast
  obtain r rs where r: "rotation ps = r # rs"
    using ne length_rotation [of ps] by (cases "rotation ps") (auto simp: peers_size_def simp del: length_rotation)
  have n: "n \<le> length rs" using Suc.prems(3) length_rotation [of ps] r by simp
  obtain ps2 where "getPeers_loop c n (str @ peer_entry c r) ps1 =
      Inr ((str @ peer_entry c r) @ concat (map (peer_entry c) (take n (rotation ps1))), ps2)"
    "rotation ps2 = rotate n (rotation ps1)" "cursor_ok ps2" "pMap ps2 = pMap ps1"
    using Suc.IH [of ps1 "str @ peer_entry c r"] Suc.prems r1 by (auto simp: peers_size_def)
  moreover have "take n (rotation ps1) = take n rs" using r1(1) r n by simp
  ultimately show ?case using s1 r r1 by (simp add: rotate1_rotate_swap)
qed

lemma length_concat_const: "\<forall>x \<in> set xs. length (f x) = k \<Longrightarrow> length (concat (map f xs)) = length xs * k"
  by (induction xs) auto

lemma set_rotation: "set (rotation ps) \<subseteq> snd ` set (pMap ps)"
  by (auto simp: rotation_def split: cursor.splits dest: set_takeWhileD set_dropWhileD)

lemma compact_list_length:
  assumes "peers_ok private ipv6 h ps" and "n \<le> peers_size ps"
  shows "length (concat (map (peer_entry True) (take n (rotation ps)))) = n * (addr_size ipv6 + 2)"
proof -
  have "\<forall>p \<in> set (take n (rotation ps)). length (peer_entry True p) = addr_size ipv6 + 2"
    using assms(1) subset_trans [OF set_take_subset [of n "rotation ps"] set_rotation]
    by (fastforce simp: peers_ok_def peer_ok_def peer_entry_def)
  from length_concat_const [OF this] assms(2) show ?thesis by simp
qed

end
