(* ===== verification/AnnounceReply.thy ===== *)
theory AnnounceReply
  imports AnnounceInv
begin

text \<open>
  The replies of announce and scrape against their specification: they are bencoded
  dictionaries, the compact peer strings have the length they announce, and no peer is
  listed twice. The specification of the peer list is the rotation of the table the cursor
  stands in.
\<close>

section \<open>The range of the counts\<close>

text \<open>A request and a configuration for which no product of the reply overflows.\<close>

definition numwant_ok :: "config \<Rightarrow> request \<Rightarrow> bool" where
  "numwant_ok cfg req \<longleftrightarrow> - (2 ^ 26) \<le> numwant_of cfg req \<and>
    - (2 ^ 26) \<le> getInt cfg ''max_numwant'' \<and> getInt cfg ''max_numwant'' \<le> 2 ^ 26"

lemma int_range_small: "- (2 ^ 31) \<le> x \<Longrightarrow> x < 2 ^ 31 \<Longrightarrow> int_range x = Inr x"
  by (simp add: int_range_def)

lemma list_lengths_range:
  assumes "list_lengths cfg req left event ipv6 t = (i, j)" and "numwant_ok cfg req"
  shows "- (2 ^ 26) \<le> i" "i \<le> 2 ^ 26" "- (2 ^ 26) \<le> j" "j \<le> 2 ^ 26"
    "- (2 ^ 26) \<le> i + j" "i + j \<le> 2 ^ 26"
proof -
  let ?n4 = "int (peers_size (get_slot (list_slot left False) t))"
  let ?n6 = "int (peers_size (get_slot (list_slot left True) t))"
  have e: "if event = ''stopped'' then i = 0 \<and> j = 0 else
      \<exists>k. k = min (min (numwant_of cfg req) (getInt cfg ''max_numwant'')) ?n4 \<and>
        j = (if ipv6 then min (min k (getInt cfg ''max_numwant'')) ?n6 else 0) \<and> i = k - j"
    using assms(1) unfolding list_lengths_def Let_def by (cases "event = ''stopped''") simp_all
  have nn: "0 \<le> ?n4" "0 \<le> ?n6" by simp_all
  show "- (2 ^ 26) \<le> i" "i \<le> 2 ^ 26" "- (2 ^ 26) \<le> j" "j \<le> 2 ^ 26"
    "- (2 ^ 26) \<le> i + j" "i + j \<le> 2 ^ 26"
    using e assms(2) nn unfolding numwant_ok_def
    by (cases "event = ''stopped''"; cases ipv6; simp only: if_True if_False; linarith)+
qed

lemma wants_gzip_total:
  assumes "list_lengths cfg req left event ipv6 t = (i, j)" and "numwant_ok cfg req"
  shows "\<exists>g. wants_gzip req i j = Inr g"
proof -
  note r = list_lengths_range [OF assms]
  have "int_range (i * 6) = Inr (i * 6)" "int_range (j * 18) = Inr (j * 18)"
    "int_range (i * 6 + j * 18) = Inr (i * 6 + j * 18)"
    using r by (auto intro!: int_range_small)
  then show ?thesis by (auto simp: wants_gzip_def split: option.splits)
qed

section \<open>Peer dicts\<close>

definition listed :: "nat \<Rightarrow> peers \<Rightarrow> peer list" where
  "listed n ps = take n (rotation ps)"

definition compact_peers :: "nat \<Rightarrow> peers \<Rightarrow> string" where
  "compact_peers n ps = concat (map p_hexIPPort (listed n ps))"

lemma peer_entry_compact: "peer_entry True = p_hexIPPort"
  by (rule ext) (simp add: peer_entry_def)

lemma mset_rotation: "mset (rotation ps) = mset (map snd (pMap ps))"
proof (cases "pIt ps")
  case (At k)
  let ?P = "\<lambda>(k', _ :: peer). k' \<noteq> k"
  have "mset (dropWhile ?P (pMap ps) @ takeWhile ?P (pMap ps)) = mset (takeWhile ?P (pMap ps) @ dropWhile ?P (pMap ps))"
    by (simp only: mset_append union_commute)
  then show ?thesis
    by (simp only: rotation_def At cursor.case mset_map takeWhile_dropWhile_id)
qed (simp_all add: rotation_def)

lemma distinct_rotation:
  assumes "peers_ok private ipv6 h ps" shows "distinct (map p_peerID (rotation ps))"
proof -
  have "map p_peerID (map snd (pMap ps)) = map fst (pMap ps)"
    using assms by (auto simp: peers_ok_def)
  then have "distinct (map p_peerID (map snd (pMap ps)))"
    using assms by (simp only: peers_ok_def pm_wf_def)
  moreover have "mset (map p_peerID (rotation ps)) = mset (map p_peerID (map snd (pMap ps)))"
    by (simp only: mset_map mset_rotation)
  ultimately show ?thesis using mset_eq_imp_distinct_iff by blast
qed

lemma distinct_listed: "peers_ok private ipv6 h ps \<Longrightarrow> distinct (map p_peerID (listed n ps))"
  using distinct_rotation [of "private" ipv6 h ps] by (simp add: listed_def take_map [symmetric])

lemma listed_subset: "p \<in> set (listed n ps) \<Longrightarrow> p \<in> snd ` set (pMap ps)"
  using set_rotation [of ps] by (auto simp: listed_def dest: in_set_takeD)

lemma length_compact_peers:
  assumes "peers_ok private ipv6 h ps" and "n \<le> peers_size ps"
  shows "length (compact_peers n ps) = n * (addr_size ipv6 + 2)"
  using compact_list_length [OF assms] unfolding compact_peers_def listed_def peer_entry_compact .

lemma entry_bytes: "addr_size False + 2 = 6" "addr_size True + 2 = 18"
  by (simp_all add: addr_size_def)

lemma getPeers_compact_cursor:
  assumes ok: "peers_ok private ipv6 h ps" and c: "cursor_ok ps" and n: "n \<le> peers_size ps"
    and small: "n \<le> 2 ^ 26"
  shows "\<exists>ps'. getPeers ps (int n) ipv6 True =
      Inr (benc_str (if ipv6 then ''peers6'' else ''peers'') @ benc_str (compact_peers n ps), ps')
    \<and> pMap ps' = pMap ps \<and> cursor_ok ps' \<and> rotation ps' = rotate n (rotation ps)"
proof -
  have wf: "pm_wf (pMap ps)" using ok by (simp add: peers_ok_def)
  have list: "concat (map (peer_entry True) (take n (rotation ps))) = compact_peers n ps"
    by (simp only: compact_peers_def listed_def peer_entry_compact)
  have len: "int n * (if ipv6 then 18 else 6) = int (length (compact_peers n ps))"
    using length_compact_peers [OF ok n] entry_bytes by (cases ipv6) simp_all
  have range: "int_range (int (length (compact_peers n ps))) = Inr (int (length (compact_peers n ps)))"
    "int_range (int n - 1) = Inr (int n - 1)"
    using small len by (auto intro!: int_range_small split: if_splits)
  let ?start = "(if ipv6 then ''6:peers6'' else ''5:peers'') @ show_nat (length (compact_peers n ps)) @ '':''"
  obtain ps' where r: "getPeers_loop True n ?start ps = Inr (?start @ compact_peers n ps, ps')"
    "rotation ps' = rotate n (rotation ps)" "cursor_ok ps'" "pMap ps' = pMap ps"
    using getPeers_loop_rotation [OF wf c n, of True ?start] list by auto
  have "getPeers ps (int n) ipv6 True = Inr (?start @ compact_peers n ps, ps')"
    using r(1) range unfolding getPeers_def Let_def len show_int_nat by simp
  moreover have "?start @ compact_peers n ps =
      benc_str (if ipv6 then ''peers6'' else ''peers'') @ benc_str (compact_peers n ps)"
    by (simp add: benc_str_def)
  ultimately show ?thesis using r(2-4) by auto
qed

text \<open>An empty list does not look at the cursor.\<close>

lemma getPeers_compact:
  assumes ok: "peers_ok private ipv6 h ps" and c: "0 < n \<longrightarrow> cursor_ok ps" and n: "n \<le> peers_size ps"
    and small: "n \<le> 2 ^ 26"
  shows "\<exists>ps'. getPeers ps (int n) ipv6 True =
      Inr (benc_str (if ipv6 then ''peers6'' else ''peers'') @ benc_str (compact_peers n ps), ps') \<and> pMap ps' = pMap ps"
proof (cases "n = 0")
  case True
  then show ?thesis
    by (simp add: getPeers_def int_range_def compact_peers_def listed_def benc_str_def show_int_def)
next
  case False
  with getPeers_compact_cursor [OF ok _ n small] c show ?thesis by blast
qed

lemma getPeers_loop_nextPeers:
  "nextPeers n ps = Inr (qs, ps') \<Longrightarrow> getPeers_loop c n str ps = Inr (str @ concat (map (peer_entry c) qs), ps')"
  by (induction n arbitrary: ps qs str) (auto split: option.splits)

section \<open>Announce\<close>

text \<open>The dictionary an announce answers with, given the peers it dicts.\<close>

definition announce_value :: "torrent \<Rightarrow> int \<Rightarrow> int \<Rightarrow> (string \<times> bval) list \<Rightarrow> bval" where
  "announce_value t interval min_interval dicts =
    BDict ([(''complete'', BInt (int (seeder_count t))), (''incomplete'', BInt (int (leecher_count t))),
            (''downloaded'', BInt (int (unat (t_snatches t)))), (''interval'', BInt interval),
            (''min interval'', BInt min_interval)] @ dicts)"

lemma show_int_uint [simp]: "show_int (uint w) = show_nat (unat w)"
  unfolding uint_nat by (rule show_int_nat)

lemma show_int_add [simp]: "show_int (int a + int b) = show_nat (a + b)"
  using show_int_nat [of "a + b"] by (simp only: of_nat_add)

text \<open>BEP 3 wants \<open>downloaded\<close> before \<open>incomplete\<close>.\<close>

lemma announce_not_canonical: "\<not> canonical (announce_value t interval min_interval dicts)"
proof -
  have "\<not> ''incomplete'' < ''downloaded''" by code_simp
  then show ?thesis by (simp add: announce_value_def)
qed

lemma announce_body_benc:
  assumes "get cfg ''default_announce_interval'' = show_int i" and "get cfg ''min_announce_interval'' = show_int m"
    and "peerlist6 @ peerlist = concat (map (\<lambda>(k, v). benc_str k @ benc v) dicts)"
  shows "announce_body cfg t peerlist6 peerlist = benc (announce_value t i m dicts)"
proof -
  have "peerlist6 @ peerlist @ rest = concat (map (\<lambda>(k, v). benc_str k @ benc v) dicts) @ rest" for rest
    using assms(3) by (metis append_assoc)
  with assms(1,2) show ?thesis
    by (simp add: announce_body_def announce_value_def benc_str_def to_string_def)
qed

lemma list_lengths_bounds:
  assumes "list_lengths cfg req left event ipv6 t = (i, j)" and "0 \<le> numwant_of cfg req"
    and "0 \<le> getInt cfg ''max_numwant''"
  shows "0 \<le> i" "0 \<le> j" "i \<le> int (peers_size (get_slot (list_slot left False) t))"
    "j \<le> int (peers_size (get_slot (list_slot left True) t))" "i + j \<le> numwant_of cfg req"
    "i + j \<le> getInt cfg ''max_numwant''" "\<not> ipv6 \<Longrightarrow> j = 0"
proof -
  let ?n4 = "int (peers_size (get_slot (list_slot left False) t))"
  let ?n6 = "int (peers_size (get_slot (list_slot left True) t))"
  have e: "if event = ''stopped'' then i = 0 \<and> j = 0 else
      \<exists>k. k = min (min (numwant_of cfg req) (getInt cfg ''max_numwant'')) ?n4 \<and>
        j = (if ipv6 then min (min k (getInt cfg ''max_numwant'')) ?n6 else 0) \<and> i = k - j"
    using assms(1) unfolding list_lengths_def Let_def by (cases "event = ''stopped''") simp_all
  have nn: "0 \<le> ?n4" "0 \<le> ?n6" by simp_all
  show "0 \<le> i" "0 \<le> j" "i \<le> ?n4" "j \<le> ?n6" "i + j \<le> numwant_of cfg req"
    "i + j \<le> getInt cfg ''max_numwant''"
    using e assms(2,3) nn by (cases "event = ''stopped''"; cases ipv6; simp only: if_True if_False; linarith)+
  show "j = 0" if "\<not> ipv6" using e that by (cases "event = ''stopped''") auto
qed

definition peer_lists :: "string \<Rightarrow> nat \<Rightarrow> nat \<Rightarrow> torrent \<Rightarrow> (string \<times> bval) list" where
  "peer_lists left i j t =
    (if 0 < j then [(''peers6'', BStr (compact_peers j (get_slot (list_slot left True) t)))] else []) @
    [(''peers'', BStr (compact_peers i (get_slot (list_slot left False) t)))]"

lemma list_slot_neq: "list_slot left True \<noteq> list_slot left False"
  by (simp add: list_slot_def leech_slot_def seed_slot_def)

lemma counts_pMap:
  "\<forall>sl. pMap (get_slot sl t') = pMap (get_slot sl t) \<Longrightarrow> seeder_count t' = seeder_count t \<and> leecher_count t' = leecher_count t"
  unfolding seeder_count_def leecher_count_def peers_size_def by (metis get_slot.simps)

text \<open>The IPv6 list, which is asked for only when it is not empty.\<close>

lemma list6_benc:
  assumes ok: "peers_ok private True h (get_slot sl t)" and c: "0 < j \<longrightarrow> cursor_ok (get_slot sl t)"
    and n: "nat j \<le> peers_size (get_slot sl t)" and small: "nat j \<le> 2 ^ 26"
  shows "\<exists>t'. (if j > 0 then list_peers sl j True True t else Inr ('''', t)) =
      Inr (concat (map (\<lambda>(k, v). benc_str k @ benc v)
        (if 0 < nat j then [(''peers6'', BStr (compact_peers (nat j) (get_slot sl t)))] else [])), t')
    \<and> (\<forall>sl'. pMap (get_slot sl' t') = pMap (get_slot sl' t)) \<and> (\<forall>sl'. sl' \<noteq> sl \<longrightarrow> get_slot sl' t' = get_slot sl' t)
    \<and> t_snatches t' = t_snatches t"
proof (cases "j > 0")
  case True
  with getPeers_compact [OF ok _ n small] c obtain ps where "getPeers (get_slot sl t) j True True =
      Inr (benc_str ''peers6'' @ benc_str (compact_peers (nat j) (get_slot sl t)), ps)"
    "pMap ps = pMap (get_slot sl t)" by fastforce
  with True show ?thesis by (auto simp: list_peers_def)
qed auto

lemma reply_block_benc:
  assumes ok: "torrent_ok private h t"
    and c4: "0 < i \<longrightarrow> cursor_ok (get_slot (list_slot left False) t)"
    and c6: "0 < j \<longrightarrow> cursor_ok (get_slot (list_slot left True) t)"
    and ll: "list_lengths cfg req left event ipv6 t = (i, j)"
    and nw: "0 \<le> numwant_of cfg req" "0 \<le> getInt cfg ''max_numwant''"
    and max: "getInt cfg ''max_numwant'' \<le> 2 ^ 26"
    and compact: "req ''compact'' \<noteq> Some ''0''"
    and iv: "get cfg ''default_announce_interval'' = show_int ai" "get cfg ''min_announce_interval'' = show_int mi"
  shows "\<exists>t'. reply_block cfg req left event ipv6 t =
      Inr (response (benc (announce_value t ai mi (peer_lists left (nat i) (nat j) t))) False, t')
    \<and> (\<forall>sl. pMap (get_slot sl t') = pMap (get_slot sl t))"
proof -
  note b = list_lengths_bounds [OF ll nw]
  have nok: "numwant_ok cfg req" using nw max by (simp add: numwant_ok_def)
  have small: "nat i \<le> 2 ^ 26" "nat j \<le> 2 ^ 26" using list_lengths_range(2,4) [OF ll nok] by (simp_all add: nat_le_iff)
  obtain g where g: "wants_gzip req i j = Inr g" using wants_gzip_total [OF ll nok] by blast
  let ?s4 = "list_slot left False" and ?s6 = "list_slot left True"
  let ?l6 = "if 0 < nat j then [(''peers6'', BStr (compact_peers (nat j) (get_slot ?s6 t)))] else []"
  let ?l4 = "(''peers'', BStr (compact_peers (nat i) (get_slot ?s4 t)))"
  have ok6: "peers_ok private True h (get_slot ?s6 t)" and ok4: "peers_ok private False h (get_slot ?s4 t)"
    using torrent_ok_slot [OF ok, of ?s6] torrent_ok_slot [OF ok, of ?s4] by simp_all
  have c6': "0 < j \<longrightarrow> cursor_ok (get_slot ?s6 t)" and n6: "nat j \<le> peers_size (get_slot ?s6 t)"
    using c6 b(4) by auto
  obtain t1 where r6: "(if j > 0 then list_peers ?s6 j True True t else Inr ('''', t)) =
      Inr (concat (map (\<lambda>(k, v). benc_str k @ benc v) ?l6), t1)"
    and t1: "\<forall>sl'. pMap (get_slot sl' t1) = pMap (get_slot sl' t)" "get_slot ?s4 t1 = get_slot ?s4 t"
      "t_snatches t1 = t_snatches t"
    using list6_benc [OF ok6 c6' n6 small(2)] list_slot_neq [of left] by metis
  have "nat i \<le> peers_size (get_slot ?s4 t)" using b(3) by simp
  from getPeers_compact [OF ok4 _ this small(1)] c4 obtain ps where
    r4: "getPeers (get_slot ?s4 t) (int (nat i)) False True =
        Inr (benc_str ''peers'' @ benc_str (compact_peers (nat i) (get_slot ?s4 t)), ps)"
      "pMap ps = pMap (get_slot ?s4 t)" by auto
  let ?t = "set_slot ?s4 ps t1"
  have maps: "\<forall>sl. pMap (get_slot sl ?t) = pMap (get_slot sl t)"
    using t1(1) r4(2) by simp
  have "announce_body cfg ?t (concat (map (\<lambda>(k, v). benc_str k @ benc v) ?l6))
        (benc_str ''peers'' @ benc_str (compact_peers (nat i) (get_slot ?s4 t)))
      = benc (announce_value ?t ai mi (?l6 @ [?l4]))"
    by (rule announce_body_benc [OF iv]) simp
  also have "announce_value ?t ai mi (?l6 @ [?l4]) = announce_value t ai mi (peer_lists left (nat i) (nat j) t)"
    using counts_pMap [OF maps] t1(3) by (simp add: announce_value_def peer_lists_def)
  finally have body: "announce_body cfg ?t (concat (map (\<lambda>(k, v). benc_str k @ benc v) ?l6))
        (benc_str ''peers'' @ benc_str (compact_peers (nat i) (get_slot ?s4 t)))
      = benc (announce_value t ai mi (peer_lists left (nat i) (nat j) t))" .
  have "list_peers ?s4 i False True t1 =
      Inr (benc_str ''peers'' @ benc_str (compact_peers (nat i) (get_slot ?s4 t)), ?t)"
    using r4(1) b(1) t1(2) by (simp add: list_peers_def)
  moreover have compact_eq: "(req ''compact'' \<noteq> Some ''0'') = True" using compact by simp
  ultimately have "reply_block cfg req left event ipv6 t =
      Inr (response (benc (announce_value t ai mi (peer_lists left (nat i) (nat j) t))) False, ?t)"
    by (simp only: reply_block_def ll Let_def prod.case compact_eq r6 g bindE_simps response_def body)
  with maps show ?thesis by blast
qed

section \<open>Scrape\<close>

definition scrape_entry :: "(string \<times> torrent) list \<Rightarrow> string \<Rightarrow> (string \<times> bval) list" where
  "scrape_entry tm h = (case map_of tm h of None \<Rightarrow> []
     | Some t \<Rightarrow> [(h, BDict [(''complete'', BInt (int (seeder_count t))),
                            (''incomplete'', BInt (int (2 * peers_size (t_leechers t)))),
                            (''downloaded'', BInt (int (unat (t_snatches t))))])])"

definition scrape_value :: "(string \<times> torrent) list \<Rightarrow> string list \<Rightarrow> bval" where
  "scrape_value tm hs = BDict [(''files'', BDict (concat (map (scrape_entry tm) hs)))]"

lemma scrape_files_benc:
  "scrape_files tm hs = concat (map (\<lambda>(k, v). benc_str k @ benc v) (concat (map (scrape_entry tm) hs)))"
proof (induction hs)
  case (Cons h hs)
  have "show_int (int (2 * n)) = show_nat (n + n)" for n
    unfolding show_int_nat by (simp only: mult_2)
  then have "show_int (2 * int n) = show_nat (n + n)" for n by (metis of_nat_mult of_nat_numeral)
  with Cons show ?case
    by (simp add: scrape_entry_def bstring_def benc_str_def seeder_count_def to_string_def split: option.splits)
qed simp

lemma scrape_benc_lemma: "scrape hs s = response (benc (scrape_value (torMap s) hs)) False"
  by (simp add: scrape_def scrape_value_def scrape_files_benc benc_str_def)

section \<open>Properties\<close>

text \<open>C13: The reply to an announce that does not ask for \<open>compact=0\<close> is one bencoded dictionary:
  the counts of the four tables, the snatches, the two intervals and the peer strings, whose
  length prefixes are exact; building it moves the cursors and leaves the tables as they are.
  This is under the conditions that the cursors of the tables from which it lists at least one
  peer are valid, that \<open>numwant\<close> and the configured maximum are not negative,
  the maximum at most \<open>2^26\<close>, and that the configured intervals are numbers; the lemma
  \<open>negative_count_list\<close> shows what a negative \<open>numwant\<close> gives instead. The keys
  are never in the order BEP 3 asks for.\<close>

theorem announce_reply_is_bencoded:
  assumes "torrent_ok private h t"
    and "0 < i \<longrightarrow> cursor_ok (get_slot (list_slot left False) t)"
    and "0 < j \<longrightarrow> cursor_ok (get_slot (list_slot left True) t)"
    and "list_lengths cfg req left event ipv6 t = (i, j)"
    and "0 \<le> numwant_of cfg req" and "0 \<le> getInt cfg ''max_numwant''"
    and "getInt cfg ''max_numwant'' \<le> 2 ^ 26"
    and "req ''compact'' \<noteq> Some ''0''"
    and "get cfg ''default_announce_interval'' = show_int ai" and "get cfg ''min_announce_interval'' = show_int mi"
  shows "\<exists>t'. reply_block cfg req left event ipv6 t =
      Inr (response (benc (announce_value t ai mi (peer_lists left (nat i) (nat j) t))) False, t')
    \<and> (\<forall>sl. pMap (get_slot sl t') = pMap (get_slot sl t))
    \<and> \<not> canonical (announce_value t ai mi (peer_lists left (nat i) (nat j) t))"
  using reply_block_benc [OF assms] announce_not_canonical by blast

text \<open>A negative count is written as the length of an empty string: \<open>5:peers-6:\<close> for
  \<open>numwant=-1\<close>, which is no bencoding.\<close>

lemma negative_count_list:
  assumes "- (2 ^ 26) \<le> n" and "n < 0"
  shows "getPeers ps n False True = Inr (''5:peers'' @ show_int (n * 6) @ '':'', ps)"
  using assms by (simp add: getPeers_def int_range_def)

lemma minus_one_list: "getPeers ps (- 1) False True = Inr (''5:peers-6:'', ps)"
  using negative_count_list [of "- 1" ps] by (simp add: show_int_def)

lemma sample_peers_ok: "peers_ok private False [new_user 1 True] (sample_peers c)"
  by (simp add: peers_ok_def peer_ok_def sample_peers_def pm_wf_def sample_peer_def addr_size_def)

lemma sample_torrent_slots:
  "get_slot sl sample_torrent = (if sl = Leechers then sample_peers End else new_peers)"
  by (cases sl) (simp_all add: sample_torrent_def new_torrent_def)

lemma sample_torrent_ok: "torrent_ok private [new_user 1 True] sample_torrent"
  by (simp add: torrent_ok_def sample_torrent_slots sample_peers_ok)

lemma default_ints [simp]:
  "getInt default_config ''max_numwant'' = 50" "getInt default_config ''default_numwant'' = 20"
  "get default_config ''default_announce_interval'' = show_int 900"
  "get default_config ''min_announce_interval'' = show_int 300"
  by (simp_all add: getInt_def get_def default_config_def default_vars_def stoi_def scan_number_def isspace_def
      isdigit_iff read_digits_def digit_value_def show_int_def show_nat.simps)

lemma announce_reply_is_bencoded_witness:
  "\<exists>t'. reply_block default_config sample_request ''0'' ''updating'' False sample_torrent =
      Inr (response (benc (announce_value sample_torrent 900 300 (peer_lists ''0'' 2 0 sample_torrent))) False, t')
    \<and> (\<forall>sl. pMap (get_slot sl t') = pMap (get_slot sl sample_torrent))"
proof -
  have ll: "list_lengths default_config sample_request ''0'' ''updating'' False sample_torrent = (2, 0)"
    by (simp add: list_lengths_def numwant_of_def list_slot_def leech_slot_def sample_torrent_slots peers_size_def
        sample_peers_def new_peers_def)
  have cur: "cursor_ok (get_slot (list_slot ''0'' False) sample_torrent)"
    by (simp add: list_slot_def leech_slot_def sample_torrent_slots sample_peers_def cursor_ok_def)
  show ?thesis
    using announce_reply_is_bencoded [OF sample_torrent_ok _ _ ll, of 900 300] cur
    by (simp add: numwant_of_def) blast
qed

text \<open>C17: A peer list of \<open>n\<close> entries is made of \<open>n\<close> calls of \<open>nextPeer\<close>, and these return \<open>n\<close>
  different peers of the table: for a well-formed table with a valid cursor and at least
  \<open>n\<close> entries (\<open>n\<close> at most \<open>2^26\<close>, so that no \<open>int\<close> overflows), \<open>getPeers\<close> answers with the
  key, the exact number of bytes, 6 (IPv4) or 18 (IPv6) for each peer, and the addresses of
  these peers.\<close>

theorem listed_peers_are_distinct:
  assumes "peers_ok private ipv6 h ps" and "cursor_ok ps" and "n \<le> peers_size ps" and "n \<le> 2 ^ 26"
  shows "\<exists>qs ps'. nextPeers n ps = Inr (qs, ps') \<and> length qs = n \<and> distinct (map p_peerID qs) \<and>
    set qs \<subseteq> snd ` set (pMap ps) \<and> length (concat (map p_hexIPPort qs)) = n * (if ipv6 then 18 else 6) \<and>
    getPeers ps (int n) ipv6 True = Inr ((if ipv6 then ''6:peers6'' else ''5:peers'') @
      show_nat (n * (if ipv6 then 18 else 6)) @ '':'' @ concat (map p_hexIPPort qs), ps')"
proof -
  have wf: "pm_wf (pMap ps)" using assms(1) by (simp add: peers_ok_def)
  from nextPeers_rotation [OF wf assms(2,3)] obtain ps' where
    n: "nextPeers n ps = Inr (listed n ps, ps')" by (auto simp: listed_def)
  have len: "length (compact_peers n ps) = n * (if ipv6 then 18 else 6)"
    using length_compact_peers [OF assms(1,3)] entry_bytes by (cases ipv6) simp_all
  have "int_range (int (n * (if ipv6 then 18 else 6))) = Inr (int (n * (if ipv6 then 18 else 6)))"
    "int_range (int n - 1) = Inr (int n - 1)"
    using assms(4) by (auto intro!: int_range_small)
  then have "getPeers ps (int n) ipv6 True = Inr ((if ipv6 then ''6:peers6'' else ''5:peers'') @
      show_nat (n * (if ipv6 then 18 else 6)) @ '':'' @ compact_peers n ps, ps')"
    using getPeers_loop_nextPeers [OF n, of True] show_int_nat [of "n * (if ipv6 then 18 else 6)"]
    by (cases ipv6) (simp_all add: getPeers_def peer_entry_compact compact_peers_def)
  with n len distinct_listed [OF assms(1), of n] listed_subset [of _ n ps] assms(3) show ?thesis
    by (auto simp: compact_peers_def) (simp add: listed_def)
qed

lemma listed_peers_are_distinct_witness:
  "\<exists>qs ps'. nextPeers 2 (sample_peers (At ''b'')) = Inr (qs, ps') \<and> length qs = 2 \<and> distinct (map p_peerID qs)"
  using listed_peers_are_distinct [OF sample_peers_ok, of "At ''b''" 2]
  by (auto simp: sample_peers_def peers_size_def cursor_ok_def)

text \<open>C37: A reply never lists more peers than the client asked for, than the configuration
  allows and than the tables hold, and lists IPv6 peers only to IPv6 clients.\<close>

theorem lists_no_more_than_wanted:
  assumes "list_lengths cfg req left event ipv6 t = (i, j)" and "0 \<le> numwant_of cfg req"
    and "0 \<le> getInt cfg ''max_numwant''"
  shows "0 \<le> i \<and> 0 \<le> j \<and> i + j \<le> numwant_of cfg req \<and> i + j \<le> getInt cfg ''max_numwant'' \<and>
    i \<le> int (peers_size (get_slot (list_slot left False) t)) \<and>
    j \<le> int (peers_size (get_slot (list_slot left True) t)) \<and> (j = 0 \<or> ipv6)"
  using list_lengths_bounds [OF assms] by auto

lemma lists_no_more_than_wanted_witness:
  "0 \<le> fst (list_lengths default_config sample_request ''0'' ''updating'' False sample_torrent)"
  using lists_no_more_than_wanted [of default_config sample_request "''0''" "''updating''" False sample_torrent]
  by (cases "list_lengths default_config sample_request ''0'' ''updating'' False sample_torrent")
    (simp add: numwant_of_def)

text \<open>C38: A scrape reply is the encoding of a dictionary with one entry for every element of the
  list of info hashes that the tracker knows, in the order of that list (which the parser
  builds by inserting in front, so it is the reverse of the request) and as often as it
  occurs there, so the keys need not be sorted or different; the number of leechers counts
  the IPv4 leechers twice and the IPv6 leechers not at all.\<close>

theorem scrape_is_bencoded:
  "scrape hs s = response_head @ benc (BDict [(''files'', BDict (concat (map (\<lambda>h. case map_of (torMap s) h of None \<Rightarrow> []
     | Some t \<Rightarrow> [(h, BDict [(''complete'', BInt (int (seeder_count t))),
                            (''incomplete'', BInt (int (2 * peers_size (t_leechers t)))),
                            (''downloaded'', BInt (int (unat (t_snatches t))))])]) hs)))])"
proof -
  have "scrape_entry (torMap s) = (\<lambda>h. case map_of (torMap s) h of None \<Rightarrow> []
     | Some t \<Rightarrow> [(h, BDict [(''complete'', BInt (int (seeder_count t))),
                            (''incomplete'', BInt (int (2 * peers_size (t_leechers t)))),
                            (''downloaded'', BInt (int (unat (t_snatches t))))])])"
    by (rule ext) (simp add: scrape_entry_def)
  then show ?thesis
    using scrape_benc_lemma [of hs s] by (simp only: scrape_value_def response_def)
qed

end
