(* ===== verification/Listing.thy ===== *)
theory Listing
  imports AnnounceInv
begin

text \<open>
  Which tables list which peer, and what an announce does to that: the set of the pairs of
  a table and a peer id that are listed for a torrent changes exactly as \<open>announce_listed\<close>
  says, whenever the announce returns.
\<close>

section \<open>The specification of an announce\<close>

type_synonym swarm = "(slot \<times> string) set"

text \<open>The tables a stopped or completed peer is removed from.\<close>

definition removed_slots :: "string \<Rightarrow> string \<Rightarrow> bool \<Rightarrow> slot set" where
  "removed_slots left event ipv6 =
    (if event = ''stopped'' then {if left \<noteq> ''0'' then leech_slot ipv6 else seed_slot ipv6} else {}) \<union>
    (if event = ''completed'' then {if ipv6 then Leechers else Leechers6} else {})"

text \<open>
  An announce: a peer with bytes left, or one that just completed, joins the leechers; one
  without joins the seeders unless it is listed there or among the IPv4 leechers; then a
  stopped or completed peer leaves a table.
\<close>

definition announce_listed :: "string \<Rightarrow> string \<Rightarrow> bool \<Rightarrow> string \<Rightarrow> swarm \<Rightarrow> swarm" where
  "announce_listed left event ipv6 pid P =
    (let P1 = (if left \<noteq> ''0'' \<or> event = ''completed'' then insert (leech_slot ipv6, pid) P else P);
         P2 = (if left = ''0'' \<and> (seed_slot ipv6, pid) \<notin> P1 \<and> (Leechers, pid) \<notin> P1
               then insert (seed_slot ipv6, pid) P1 else P1)
     in P2 - removed_slots left event ipv6 \<times> {pid})"

section \<open>Steps that list the same peers\<close>

text \<open>
  Which tables list which peer. No block but the insertions and the removal changes that, so
  a leecher that reports \<open>left=0\<close> keeps its place.
\<close>

definition same_keys :: "torrent \<Rightarrow> torrent \<Rightarrow> bool" where
  "same_keys t t' \<longleftrightarrow> (\<forall>sl k. (getPeer k (get_slot sl t') = None) = (getPeer k (get_slot sl t) = None))"

lemma same_keys_refl [simp]: "same_keys t t"
  by (simp add: same_keys_def)

lemma same_keys_trans [trans]: "same_keys t t' \<Longrightarrow> same_keys t' t'' \<Longrightarrow> same_keys t t''"
  by (simp add: same_keys_def)

lemma same_keys_frame [simp]:
  "same_keys t (incSnatches t') = same_keys t t'" "same_keys t (t'\<lparr>t_balance := b\<rparr>) = same_keys t t'"
  by (simp_all add: same_keys_def)

lemma same_keys_update: "peer_at pp t = Inr p \<Longrightarrow> same_keys t (update_peer pp q t)"
  by (cases pp) (auto simp: same_keys_def peer_at_Inr)

lemma same_keys_list_peers: "list_peers sl n ipv6 c t = Inr (str, t') \<Longrightarrow> same_keys t t'"
  by (auto simp: list_peers_def same_keys_def getPeer_def dest!: getPeers_pMap split: if_splits)

lemma same_keys_blocks:
  "free_rate e cfg ls req pp w = Inr (free, w') \<Longrightarrow> same_keys (w_tor w) (w_tor w')"
  "mark_completed pp w = Inr w' \<Longrightarrow> same_keys (w_tor w) (w_tor w')"
  "mark_stopped pp event w = Inr w' \<Longrightarrow> same_keys (w_tor w) (w_tor w')"
  "update_amounts e cfg req corrupt f pp w = Inr (b, w') \<Longrightarrow> same_keys (w_tor w) (w_tor w')"
  "balance_block b w = Inr w' \<Longrightarrow> same_keys (w_tor w) (w_tor w')"
  "record_peer_block cfg pp w = Inr w' \<Longrightarrow> same_keys (w_tor w) (w_tor w')"
  "record_user_block cfg pp w = Inr w' \<Longrightarrow> same_keys (w_tor w) (w_tor w')"
  "reply_block cfg req left event ipv6 t = Inr (reply, t') \<Longrightarrow> same_keys t t'"
  by (auto simp: free_rate_def mark_completed_def mark_stopped_def update_amounts_def record_peer_block_def
      balance_block_def setBalance_Inr record_user_block_def Let_def same_keys_update split: if_splits)
    (auto elim!: reply_block_parts dest!: same_keys_list_peers intro: same_keys_trans split: if_splits)

section \<open>What each block does to the listed peers\<close>

definition listed_in :: "torrent \<Rightarrow> swarm" where
  "listed_in t = {(sl, k). getPeer k (get_slot sl t) \<noteq> None}"

lemma in_listed_in [simp]: "(sl, k) \<in> listed_in t \<longleftrightarrow> getPeer k (get_slot sl t) \<noteq> None"
  by (simp add: listed_in_def)

lemma listed_in_same_keys: "same_keys t t' \<Longrightarrow> listed_in t' = listed_in t"
  by (auto simp: same_keys_def listed_in_def)

lemmas listed_blocks = same_keys_blocks [THEN listed_in_same_keys]

lemma listed_in_new [simp]: "listed_in (new_torrent i f s b) = {}"
  by (simp add: listed_in_def getPeer_def new_peers_def)

lemma add_to_slot_listed:
  assumes "add_to_slot e cfg um req ipv6 sl w = Inr w'" and "req ''peer_id'' = Some pid" and "work_ok cfg w"
  shows "listed_in (w_tor w') = insert (sl, pid) (listed_in (w_tor w))"
proof -
  obtain ps st where a: "addPeer e cfg um req (t_id (w_tor w)) ipv6 (get_slot sl (w_tor w), w_stats w) = Inr (ps, st)"
    and w': "w' = w\<lparr>w_tor := set_slot sl ps (w_tor w), w_stats := st\<rparr>"
    using assms(1) by (auto simp: add_to_slot_def)
  obtain p where ps: "ps = (get_slot sl (w_tor w))\<lparr>pMap := pm_emplace (e_order e) pid p (pMap (get_slot sl (w_tor w)))\<rparr>"
    using a assms(2) by (auto elim!: addPeer_Inr)
  have "pm_wf (pMap (get_slot sl (w_tor w)))"
    using assms(3) torrent_ok_slot [of _ _ _ sl] by (fastforce simp: work_ok_def peers_ok_def)
  then show ?thesis by (auto simp: w' ps getPeer_def pm_find_emplace split: if_splits)
qed

lemma leech_block_listed:
  assumes "leech_block e cfg ls um req pid event ipv6 w = Inr (pp, free, w')" and "req ''peer_id'' = Some pid"
    and "work_ok cfg w"
  shows "listed_in (w_tor w') = insert (leech_slot ipv6, pid) (listed_in (w_tor w))"
proof -
  from assms(1) obtain w1 w2 where
    a: "(if getPeer pid (get_slot (leech_slot ipv6) (w_tor w)) = None
            then add_to_slot e cfg um req ipv6 (leech_slot ipv6) w else Inr w) = Inr w1"
    and f: "free_rate e cfg ls req (leech_slot ipv6, pid) w1 = Inr (free, w2)"
    and m: "(if event = ''completed'' then mark_completed (leech_slot ipv6, pid) w2 else Inr w2) = Inr w'"
    by (auto simp: leech_block_def Let_def)
  have "listed_in (w_tor w1) = insert (leech_slot ipv6, pid) (listed_in (w_tor w))"
    using a add_to_slot_listed assms(2,3) by (auto split: if_splits)
  moreover have "listed_in (w_tor w') = listed_in (w_tor w1)"
    using m listed_blocks(1) [OF f] listed_blocks(2) [of "(leech_slot ipv6, pid)" w2 w']
    by (simp split: if_splits)
  ultimately show ?thesis by simp
qed

lemma seed_block_listed:
  assumes "seed_block e cfg um req pid ipv6 w = Inr (pp, w')" and "req ''peer_id'' = Some pid" and "work_ok cfg w"
  shows "listed_in (w_tor w') = (if (seed_slot ipv6, pid) \<notin> listed_in (w_tor w) \<and> (Leechers, pid) \<notin> listed_in (w_tor w)
    then insert (seed_slot ipv6, pid) (listed_in (w_tor w)) else listed_in (w_tor w))"
  using assms(1) add_to_slot_listed [where w = w and pid = pid and req = req, OF _ assms(2,3)]
  by (auto simp: seed_block_def split: if_splits)

lemma find_peer_listed:
  assumes f: "find_peer e cfg ls um req pid left event ipv6 w = Inr (pp, free, w')" and pid: "req ''peer_id'' = Some pid"
    and ok: "work_ok cfg w" and pton: "pton_ok (e_pton e)" and pk: "passkey_ok cfg um req (length (w_users w))"
  shows "announce_listed left event ipv6 pid (listed_in (w_tor w)) =
    listed_in (w_tor w') - removed_slots left event ipv6 \<times> {pid}"
proof -
  obtain pp1 free1 w1 pp2 where
    l: "(if left \<noteq> ''0'' \<or> event = ''completed''
           then bindE (leech_block e cfg ls um req pid event ipv6 w) (\<lambda>(pp, free, w'). Inr (Some pp, free, w'))
           else Inr (None, 0, w)) = Inr (pp1, free1, w1)"
    and sd: "(if left = ''0''
           then bindE (seed_block e cfg um req pid ipv6 w1) (\<lambda>(pp, w'). Inr (Some pp, w'))
           else Inr (pp1, w1)) = Inr (pp2, w')"
    using f by (auto simp: find_peer_def bindE_Inr_iff split: option.splits)
  have l1: "listed_in (w_tor w1) = (if left \<noteq> ''0'' \<or> event = ''completed'' then insert (leech_slot ipv6, pid) (listed_in (w_tor w))
      else listed_in (w_tor w))"
    using l leech_block_listed [where w = w and pid = pid and req = req, OF _ pid ok] by (auto split: if_splits)
  have "work_ok cfg w1"
    using l leech_block_keeps [OF _ pton pk] ok by (auto simp: keeps_work_def split: if_splits)
  then have seeds: "listed_in (w_tor w') =
      (if (seed_slot ipv6, pid) \<notin> listed_in (w_tor w1) \<and> (Leechers, pid) \<notin> listed_in (w_tor w1)
       then insert (seed_slot ipv6, pid) (listed_in (w_tor w1)) else listed_in (w_tor w1))" if "left = ''0''"
    using seed_block_listed [where req = req and pid = pid and w = w1] sd pid that by auto
  have "left \<noteq> ''0'' \<Longrightarrow> w' = w1" using sd by simp
  with seeds show ?thesis
    unfolding announce_listed_def Let_def l1 [symmetric] by (cases "left = ''0''") (simp_all del: in_listed_in)
qed

lemma remove_from_listed:
  assumes "remove_from req sl w = Inr w'" and "req ''peer_id'' = Some pid"
  shows "listed_in (w_tor w') = listed_in (w_tor w) - {(sl, pid)}"
  using assms by (auto simp: remove_from_def removePeer_def split: if_splits)

lemma removal_block_listed:
  assumes "removal_block req left event ipv6 w = Inr w'" and "req ''peer_id'' = Some pid"
  shows "listed_in (w_tor w') = listed_in (w_tor w) - removed_slots left event ipv6 \<times> {pid}"
  using assms remove_from_listed [where req = req and pid = pid]
  by (fastforce simp: removal_block_def removed_slots_def simp del: in_listed_in split: if_splits)

text \<open>The whole announce does to the tables what the specification does to the set.\<close>

lemma announce_work_listed:
  assumes run: "announce_work e cfg ls um req event ipv6 w = Inr (reply, w')"
    and pid: "req ''peer_id'' = Some pid" and left: "req ''left'' = Some left"
    and ok: "work_ok cfg w" and pton: "pton_ok (e_pton e)" and pk: "passkey_ok cfg um req (length (w_users w))"
  shows "listed_in (w_tor w') = announce_listed left event ipv6 pid (listed_in (w_tor w))"
proof -
  let ?R = "removed_slots left event ipv6 \<times> {pid}"
  from run pid left obtain pp free balance w1 w2 w3 wb w4 w5 w6 t where
    b: "find_peer e cfg ls um req pid left event ipv6 w = Inr (pp, free, w1)"
      "mark_stopped pp event w1 = Inr w2"
      "update_amounts e cfg req (corrupt_of req) free pp w2 = Inr (balance, w3)"
      "balance_block balance w3 = Inr wb" "record_peer_block cfg pp wb = Inr w4"
      "record_user_block cfg pp w4 = Inr w5" "removal_block req left event ipv6 w5 = Inr w6"
      "reply_block cfg req left event ipv6 (w_tor (record_torrent_block cfg w6)) = Inr (reply, t)"
      "w' = (record_torrent_block cfg w6)\<lparr>w_tor := t\<rparr>" by (cases rule: announce_work_parts) auto
  have "listed_in (w_tor w5) = listed_in (w_tor w1)"
    using listed_blocks(3) [OF b(2)] listed_blocks(4) [OF b(3)] listed_blocks(5) [OF b(4)] listed_blocks(6) [OF b(5)]
      listed_blocks(7) [OF b(6)]
    by simp
  moreover have "listed_in t = listed_in (w_tor w6)"
    using listed_blocks(8) [OF b(8)] by (simp add: record_torrent_block_def split: if_splits)
  ultimately have "listed_in (w_tor w') = listed_in (w_tor w1) - ?R"
    using removal_block_listed [OF b(7) pid] by (simp add: b(9))
  also have "\<dots> = announce_listed left event ipv6 pid (listed_in (w_tor w))"
    by (rule find_peer_listed [OF b(1) pid ok pton pk, symmetric])
  finally show ?thesis .
qed

end
