(* ===== verification/Accounting.thy ===== *)
theory Accounting
  imports AnnounceInv
begin

text \<open>
  When the accounting of an announce is defined. The balance of a torrent is a \<open>long\<close> whose
  overflow is undefined behaviour, and the corrupt count of a new peer is read before it is
  set. \<open>accountable\<close> collects conditions under which neither happens; the lemmas show that
  finding the peer keeps them and that the new balance is then a \<open>long\<close>.
\<close>

section \<open>Signed results of unsigned arithmetic\<close>

lemma sint_small:
  assumes "w = word_of_int n" and "\<bar>n\<bar> < 2 ^ 62"
  shows "sint (w :: u64) = n"
proof -
  have "- (2 ^ 63) \<le> n" "n < 2 ^ 63" using assms(2) by auto
  then show ?thesis
    using assms(1) by (simp add: signed_of_int signed_take_bit_int_eq_self)
qed

text \<open>Amounts below \<open>2^60\<close> bytes.\<close>

definition small :: "u64 \<Rightarrow> bool" where
  "small n \<longleftrightarrow> unat n < 2 ^ 60"

lemma small_uint: "small n \<Longrightarrow> 0 \<le> uint n \<and> uint n < 2 ^ 60"
  unfolding small_def uint_nat by (metis of_nat_0_le_iff of_nat_less_iff of_nat_numeral of_nat_power)

lemma sum_bounds:
  fixes d u c D U k f M :: int
  assumes "0 \<le> d" "d < M" "0 \<le> u" "u < M" "0 \<le> c" "c < M" "0 \<le> D" "D < M" "0 \<le> U" "U < M" "0 \<le> k" "k < M"
    and f: "f \<in> {0, 1, 2}"
  shows "\<bar>c - k - (d * (1 - f) - D) + (u - U)\<bar> < 4 * M"
proof -
  consider "f = 0" | "f = 1" | "f = 2" using f by blast
  then show ?thesis using assms(1-12) by cases simp_all
qed

text \<open>The change of the balance: its two differences and the corrupt bytes, each term once.\<close>

lemma charge_bounds:
  fixes d u corrupt D U :: u64 and known :: u32
  assumes "small d" "small u" "small corrupt" "small D" "small U" and f: "f \<in> {0, 1, 2}"
  shows "\<bar>sint (0 - (ucast known - corrupt) - (d * word_of_int (1 - f) - D) + (u - U))\<bar> < 2 ^ 62"
proof -
  note b = small_uint [OF assms(1)] small_uint [OF assms(2)] small_uint [OF assms(3)] small_uint [OF assms(4)]
    small_uint [OF assms(5)]
  have k: "0 \<le> uint known" "uint known < 2 ^ 32" using uint_bounded [of known] by simp_all
  define n where "n = uint corrupt - uint known - (uint d * (1 - f) - uint D) + (uint u - uint U)"
  have "word_of_int n = (0 - (word_of_int (uint known) - corrupt) - (d * word_of_int (1 - f) - D) + (u - U) :: u64)"
    by (simp add: n_def)
  then have "0 - (ucast known - corrupt) - (d * word_of_int (1 - f) - D) + (u - U) = word_of_int n"
    by (simp only: ucast_eq)
  moreover have "\<bar>n\<bar> < 4 * 2 ^ 60"
    unfolding n_def using b k f by (intro sum_bounds) (simp_all add: order_less_le_trans)
  ultimately show ?thesis using sint_small [of _ n] by simp
qed

section \<open>Conditions\<close>

definition entry_ok :: "config \<Rightarrow> peer \<Rightarrow> bool" where
  "entry_ok cfg p \<longleftrightarrow> (\<not> is_public cfg \<longrightarrow> p_corrupt p \<noteq> None) \<and>
    (is_private cfg \<longrightarrow> small (p_totalDownloaded p) \<and> small (p_totalUploaded p))"

definition entries_ok :: "config \<Rightarrow> string \<Rightarrow> torrent \<Rightarrow> bool" where
  "entries_ok cfg pid t \<longleftrightarrow> (\<forall>sl. \<forall>(k, p) \<in> set (pMap (get_slot sl t)). k = pid \<longrightarrow> entry_ok cfg p)"

text \<open>
  Unless the tracker is public, the storage of a new peer holds some corrupt count and the
  entries of this peer have one; on a private tracker the announced and the remembered
  amounts are small; the balance of the torrent is at most \<open>2^62\<close> from zero.
\<close>

definition accountable :: "env \<Rightarrow> config \<Rightarrow> request \<Rightarrow> string \<Rightarrow> torrent \<Rightarrow> bool" where
  "accountable e cfg req pid t \<longleftrightarrow>
    (\<not> is_public cfg \<longrightarrow> e_corrupt e \<noteq> None) \<and>
    (is_private cfg \<longrightarrow>
      (\<forall>key \<in> {''downloaded'', ''uploaded'', ''corrupt''}. \<forall>n. number req key = Inr n \<longrightarrow> small n)) \<and>
    \<bar>t_balance t\<bar> \<le> 2 ^ 62 \<and> entries_ok cfg pid t"

lemma accountable_corrupt: "accountable e cfg req pid t \<Longrightarrow> is_private cfg \<Longrightarrow> small (corrupt_of req)"
  by (auto simp: accountable_def corrupt_of_def small_def split: sum.splits)

lemma entry_ok_marked [simp]:
  "entry_ok cfg (complete p) = entry_ok cfg p" "entry_ok cfg (inactive p) = entry_ok cfg p"
  by (simp_all add: entry_ok_def complete_def inactive_def)

lemma entries_ok_getPeer: "entries_ok cfg pid t \<Longrightarrow> getPeer pid (get_slot sl t) = Some p \<Longrightarrow> entry_ok cfg p"
  by (fastforce simp: entries_ok_def getPeer_def dest: map_of_SomeD)

lemma entries_ok_set_slot:
  "entries_ok cfg pid t \<Longrightarrow> \<forall>(k, p) \<in> set (pMap ps). k = pid \<longrightarrow> entry_ok cfg p \<Longrightarrow> entries_ok cfg pid (set_slot sl ps t)"
  unfolding entries_ok_def by (rule slots.all_store_keeps)

lemma entries_ok_frame [simp]:
  "entries_ok cfg pid (incSnatches t) = entries_ok cfg pid t"
  by (simp add: entries_ok_def)

lemma entries_ok_update_peer:
  "entries_ok cfg pid t \<Longrightarrow> entry_ok cfg p \<Longrightarrow> entries_ok cfg pid (update_peer pp p t)"
  unfolding update_peer_def
  by (rule entries_ok_set_slot) (auto simp: entries_ok_def dest!: set_update_subset)

lemma accountable_step:
  assumes "accountable e cfg req pid t" and "t_balance t' = t_balance t" and "entries_ok cfg pid t'"
  shows "accountable e cfg req pid t'"
  using assms by (simp add: accountable_def)

lemma accountable_entries: "accountable e cfg req pid t \<Longrightarrow> entries_ok cfg pid t"
  by (simp add: accountable_def)

section \<open>Finding the peer keeps them\<close>

lemma add_to_slot_accountable:
  assumes r: "add_to_slot e cfg um req ipv6 sl w = Inr w'" and acc: "accountable e cfg req pid (w_tor w)"
  shows "accountable e cfg req pid (w_tor w')"
proof -
  obtain ps st where a: "addPeer e cfg um req (t_id (w_tor w)) ipv6 (get_slot sl (w_tor w), w_stats w) = Inr (ps, st)"
    and w': "w' = w\<lparr>w_tor := set_slot sl ps (w_tor w), w_stats := st\<rparr>"
    using r by (auto simp: add_to_slot_def)
  from a obtain k p u ip port l d up client where
    p: "new_peer e ip port u l d up (t_id (w_tor w)) client k ipv6 = Inr p" and
    ps: "ps = (get_slot sl (w_tor w))\<lparr>pMap := pm_emplace (e_order e) k p (pMap (get_slot sl (w_tor w)))\<rparr>" and
    n: "number req ''downloaded'' = Inr d" "number req ''uploaded'' = Inr up"
    unfolding number_def by (rule addPeer_Inr)
  have "entry_ok cfg p"
    using new_peer_fields [OF p] n acc by (auto simp: entry_ok_def accountable_def)
  then have "entries_ok cfg pid (w_tor w')"
    using accountable_entries [OF acc] unfolding w'
    by (auto simp: ps entries_ok_def intro!: entries_ok_set_slot [unfolded entries_ok_def])
  then show ?thesis by (rule accountable_step [OF acc, rotated]) (simp add: w')
qed

lemma free_rate_range:
  assumes "free_rate e cfg ls req pp w = Inr (free, w')"
  shows "w_tor w' = w_tor w \<and> free div 100 \<in> {0, 1, 2}"
proof -
  have u: "int (unat (t_free (w_tor w))) div 100 \<in> {0, 1, 2}"
  proof -
    have "uint (t_free (w_tor w)) < 256" using uint_bounded [of "t_free (w_tor w)"] by simp
    then have "int (unat (t_free (w_tor w))) < 256" by simp
    then have "int (unat (t_free (w_tor w))) div 100 < 3" by simp
    moreover have "0 \<le> int (unat (t_free (w_tor w))) div 100" by (intro pos_imp_zdiv_nonneg_iff [THEN iffD2]) simp_all
    ultimately show ?thesis by auto
  qed
  then show ?thesis using assms by (auto simp: free_rate_def Let_def split: if_splits)
qed

lemma marks_accountable:
  assumes acc: "accountable e cfg req pid (w_tor w)" and pp: "snd pp = pid"
  shows "mark_completed pp w = Inr w' \<Longrightarrow> accountable e cfg req pid (w_tor w')"
    and "mark_stopped pp event w = Inr w' \<Longrightarrow> accountable e cfg req pid (w_tor w')"
proof -
  have e: "entry_ok cfg p" if "peer_at pp (w_tor w) = Inr p" for p
    using that pp entries_ok_getPeer [OF accountable_entries [OF acc]] by (cases pp) (simp add: peer_at_Inr)
  show "accountable e cfg req pid (w_tor w')" if "mark_completed pp w = Inr w'"
  proof -
    from that obtain p where p: "peer_at pp (w_tor w) = Inr p"
      and w': "w' = w\<lparr>w_tor := incSnatches (update_peer pp (complete p) (w_tor w))\<rparr>" by (auto simp: mark_completed_def)
    show ?thesis
      by (rule accountable_step [OF acc])
        (use e [OF p] accountable_entries [OF acc] in \<open>simp_all add: w' entries_ok_update_peer\<close>)
  qed
  show "accountable e cfg req pid (w_tor w')" if "mark_stopped pp event w = Inr w'"
  proof (cases "event = ''stopped''")
    case True
    with that obtain p where p: "peer_at pp (w_tor w) = Inr p"
      and w': "w' = w\<lparr>w_tor := update_peer pp (inactive p) (w_tor w)\<rparr>" by (auto simp: mark_stopped_def)
    show ?thesis
      by (rule accountable_step [OF acc])
        (use e [OF p] accountable_entries [OF acc] in \<open>simp_all add: w' entries_ok_update_peer\<close>)
  qed (use that acc in \<open>simp add: mark_stopped_def\<close>)
qed

lemma find_peer_free:
  "find_peer e cfg ls um req pid left event ipv6 w = Inr (pp, free, w') \<Longrightarrow> free div 100 \<in> {0, 1, 2}"
  by (auto simp: find_peer_def leech_block_def Let_def split: if_splits option.splits dest!: free_rate_range)

lemma leech_block_accountable:
  assumes r: "leech_block e cfg ls um req pid event ipv6 w = Inr (pp, free, w')"
    and acc: "accountable e cfg req pid (w_tor w)"
  shows "accountable e cfg req pid (w_tor w')"
proof -
  let ?pp = "(leech_slot ipv6, pid)"
  from r obtain w1 w2 where
    a: "(if getPeer pid (get_slot (leech_slot ipv6) (w_tor w)) = None
            then add_to_slot e cfg um req ipv6 (leech_slot ipv6) w else Inr w) = Inr w1"
    and f: "free_rate e cfg ls req ?pp w1 = Inr (free, w2)"
    and m: "(if event = ''completed'' then mark_completed ?pp w2 else Inr w2) = Inr w'"
    by (auto simp: leech_block_def Let_def)
  have "accountable e cfg req pid (w_tor w1)" using a acc add_to_slot_accountable by (auto split: if_splits)
  then have "accountable e cfg req pid (w_tor w2)" using free_rate_range [OF f] by simp
  then show ?thesis
    using m marks_accountable(1) [of e cfg req pid w2 ?pp] by (auto split: if_splits)
qed

lemma find_peer_accountable:
  assumes r: "find_peer e cfg ls um req pid left event ipv6 w = Inr (pp, free, w')"
    and acc: "accountable e cfg req pid (w_tor w)"
  shows "accountable e cfg req pid (w_tor w') \<and> free div 100 \<in> {0, 1, 2}"
proof -
  from r obtain pp1 w1 pp2 where
    l: "(if left \<noteq> ''0'' \<or> event = ''completed''
           then bindE (leech_block e cfg ls um req pid event ipv6 w) (\<lambda>(pp, free, w'). Inr (Some pp, free, w'))
           else Inr (None, 0, w)) = Inr (pp1, free, w1)"
    and s: "(if left = ''0''
           then bindE (seed_block e cfg um req pid ipv6 w1) (\<lambda>(pp, w'). Inr (Some pp, w'))
           else Inr (pp1, w1)) = Inr (pp2, w')"
    by (auto simp: find_peer_def bindE_Inr_iff split: option.splits)
  have "accountable e cfg req pid (w_tor w1)"
    using l acc by (auto split: if_splits dest!: leech_block_accountable)
  then have "accountable e cfg req pid (w_tor w')"
    using s add_to_slot_accountable by (auto simp: seed_block_def split: if_splits)
  with find_peer_free [OF r] show ?thesis by simp
qed

section \<open>The new balance\<close>

lemma update_amounts_balance:
  assumes r: "update_amounts e cfg req (corrupt_of req) free pp w = Inr (b, w')"
    and acc: "accountable e cfg req pid (w_tor w)" and pp: "snd pp = pid" and f: "free div 100 \<in> {0, 1, 2}"
  shows "\<exists>t. setBalance b (w_tor w') = Inr t"
proof -
  have bal: "t_balance (w_tor w') = t_balance (w_tor w)"
    using r by (auto simp: update_amounts_def Let_def split: if_splits)
  have "\<bar>b\<bar> < 2 ^ 62"
  proof (cases "is_private cfg")
    case True
    with r obtain p known d u l where p: "peer_at pp (w_tor w) = Inr p" "getCorrupt p = Inr known"
      and n: "number req ''downloaded'' = Inr d" "number req ''uploaded'' = Inr u"
      and b: "b = sint (0 - (ucast known - corrupt_of req) - (d * word_of_int (1 - free div 100) - p_totalDownloaded p)
        + (u - p_totalUploaded p))"
      by (auto simp: update_amounts_def Let_def)
    have "entry_ok cfg p"
      using p(1) pp entries_ok_getPeer [OF accountable_entries [OF acc]] by (cases pp) (simp add: peer_at_Inr)
    then have "small (p_totalDownloaded p)" "small (p_totalUploaded p)" using True by (simp_all add: entry_ok_def)
    moreover have "small d" "small u" using n acc True by (auto simp: accountable_def)
    ultimately show ?thesis unfolding b using accountable_corrupt [OF acc True] f by (intro charge_bounds)
  next
    case False
    with r show ?thesis by (simp add: update_amounts_def)
  qed
  moreover have "\<bar>t_balance (w_tor w)\<bar> \<le> 2 ^ 62" using acc by (simp add: accountable_def)
  ultimately have "- (2 ^ 63) \<le> t_balance (w_tor w') + b \<and> t_balance (w_tor w') + b < 2 ^ 63"
    using bal by (simp add: abs_le_iff abs_less_iff)
  then show ?thesis by (simp add: setBalance_def long_range_def)
qed

end
