(* ===== verification/AnnounceEffect.thy ===== *)
theory AnnounceEffect
  imports AnnounceReply Listing Accounting
begin

text \<open>
  What an announce does to the tables: when the request is complete and numeric, the cursors
  are valid, the accounting is defined and the cursor of the IPv4 leechers is not lost to a
  completion over IPv6, it neither throws nor reaches undefined behaviour; it changes only
  entries with the peer id of the request, in the tables of its torrent, and the listed
  peers exactly as specified.
\<close>

section \<open>Requests that can be served\<close>

definition numeric :: "request \<Rightarrow> string \<Rightarrow> bool" where
  "numeric req key \<longleftrightarrow> (\<exists>n. number req key = Inr n)"

definition port_ok :: "request \<Rightarrow> bool" where
  "port_ok req \<longleftrightarrow> (\<exists>n. bindE (at_key req ''port'') stoi = Inr n)"

definition request_ok :: "config \<Rightarrow> (string \<rightharpoonup> nat) \<Rightarrow> nat \<Rightarrow> request \<Rightarrow> bool" where
  "request_ok cfg um n req \<longleftrightarrow>
    req ''peer_id'' \<noteq> None \<and> req ''ip'' \<noteq> None \<and> req ''user-agent'' \<noteq> None \<and> port_ok req \<and>
    numeric req ''left'' \<and> numeric req ''downloaded'' \<and> numeric req ''uploaded'' \<and>
    numwant_ok cfg req \<and>
    (is_private cfg \<longrightarrow> (\<exists>k a. req ''reqpasskey'' = Some k \<and> um k = Some a \<and> a < n))"

lemma request_ok_passkey: "request_ok cfg um n req \<Longrightarrow> passkey_ok cfg um req n"
  by (auto simp: request_ok_def passkey_ok_def)

lemma numericE:
  assumes "numeric req key" obtains v n where "req key = Some v" "stoul v = Inr n" "number req key = Inr n"
  using assms by (auto simp: numeric_def number_def)

section \<open>Every block returns\<close>

definition work_inv :: "config \<Rightarrow> work \<Rightarrow> bool" where
  "work_inv cfg w \<longleftrightarrow> work_ok cfg w \<and> cursors_ok (w_tor w)"

definition present :: "peer_ptr \<Rightarrow> work \<Rightarrow> bool" where
  "present pp w \<longleftrightarrow> getPeer (snd pp) (get_slot (fst pp) (w_tor w)) \<noteq> None"

text \<open>Entries with another peer id are untouched.\<close>

definition others :: "string \<Rightarrow> torrent \<Rightarrow> torrent \<Rightarrow> bool" where
  "others pid t t' \<longleftrightarrow> (\<forall>sl k. k \<noteq> pid \<longrightarrow> getPeer k (get_slot sl t') = getPeer k (get_slot sl t))"

lemma others_refl [simp]: "others pid t t"
  by (simp add: others_def)

lemma others_trans: "others pid t t' \<Longrightarrow> others pid t' t'' \<Longrightarrow> others pid t t''"
  by (simp add: others_def)

lemma presentE:
  assumes "present pp w" obtains p where "peer_at pp (w_tor w) = Inr p" "getPeer (snd pp) (get_slot (fst pp) (w_tor w)) = Some p"
  using assms by (cases pp) (auto simp: present_def peer_at_Inr)

lemma new_peer_total: "stoi port = Inr n \<Longrightarrow> \<exists>p. new_peer e ip port u l d up tid client pid ipv6 = Inr p"
  by (simp add: new_peer_def ip_port_hex_encode_def Let_def)

lemma add_to_slot_total:
  assumes rq: "request_ok cfg um (length (w_users w)) req" and pid: "req ''peer_id'' = Some pid"
    and inv: "work_inv cfg w" and pton: "pton_ok (e_pton e)"
  shows "\<exists>w'. add_to_slot e cfg um req (slot_ipv6 sl) sl w = Inr w' \<and> work_inv cfg w' \<and> present (sl, pid) w' \<and>
    w_users w' = w_users w \<and> others pid (w_tor w) (w_tor w')"
proof -
  obtain left l d dn u un ip port pn ua where
    "req ''left'' = Some left" "stoul left = Inr l" "req ''downloaded'' = Some d" "stoul d = Inr dn"
    "req ''uploaded'' = Some u" "stoul u = Inr un" "req ''ip'' = Some ip" "req ''port'' = Some port"
    "stoi port = Inr pn" "req ''user-agent'' = Some ua"
    using rq by (auto simp: request_ok_def port_ok_def elim!: numericE)
  note params = this pid
  have "\<exists>us. (if get cfg ''type'' = ''private''
            then bindE (at_key req ''reqpasskey'') (\<lambda>k. Inr (um k)) else Inr None) = Inr us"
    using rq by (cases "get cfg ''type'' = ''private''") (auto simp: request_ok_def is_private_def)
  then obtain us where us: "(if get cfg ''type'' = ''private''
            then bindE (at_key req ''reqpasskey'') (\<lambda>k. Inr (um k)) else Inr None) = Inr us" by blast
  obtain p where p: "new_peer e ip port us l dn un (t_id (w_tor w)) ua pid (slot_ipv6 sl) = Inr p"
    using new_peer_total [OF params(9)] by blast
  let ?ps = "(get_slot sl (w_tor w))\<lparr>pMap := pm_emplace (e_order e) pid p (pMap (get_slot sl (w_tor w)))\<rparr>"
  have add: "addPeer e cfg um req (t_id (w_tor w)) (slot_ipv6 sl) (get_slot sl (w_tor w), w_stats w)
      = Inr (?ps, incPeers (w_stats w))"
    using params us p by (simp add: addPeer_def)
  let ?w = "w\<lparr>w_tor := set_slot sl ?ps (w_tor w), w_stats := incPeers (w_stats w)\<rparr>"
  have r: "add_to_slot e cfg um req (slot_ipv6 sl) sl w = Inr ?w" by (simp add: add_to_slot_def add)
  have "pm_wf (pMap (get_slot sl (w_tor w)))"
    using inv torrent_ok_slot by (fastforce simp: work_inv_def work_ok_def peers_ok_def)
  then have pres: "present (sl, pid) ?w \<and> others pid (w_tor w) (w_tor ?w)"
    by (simp add: present_def others_def getPeer_def pm_find_emplace)
  have "cursor_ok (get_slot sl (w_tor w))" using inv by (simp add: work_inv_def cursors_ok_def)
  then have "cursors_ok (w_tor ?w)"
    using inv addPeer_cursor [OF add] by (simp add: work_inv_def cursors_ok_set_slot)
  moreover have "work_ok cfg ?w"
    using add_to_slot_keeps [OF r pton request_ok_passkey [OF rq]] inv
    by (simp add: keeps_work_def work_inv_def)
  ultimately show ?thesis using r pres by (auto simp: work_inv_def)
qed

lemma private_user:
  assumes "work_inv cfg w" and "is_private cfg" and "getPeer k (get_slot sl (w_tor w)) = Some p"
  shows "valid_ptr (w_users w) (p_user p)"
  using assms peers_ok_getPeer [OF torrent_ok_slot [of "is_private cfg" "w_users w" "w_tor w" sl], of k p]
  by (auto simp: work_inv_def work_ok_def peer_ok_def)

lemma free_rate_total:
  assumes inv: "work_inv cfg w" and pp: "present pp w" and d: "numeric req ''downloaded''"
  shows "\<exists>free d. free_rate e cfg ls req pp w = Inr (free, w\<lparr>w_db := d\<rparr>)"
proof -
  obtain p where p: "peer_at pp (w_tor w) = Inr p" "getPeer (snd pp) (get_slot (fst pp) (w_tor w)) = Some p"
    using pp by (rule presentE)
  have same: "w = w\<lparr>w_db := w_db w\<rparr>" by simp
  obtain n where n: "bindE (at_key req ''downloaded'') stoul = Inr n"
    using d by (auto simp: numeric_def number_def)
  show ?thesis
  proof (cases "is_private cfg")
    case True
    then have "valid_ptr (w_users w) (p_user p)" using private_user [OF inv] p by blast
    with True p(1) n same show ?thesis
      by (auto simp: free_rate_def deref_valid Let_def) (metis same)+
  next
    case False
    with same show ?thesis by (auto simp: free_rate_def) (metis same)
  qed
qed

lemma update_peer_inv:
  assumes inv: "work_inv cfg w" and p: "getPeer (snd pp) (get_slot (fst pp) (w_tor w)) = Some p"
    and q: "peer_ok (is_private cfg) (slot_ipv6 (fst pp)) (w_users w) p \<Longrightarrow>
      peer_ok (is_private cfg) (slot_ipv6 (fst pp)) (w_users w) q" "p_peerID q = p_peerID p"
  shows "torrent_ok (is_private cfg) (w_users w) (update_peer pp q (w_tor w))"
    "cursors_ok (update_peer pp q (w_tor w))"
proof -
  have "peer_at pp (w_tor w) = Inr p" using p by (cases pp) (simp add: peer_at_Inr)
  from update_peer_keeps [OF this q] inv show "torrent_ok (is_private cfg) (w_users w) (update_peer pp q (w_tor w))"
    by (simp add: work_inv_def)
  show "cursors_ok (update_peer pp q (w_tor w))"
    using inv p by (cases pp) (simp add: work_inv_def cursors_ok_update_peer)
qed

lemma getPeer_update: "getPeer k (get_slot sl (update_peer pp q t)) =
    (if sl = fst pp \<and> k = snd pp then Some q else getPeer k (get_slot sl t))"
  by (cases pp) simp

text \<open>The blocks that replace one peer: marking, accounting and the peer row.\<close>

definition replaces :: "peer_ptr \<Rightarrow> work \<Rightarrow> work \<Rightarrow> bool" where
  "replaces pp w w' \<longleftrightarrow> w_users w' = w_users w \<and>
    (\<forall>sl k. (sl, k) \<noteq> pp \<longrightarrow> getPeer k (get_slot sl (w_tor w')) = getPeer k (get_slot sl (w_tor w)))"

lemma cursors_ok_frame [simp]:
  "cursors_ok (incSnatches t) = cursors_ok t" "cursors_ok (t\<lparr>t_balance := b\<rparr>) = cursors_ok t"
  by (simp_all add: cursors_ok_def)

lemma mark_completed_total:
  assumes inv: "work_inv cfg w" and pp: "present pp w"
  shows "\<exists>w'. mark_completed pp w = Inr w' \<and> work_inv cfg w' \<and> present pp w' \<and> replaces pp w w'"
proof -
  obtain p where p: "peer_at pp (w_tor w) = Inr p" "getPeer (snd pp) (get_slot (fst pp) (w_tor w)) = Some p"
    using pp by (rule presentE)
  note u = update_peer_inv [OF inv p(2), of "complete p"]
  from p u show ?thesis
    by (cases pp)
      (auto simp: mark_completed_def work_inv_def work_ok_def present_def replaces_def getPeer_update)
qed

lemma mark_stopped_total:
  assumes inv: "work_inv cfg w" and pp: "present pp w"
  shows "\<exists>w'. mark_stopped pp event w = Inr w' \<and> work_inv cfg w' \<and> present pp w' \<and> replaces pp w w'"
proof (cases "event = ''stopped''")
  case True
  obtain p where p: "peer_at pp (w_tor w) = Inr p" "getPeer (snd pp) (get_slot (fst pp) (w_tor w)) = Some p"
    using pp by (rule presentE)
  note u = update_peer_inv [OF inv p(2), of "inactive p"]
  from p u True show ?thesis
    by (cases pp)
      (auto simp: mark_stopped_def work_inv_def work_ok_def present_def replaces_def getPeer_update)
qed (use assms in \<open>simp add: mark_stopped_def replaces_def\<close>)

text \<open>The peer has a corrupt count, where it is read.\<close>

definition known :: "config \<Rightarrow> peer_ptr \<Rightarrow> work \<Rightarrow> bool" where
  "known cfg pp w \<longleftrightarrow> (\<not> is_public cfg \<longrightarrow> (\<forall>p. peer_at pp (w_tor w) = Inr p \<longrightarrow> p_corrupt p \<noteq> None))"

lemma accountable_known: "accountable e cfg req pid (w_tor w) \<Longrightarrow> known cfg (sl, pid) w"
  using entries_ok_getPeer [OF accountable_entries] by (fastforce simp: known_def peer_at_Inr entry_ok_def)

lemma private_not_public: "is_private cfg \<Longrightarrow> \<not> is_public cfg"
  by (simp add: is_private_def is_public_def)

lemma update_amounts_total:
  assumes inv: "work_inv cfg w" and pp: "present pp w" and kn: "known cfg pp w"
    and num: "numeric req ''downloaded''" "numeric req ''uploaded''" "numeric req ''left''"
  shows "\<exists>b w'. update_amounts e cfg req corrupt free pp w = Inr (b, w') \<and> work_inv cfg w' \<and> present pp w' \<and>
    replaces pp w w' \<and> known cfg pp w'"
proof (cases "is_private cfg")
  case True
  obtain p where p: "peer_at pp (w_tor w) = Inr p" "getPeer (snd pp) (get_slot (fst pp) (w_tor w)) = Some p"
    using pp by (rule presentE)
  obtain d u l where n: "number req ''downloaded'' = Inr d" "number req ''uploaded'' = Inr u" "number req ''left'' = Inr l"
    using num by (auto simp: numeric_def)
  obtain c where c: "getCorrupt p = Inr c"
    using kn p(1) private_not_public [OF True] by (auto simp: known_def getCorrupt_Inr)
  let ?q = "peer_updateStats (d * word_of_int (1 - free div 100)) u l (ucast corrupt) (e_now e) (p, w_stats w)"
  note u = update_peer_inv [OF inv p(2), of "fst ?q"]
  have ok: "torrent_ok (is_private cfg) (w_users w) (update_peer pp (fst ?q) (w_tor w))"
    "cursors_ok (update_peer pp (fst ?q) (w_tor w))"
    by (rule u; simp add: peer_ok_updateStats)+
  have "known cfg pp (w\<lparr>w_tor := update_peer pp (fst ?q) (w_tor w), w_stats := snd ?q\<rparr>)"
    by (cases pp) (auto simp: known_def peer_at_Inr)
  then show ?thesis
    using True p n ok c
    by (cases pp)
      (simp add: update_amounts_def Let_def work_inv_def work_ok_def present_def replaces_def getPeer_update)
qed (use assms in \<open>simp add: update_amounts_def replaces_def\<close>)

lemma record_peer_block_total:
  assumes inv: "work_inv cfg w" and pp: "present pp w" and kn: "known cfg pp w"
  shows "\<exists>w'. record_peer_block cfg pp w = Inr w' \<and> work_inv cfg w' \<and> present pp w' \<and> replaces pp w w'"
proof (cases "is_public cfg")
  case False
  obtain p where p: "peer_at pp (w_tor w) = Inr p" "getPeer (snd pp) (get_slot (fst pp) (w_tor w)) = Some p"
    using pp by (rule presentE)
  have "get cfg ''type'' = ''private'' \<longrightarrow> valid_ptr (w_users w) (p_user p)"
    using private_user [OF inv _ p(2)] by (simp add: is_private_def)
  moreover have "p_corrupt p \<noteq> None" using kn False p(1) by (simp add: known_def)
  ultimately obtain row where
    r: "recordPeer cfg (w_users w) (p, w_db w) = Inr (p\<lparr>p_timespent := 0\<rparr>, push_request Peers_table row (w_db w))"
    using recordPeer_valid by blast
  note u = update_peer_inv [OF inv p(2), of "p\<lparr>p_timespent := 0\<rparr>"]
  have ok: "torrent_ok (is_private cfg) (w_users w) (update_peer pp (p\<lparr>p_timespent := 0\<rparr>) (w_tor w))"
    "cursors_ok (update_peer pp (p\<lparr>p_timespent := 0\<rparr>) (w_tor w))"
    by (rule u; simp add: peer_ok_def)+
  show ?thesis
    using False p r ok
    by (cases pp)
      (simp add: record_peer_block_def work_inv_def work_ok_def present_def replaces_def getPeer_update)
qed (use assms in \<open>simp add: record_peer_block_def replaces_def\<close>)

lemma record_user_block_total:
  assumes inv: "work_inv cfg w" and pp: "present pp w"
  shows "\<exists>w'. record_user_block cfg pp w = Inr w' \<and> work_inv cfg w' \<and> w_tor w' = w_tor w"
proof (cases "is_private cfg")
  case True
  obtain p where p: "peer_at pp (w_tor w) = Inr p" "getPeer (snd pp) (get_slot (fst pp) (w_tor w)) = Some p"
    using pp by (rule presentE)
  have v: "valid_ptr (w_users w) (p_user p)" using private_user [OF inv True p(2)] .
  then obtain h where h: "modify (p_user p) (user_updateStats (ucast (p_downloaded p)) (ucast (p_uploaded p))) (w_users w) = Inr h"
    by (simp add: modify_valid)
  have "valid_ptr h (p_user p)" using valid_ptr_length [OF _ v] modify_length [OF h] by simp
  then obtain h' d' where r: "recordUser (p_user p) (h, w_db w) = Inr (h', d')" using recordUser_valid by blast
  have "length h' = length (w_users w)" using recordUser_length [OF r] modify_length [OF h] by simp
  then have "work_inv cfg (w\<lparr>w_users := h', w_db := d'\<rparr>)"
    using inv by (auto simp: work_inv_def work_ok_def intro: torrent_ok_heap)
  with True p(1) h r show ?thesis by (simp add: record_user_block_def)
qed (use assms in \<open>simp add: record_user_block_def\<close>)

lemma replaces_others: "replaces pp w w' \<Longrightarrow> others (snd pp) (w_tor w) (w_tor w')"
  by (cases pp) (auto simp: replaces_def others_def)

section \<open>Finding the peer\<close>

text \<open>The result of finding the peer: it is there, under the id of the request.\<close>

definition found :: "config \<Rightarrow> string \<Rightarrow> work \<Rightarrow> peer_ptr \<Rightarrow> work \<Rightarrow> bool" where
  "found cfg pid w pp w' \<longleftrightarrow> work_inv cfg w' \<and> present pp w' \<and> snd pp = pid \<and> w_users w' = w_users w \<and>
    others pid (w_tor w) (w_tor w')"

lemma leech_block_total:
  assumes rq: "request_ok cfg um (length (w_users w)) req" and pid: "req ''peer_id'' = Some pid"
    and inv: "work_inv cfg w" and pton: "pton_ok (e_pton e)"
  shows "\<exists>free w'. leech_block e cfg ls um req pid event ipv6 w = Inr ((leech_slot ipv6, pid), free, w') \<and>
    found cfg pid w (leech_slot ipv6, pid) w'"
proof -
  let ?pp = "(leech_slot ipv6, pid)"
  obtain w1 where w1: "(if getPeer pid (get_slot (leech_slot ipv6) (w_tor w)) = None
            then add_to_slot e cfg um req ipv6 (leech_slot ipv6) w else Inr w) = Inr w1"
    and i1: "found cfg pid w ?pp w1"
  proof (cases "getPeer pid (get_slot (leech_slot ipv6) (w_tor w)) = None")
    case True
    then show thesis
      using that add_to_slot_total [OF rq pid inv pton, of "leech_slot ipv6"] by (auto simp: found_def)
  next
    case False
    then show thesis using that [of w] inv by (auto simp: found_def present_def)
  qed
  obtain free d where w2: "free_rate e cfg ls req ?pp w1 = Inr (free, w1\<lparr>w_db := d\<rparr>)"
  proof -
    have "work_inv cfg w1" "present ?pp w1" "numeric req ''downloaded''"
      using i1 rq by (simp_all add: found_def request_ok_def)
    from free_rate_total [OF this, of e ls] show thesis using that by blast
  qed
  have i2: "found cfg pid w ?pp (w1\<lparr>w_db := d\<rparr>)"
    using i1 by (auto simp: found_def work_inv_def work_ok_def present_def)
  obtain w3 where w3: "(if event = ''completed'' then mark_completed ?pp (w1\<lparr>w_db := d\<rparr>) else Inr (w1\<lparr>w_db := d\<rparr>)) = Inr w3"
    and i3: "found cfg pid w ?pp w3"
  proof (cases "event = ''completed''")
    case True
    have "work_inv cfg (w1\<lparr>w_db := d\<rparr>)" "present ?pp (w1\<lparr>w_db := d\<rparr>)" using i2 by (simp_all add: found_def)
    from mark_completed_total [OF this] obtain w3 where m: "mark_completed ?pp (w1\<lparr>w_db := d\<rparr>) = Inr w3"
      "work_inv cfg w3" "present ?pp w3" "replaces ?pp (w1\<lparr>w_db := d\<rparr>) w3" by blast
    have "found cfg pid w ?pp w3"
      using m(2-4) i2 replaces_others [OF m(4)]
      by (auto simp: found_def replaces_def intro: others_trans)
    with True m(1) that show thesis by simp
  qed (use that i2 in simp)
  show ?thesis using w1 w2 w3 i3 by (simp add: leech_block_def Let_def)
qed

lemma seed_block_total:
  assumes rq: "request_ok cfg um (length (w_users w)) req" and pid: "req ''peer_id'' = Some pid"
    and inv: "work_inv cfg w" and pton: "pton_ok (e_pton e)"
  shows "\<exists>sl w'. seed_block e cfg um req pid ipv6 w = Inr ((sl, pid), w') \<and> sl \<in> {seed_slot ipv6, Leechers} \<and>
    found cfg pid w (sl, pid) w'"
proof -
  consider "getPeer pid (get_slot (seed_slot ipv6) (w_tor w)) \<noteq> None"
    | "getPeer pid (get_slot (seed_slot ipv6) (w_tor w)) = None" "getPeer pid (get_slot Leechers (w_tor w)) \<noteq> None"
    | "getPeer pid (get_slot (seed_slot ipv6) (w_tor w)) = None" "getPeer pid (get_slot Leechers (w_tor w)) = None"
    by blast
  then show ?thesis
  proof cases
    case 3
    with add_to_slot_total [OF rq pid inv pton, of "seed_slot ipv6"] show ?thesis
      by (auto simp: seed_block_def found_def)
  qed (use inv in \<open>auto simp: seed_block_def found_def present_def simp del: get_slot.simps\<close>)
qed

lemma found_trans: "found cfg pid w pp w' \<Longrightarrow> found cfg pid w' pp' w'' \<Longrightarrow> found cfg pid w pp' w''"
  by (auto simp: found_def intro: others_trans)

lemma find_peer_total:
  assumes rq: "request_ok cfg um (length (w_users w)) req" and pid: "req ''peer_id'' = Some pid"
    and inv: "work_inv cfg w" and pton: "pton_ok (e_pton e)"
  shows "\<exists>sl free w'. find_peer e cfg ls um req pid left event ipv6 w = Inr ((sl, pid), free, w') \<and>
    found cfg pid w (sl, pid) w' \<and>
    (if left = ''0'' then sl \<in> {seed_slot ipv6, Leechers} else sl = leech_slot ipv6)"
proof -
  obtain pp1 free w1 where a: "(if left \<noteq> ''0'' \<or> event = ''completed''
           then bindE (leech_block e cfg ls um req pid event ipv6 w) (\<lambda>(pp, free, w'). Inr (Some pp, free, w'))
           else Inr (None, 0, w)) = Inr (pp1, free, w1)"
    and i1: "work_inv cfg w1" "w_users w1 = w_users w" "others pid (w_tor w) (w_tor w1)"
    and p1: "left \<noteq> ''0'' \<Longrightarrow> pp1 = Some (leech_slot ipv6, pid) \<and> found cfg pid w (leech_slot ipv6, pid) w1"
  proof (cases "left \<noteq> ''0'' \<or> event = ''completed''")
    case True
    from leech_block_total [OF assms] obtain free w' where
      "leech_block e cfg ls um req pid event ipv6 w = Inr ((leech_slot ipv6, pid), free, w')"
      "found cfg pid w (leech_slot ipv6, pid) w'" by blast
    with True that [of "Some (leech_slot ipv6, pid)" free w'] show thesis by (simp add: found_def)
  next
    case False
    with that [of None 0 w] inv show thesis by simp
  qed
  show ?thesis
  proof (cases "left = ''0''")
    case True
    have "request_ok cfg um (length (w_users w1)) req" using rq i1(2) by simp
    from seed_block_total [OF this pid i1(1) pton] obtain sl w' where
      s: "seed_block e cfg um req pid ipv6 w1 = Inr ((sl, pid), w')" "sl \<in> {seed_slot ipv6, Leechers}"
      "found cfg pid w1 (sl, pid) w'" by blast
    have "found cfg pid w (sl, pid) w'" using s(3) i1 by (auto simp: found_def intro: others_trans)
    moreover have "find_peer e cfg ls um req pid left event ipv6 w = Inr ((sl, pid), free, w')"
      unfolding find_peer_def a using True s(1) by simp
    ultimately show ?thesis using True s(2) by auto
  next
    case False
    have "find_peer e cfg ls um req pid left event ipv6 w = Inr ((leech_slot ipv6, pid), free, w1)"
      unfolding find_peer_def a using False p1 by simp
    with False p1 show ?thesis by auto
  qed
qed

section \<open>Removal and reply\<close>

text \<open>No block before the removal moves a cursor.\<close>

definition same_cursors :: "torrent \<Rightarrow> torrent \<Rightarrow> bool" where
  "same_cursors t t' \<longleftrightarrow> (\<forall>sl. pIt (get_slot sl t') = pIt (get_slot sl t))"

lemma same_cursors_refl [simp]: "same_cursors t t"
  by (simp add: same_cursors_def)

lemma same_cursors_trans [trans]: "same_cursors t t' \<Longrightarrow> same_cursors t' t'' \<Longrightarrow> same_cursors t t''"
  by (simp add: same_cursors_def)

lemma same_cursors_update [simp]: "same_cursors t (update_peer pp q t)"
  by (simp add: same_cursors_def update_peer_def)

lemma same_cursors_frame [simp]:
  "same_cursors t (incSnatches t') = same_cursors t t'" "same_cursors t (t'\<lparr>t_balance := b\<rparr>) = same_cursors t t'"
  by (simp_all add: same_cursors_def)

lemma add_to_slot_cursors: "add_to_slot e cfg um req ipv6 sl w = Inr w' \<Longrightarrow> same_cursors (w_tor w) (w_tor w')"
  by (auto simp: add_to_slot_def same_cursors_def elim!: addPeer_Inr)

lemma same_cursors_blocks:
  "free_rate e cfg ls req pp w = Inr (free, w') \<Longrightarrow> same_cursors (w_tor w) (w_tor w')"
  "mark_completed pp w = Inr w' \<Longrightarrow> same_cursors (w_tor w) (w_tor w')"
  "seed_block e cfg um req pid ipv6 w = Inr (pp, w') \<Longrightarrow> same_cursors (w_tor w) (w_tor w')"
  "mark_stopped pp event w = Inr w' \<Longrightarrow> same_cursors (w_tor w) (w_tor w')"
  "update_amounts e cfg req corrupt f pp w = Inr (b, w') \<Longrightarrow> same_cursors (w_tor w) (w_tor w')"
  "balance_block b w = Inr w' \<Longrightarrow> same_cursors (w_tor w) (w_tor w')"
  "record_peer_block cfg pp w = Inr w' \<Longrightarrow> same_cursors (w_tor w) (w_tor w')"
  "record_user_block cfg pp w = Inr w' \<Longrightarrow> same_cursors (w_tor w) (w_tor w')"
  by (auto simp: free_rate_def mark_completed_def seed_block_def mark_stopped_def update_amounts_def balance_block_def
      setBalance_Inr record_peer_block_def record_user_block_def Let_def add_to_slot_cursors split: if_splits)

lemma leech_block_cursors:
  assumes "leech_block e cfg ls um req pid event ipv6 w = Inr (pp, free, w')"
  shows "same_cursors (w_tor w) (w_tor w')"
  using assms by (auto simp: leech_block_def Let_def split: if_splits
      dest!: same_cursors_blocks(1) same_cursors_blocks(2) add_to_slot_cursors intro: same_cursors_trans)

lemma find_peer_cursors:
  assumes "find_peer e cfg ls um req pid left event ipv6 w = Inr (pp, free, w')"
  shows "same_cursors (w_tor w) (w_tor w')"
  using assms by (auto simp: find_peer_def bindE_Inr_iff split: if_splits option.splits
      dest!: leech_block_cursors same_cursors_blocks(3) intro: same_cursors_trans)

lemma remove_from_total:
  assumes pid: "req ''peer_id'' = Some pid" and ok: "work_ok cfg w"
  shows "\<exists>w'. remove_from req sl w = Inr w' \<and> work_ok cfg w' \<and> w_users w' = w_users w \<and> \<not> present (sl, pid) w' \<and>
    others pid (w_tor w) (w_tor w') \<and> (\<forall>sl'. sl' \<noteq> sl \<longrightarrow> get_slot sl' (w_tor w') = get_slot sl' (w_tor w)) \<and>
    (cursor_ok (get_slot sl (w_tor w)) \<longrightarrow> pIt (get_slot sl (w_tor w)) \<noteq> At pid \<longrightarrow> cursor_ok (get_slot sl (w_tor w')))"
proof -
  let ?ps = "if getPeer pid (get_slot sl (w_tor w)) = None then get_slot sl (w_tor w)
    else erase_peer pid (get_slot sl (w_tor w))"
  let ?w = "w\<lparr>w_tor := set_slot sl ?ps (w_tor w), w_stats := decPeers (w_stats w)\<rparr>"
  have r: "remove_from req sl w = Inr ?w"
    using pid by (simp add: remove_from_def removePeer_def)
  have "\<not> present (sl, pid) ?w" and "others pid (w_tor w) (w_tor ?w)"
    by (simp_all add: present_def others_def)
  with r remove_from_keeps [OF r, of cfg] ok show ?thesis by (simp add: keeps_work_def erase_peer_cursor)
qed

lemma removal_block_total:
  assumes pid: "req ''peer_id'' = Some pid" and ok: "work_ok cfg w"
  shows "\<exists>w'. removal_block req left event ipv6 w = Inr w' \<and> work_ok cfg w' \<and> w_users w' = w_users w \<and>
    others pid (w_tor w) (w_tor w') \<and> (\<forall>sl \<in> removed_slots left event ipv6. \<not> present (sl, pid) w') \<and>
    (\<forall>sl. sl \<notin> removed_slots left event ipv6 \<longrightarrow> get_slot sl (w_tor w') = get_slot sl (w_tor w)) \<and>
    (\<forall>sl. cursor_ok (get_slot sl (w_tor w)) \<longrightarrow> pIt (get_slot sl (w_tor w)) \<noteq> At pid \<longrightarrow>
      cursor_ok (get_slot sl (w_tor w')))"
proof -
  have one: ?thesis if run: "removal_block req left event ipv6 w = remove_from req sl w"
    and slots: "removed_slots left event ipv6 = {sl}" for sl
  proof -
    from remove_from_total [where req = req and sl = sl, OF pid ok] obtain w' where
      r: "remove_from req sl w = Inr w'" "work_ok cfg w'" "w_users w' = w_users w" "\<not> present (sl, pid) w'"
        "others pid (w_tor w) (w_tor w')" and
      same: "\<forall>sl'. sl' \<noteq> sl \<longrightarrow> get_slot sl' (w_tor w') = get_slot sl' (w_tor w)" and
      cur: "cursor_ok (get_slot sl (w_tor w)) \<longrightarrow> pIt (get_slot sl (w_tor w)) \<noteq> At pid \<longrightarrow> cursor_ok (get_slot sl (w_tor w'))"
      by blast
    have "cursor_ok (get_slot sl' (w_tor w)) \<longrightarrow> pIt (get_slot sl' (w_tor w)) \<noteq> At pid \<longrightarrow>
        cursor_ok (get_slot sl' (w_tor w'))" for sl'
      using same cur by (cases "sl' = sl") simp_all
    with r same show ?thesis unfolding run slots by (intro exI [of _ w']) simp
  qed
  consider (s) "event = ''stopped''" | (c) "event = ''completed''" | (o) "event \<noteq> ''stopped''" "event \<noteq> ''completed''"
    by blast
  then show ?thesis
  proof cases
    case s
    then show ?thesis
      by (intro one [of "if left \<noteq> ''0'' then leech_slot ipv6 else seed_slot ipv6"])
        (simp_all add: removal_block_def removed_slots_def bindE_def split: sum.splits)
  next
    case c
    then show ?thesis
      by (intro one [of "if ipv6 then Leechers else Leechers6"]) (simp_all add: removal_block_def removed_slots_def)
  next
    case o
    with ok show ?thesis by (simp add: removal_block_def removed_slots_def)
  qed
qed

lemma list_peers_total:
  assumes "torrent_ok private h t" and "0 < n \<longrightarrow> cursor_ok (get_slot sl t)"
    and "- (2 ^ 26) \<le> n" and "n \<le> 2 ^ 26"
  shows "\<exists>str ps. list_peers sl n ipv6 c t = Inr (str, set_slot sl ps t) \<and> pMap ps = pMap (get_slot sl t)"
proof -
  have wf: "pm_wf (pMap (get_slot sl t))"
    using torrent_ok_slot [OF assms(1), of sl] by (simp add: peers_ok_def)
  have "\<exists>str' ps'. getPeers_loop c (nat n) str (get_slot sl t) = Inr (str', ps')" for str
  proof (cases "0 < n")
    case True
    with assms(2) getPeers_loop_total [OF wf] show ?thesis by blast
  qed simp
  then obtain str' ps' where "getPeers_loop c (nat n) ((if ipv6 then ''6:peers6'' else ''5:peers'') @
      (if c then show_int (n * (if ipv6 then 18 else 6)) @ '':'' else ''d'')) (get_slot sl t) = Inr (str', ps')"
    by blast
  moreover have "int_range (n * (if ipv6 then 18 else 6)) = Inr (n * (if ipv6 then 18 else 6))"
    "int_range (n - 1) = Inr (n - 1)"
    using assms(3,4) by (auto intro!: int_range_small)
  ultimately have "\<exists>str''. getPeers (get_slot sl t) n ipv6 c = Inr (str'', ps')"
    unfolding getPeers_def Let_def by (cases c) simp_all
  then obtain str'' where g: "getPeers (get_slot sl t) n ipv6 c = Inr (str'', ps')" by blast
  then have "list_peers sl n ipv6 c t = Inr (str'', set_slot sl ps' t)" by (simp add: list_peers_def)
  with getPeers_pMap [OF g] show ?thesis by blast
qed

lemma list_lengths_stopped: "event = ''stopped'' \<Longrightarrow> list_lengths cfg req left event ipv6 t = (0, 0)"
  by (simp add: list_lengths_def)

lemma list_lengths_v4: "\<not> ipv6 \<Longrightarrow> snd (list_lengths cfg req left event ipv6 t) = 0"
  by (simp add: list_lengths_def Let_def)

lemma reply_block_total:
  assumes ok: "torrent_ok private h t"
    and c4: "event \<noteq> ''stopped'' \<Longrightarrow> cursor_ok (get_slot (list_slot left False) t)"
    and c6: "event \<noteq> ''stopped'' \<Longrightarrow> ipv6 \<Longrightarrow> cursor_ok (get_slot (list_slot left True) t)"
    and nw: "numwant_ok cfg req"
  shows "\<exists>reply t'. reply_block cfg req left event ipv6 t = Inr (reply, t') \<and> (\<forall>sl. pMap (get_slot sl t') = pMap (get_slot sl t))"
proof -
  obtain i j where ll: "list_lengths cfg req left event ipv6 t = (i, j)" by fastforce
  let ?c = "req ''compact'' \<noteq> Some ''0''"
  note r = list_lengths_range [OF ll nw]
  obtain g where g: "wants_gzip req i j = Inr g" using wants_gzip_total [OF ll nw] by blast
  have j: "0 < j \<longrightarrow> cursor_ok (get_slot (list_slot left True) t)"
    using c6 ll list_lengths_stopped [of event] list_lengths_v4 [of ipv6 cfg req left event t] by fastforce
  have i: "0 < i \<longrightarrow> cursor_ok (get_slot (list_slot left False) t)"
    using c4 ll list_lengths_stopped [of event cfg req left ipv6 t] by fastforce
  obtain p6 t1 where r6: "(if j > 0 then list_peers (list_slot left True) j True ?c t else Inr ('''', t)) = Inr (p6, t1)"
    and t1: "\<forall>sl. pMap (get_slot sl t1) = pMap (get_slot sl t)"
      "get_slot (list_slot left False) t1 = get_slot (list_slot left False) t" "torrent_ok private h t1"
  proof (cases "0 < j")
    case True
    with list_peers_total [OF ok j r(3,4), of True ?c] obtain str ps where
      l: "list_peers (list_slot left True) j True ?c t = Inr (str, set_slot (list_slot left True) ps t)"
      "pMap ps = pMap (get_slot (list_slot left True) t)" by auto
    with True that list_slot_neq [of left] list_peers_ok [OF l(1) ok] show thesis by auto
  qed (use that ok in auto)
  from i have "0 < i \<longrightarrow> cursor_ok (get_slot (list_slot left False) t1)" by (simp add: t1(2))
  with list_peers_total [OF t1(3) this r(1,2), of False ?c] obtain str ps where
    l4: "list_peers (list_slot left False) i False ?c t1 = Inr (str, set_slot (list_slot left False) ps t1)"
    "pMap ps = pMap (get_slot (list_slot left False) t1)" by auto
  have "\<exists>reply. reply_block cfg req left event ipv6 t = Inr (reply, set_slot (list_slot left False) ps t1)"
    by (simp only: reply_block_def ll Let_def prod.case r6 l4(1) g bindE_simps) blast
  moreover have "\<forall>sl. pMap (get_slot sl (set_slot (list_slot left False) ps t1)) = pMap (get_slot sl t)"
    using l4(2) t1(1,2) by simp
  ultimately show ?thesis by blast
qed

section \<open>The whole announce\<close>

text \<open>
  What an announce that is served did to its torrent: no entry with another id changed, and
  the listed peers changed as the specification says.
\<close>

definition announced :: "string \<Rightarrow> string \<Rightarrow> string \<Rightarrow> bool \<Rightarrow> torrent \<Rightarrow> torrent \<Rightarrow> bool" where
  "announced pid left event ipv6 t t' \<longleftrightarrow> others pid t t' \<and>
    listed_in t' = announce_listed left event ipv6 pid (listed_in t)"

text \<open>
  The one case in which an announce removes the peer from a table its reply lists: a peer that
  reports its completion over IPv6 with nothing left. Then the cursor of the IPv4 leechers must
  not stand at the peer.
\<close>

definition spared :: "string \<Rightarrow> string \<Rightarrow> string \<Rightarrow> bool \<Rightarrow> torrent \<Rightarrow> bool" where
  "spared pid left event ipv6 t \<longleftrightarrow>
    (event = ''completed'' \<and> ipv6 \<and> left = ''0'' \<longrightarrow> pIt (t_leechers t) \<noteq> At pid)"

lemma getPeer_pMap: "pMap ps = pMap ps' \<Longrightarrow> getPeer k ps = getPeer k ps'"
  by (simp add: getPeer_def)

text \<open>The reply is built from a well-formed torrent whose listed tables have valid cursors.\<close>

definition replied :: "config \<Rightarrow> request \<Rightarrow> string \<Rightarrow> string \<Rightarrow> bool \<Rightarrow> heap \<Rightarrow> torrent \<Rightarrow> string \<times> torrent \<Rightarrow> bool" where
  "replied cfg req left event ipv6 h t x \<longleftrightarrow> reply_block cfg req left event ipv6 t = Inr x \<and>
    torrent_ok (is_private cfg) h t \<and> (\<forall>sl. pMap (get_slot sl (snd x)) = pMap (get_slot sl t)) \<and>
    (event \<noteq> ''stopped'' \<longrightarrow> cursor_ok (get_slot (list_slot left False) t) \<and>
      (ipv6 \<longrightarrow> cursor_ok (get_slot (list_slot left True) t)))"

lemma listed_cursors:
  assumes ev: "event \<noteq> ''stopped''" and sp: "spared pid left event ipv6 t" and same: "same_cursors t t5"
    and cur: "\<And>sl. cursor_ok (get_slot sl t5)"
    and keep: "\<forall>sl. sl \<notin> removed_slots left event ipv6 \<longrightarrow> get_slot sl t6 = get_slot sl t5"
    and away: "\<forall>sl. cursor_ok (get_slot sl t5) \<longrightarrow> pIt (get_slot sl t5) \<noteq> At pid \<longrightarrow> cursor_ok (get_slot sl t6)"
  shows "cursor_ok (get_slot (list_slot left False) t6) \<and> (ipv6 \<longrightarrow> cursor_ok (get_slot (list_slot left True) t6))"
proof (intro conjI impI)
  have r: "sl \<in> removed_slots left event ipv6 \<longleftrightarrow> event = ''completed'' \<and> sl = (if ipv6 then Leechers else Leechers6)" for sl
    using ev by (simp add: removed_slots_def)
  show "cursor_ok (get_slot (list_slot left False) t6)"
  proof (cases "list_slot left False \<in> removed_slots left event ipv6")
    case True
    then have c: "event = ''completed''" "ipv6" "left = ''0''" "list_slot left False = Leechers"
      using r by (auto simp: list_slot_def leech_slot_def seed_slot_def split: if_splits)
    have "pIt (get_slot Leechers t5) = pIt (t_leechers t)"
      using same unfolding same_cursors_def by (metis get_slot.simps(3))
    then have "pIt (get_slot Leechers t5) \<noteq> At pid" using sp c unfolding spared_def by simp
    then show ?thesis using away cur c(4) by metis
  next
    case False
    then show ?thesis using keep cur by metis
  qed
  show "cursor_ok (get_slot (list_slot left True) t6)" if "ipv6"
  proof -
    have "list_slot left True \<notin> removed_slots left event ipv6"
      using r that by (simp add: list_slot_def leech_slot_def seed_slot_def)
    then show ?thesis using keep cur by metis
  qed
qed

lemma announce_work_total:
  assumes rq: "request_ok cfg um (length (w_users w)) req" and inv: "work_inv cfg w" and pton: "pton_ok (e_pton e)"
    and pid: "req ''peer_id'' = Some pid" and left: "req ''left'' = Some left"
    and acc: "accountable e cfg req pid (w_tor w)" and sp: "spared pid left event ipv6 (w_tor w)"
  shows "\<exists>reply w'. announce_work e cfg ls um req event ipv6 w = Inr (reply, w') \<and>
    announced pid left event ipv6 (w_tor w) (w_tor w') \<and>
    (\<exists>h t. replied cfg req left event ipv6 h t (reply, w_tor w'))"
proof -
  have num: "numeric req ''downloaded''" "numeric req ''uploaded''" "numeric req ''left''"
    using rq by (simp_all add: request_ok_def)
  obtain sl free w1 where f: "find_peer e cfg ls um req pid left event ipv6 w = Inr ((sl, pid), free, w1)"
    and i1: "found cfg pid w (sl, pid) w1" and sl: "if left = ''0'' then sl \<in> {seed_slot ipv6, Leechers} else sl = leech_slot ipv6"
    using find_peer_total [OF rq pid inv pton] by blast
  let ?pp = "(sl, pid)"
  note f' = find_peer_accountable [OF f acc]
  obtain w2 where st: "mark_stopped ?pp event w1 = Inr w2" and i2: "work_inv cfg w2" "present ?pp w2" "replaces ?pp w1 w2"
    using mark_stopped_total [of cfg w1 ?pp event] i1 by (auto simp: found_def)
  have acc2: "accountable e cfg req pid (w_tor w2)" using marks_accountable(2) [OF _ _ st] f' by simp
  obtain b w3 where am: "update_amounts e cfg req (corrupt_of req) free ?pp w2 = Inr (b, w3)"
    and i3: "work_inv cfg w3" "present ?pp w3" "replaces ?pp w2 w3"
    and k3: "known cfg ?pp w3"
    using update_amounts_total [OF i2(1,2) accountable_known [OF acc2] num] by blast
  obtain wb where ba: "balance_block b w3 = Inr wb"
    using update_amounts_balance [OF am acc2] f' by (auto simp: balance_block_def)
  have ib: "work_inv cfg wb" "present ?pp wb" "replaces ?pp w3 wb" "known cfg ?pp wb"
    using i3 k3 balance_block_Inr [OF ba]
    by (simp_all add: work_inv_def work_ok_def present_def replaces_def known_def peer_at_def)
  obtain w4 where rp: "record_peer_block cfg ?pp wb = Inr w4" and i4: "work_inv cfg w4" "present ?pp w4" "replaces ?pp wb w4"
    using record_peer_block_total [OF ib(1,2,4)] by blast
  obtain w5 where ru: "record_user_block cfg ?pp w4 = Inr w5" and i5: "work_inv cfg w5" "w_tor w5 = w_tor w4"
    using record_user_block_total [OF i4(1,2)] by blast
  obtain w6 where rm: "removal_block req left event ipv6 w5 = Inr w6" and i6: "work_ok cfg w6"
      "others pid (w_tor w5) (w_tor w6)" "\<forall>sl \<in> removed_slots left event ipv6. \<not> present (sl, pid) w6"
      "\<forall>sl. sl \<notin> removed_slots left event ipv6 \<longrightarrow> get_slot sl (w_tor w6) = get_slot sl (w_tor w5)"
      "\<forall>sl. cursor_ok (get_slot sl (w_tor w5)) \<longrightarrow> pIt (get_slot sl (w_tor w5)) \<noteq> At pid \<longrightarrow> cursor_ok (get_slot sl (w_tor w6))"
    using removal_block_total [where req = req and cfg = cfg and w = w5, OF pid] i5(1) unfolding work_inv_def by blast
  let ?w7 = "record_torrent_block cfg w6"
  have t7: "w_tor ?w7 = w_tor w6" by (simp add: record_torrent_block_def)
  have moves: "same_cursors (w_tor w) (w_tor w5)"
    using find_peer_cursors [OF f] same_cursors_blocks(4) [OF st] same_cursors_blocks(5) [OF am]
      same_cursors_blocks(6) [OF ba] same_cursors_blocks(7) [OF rp] same_cursors_blocks(8) [OF ru]
    by (blast intro: same_cursors_trans)
  have cur5: "cursor_ok (get_slot sl' (w_tor w5))" for sl'
    using i5 by (simp add: work_inv_def cursors_ok_def)
  have cur: "cursor_ok (get_slot (list_slot left False) (w_tor w6)) \<and>
      (ipv6 \<longrightarrow> cursor_ok (get_slot (list_slot left True) (w_tor w6)))" if "event \<noteq> ''stopped''"
    using listed_cursors [OF that _ moves cur5 i6(4,5)] sp by blast
  have ok7: "torrent_ok (is_private cfg) (w_users w6) (w_tor ?w7)" using i6(1) by (simp add: work_ok_def t7)
  obtain reply t where re: "reply_block cfg req left event ipv6 (w_tor ?w7) = Inr (reply, t)"
    and t: "\<forall>sl. pMap (get_slot sl t) = pMap (get_slot sl (w_tor ?w7))"
    using reply_block_total [OF ok7, of event left ipv6 cfg req] cur rq
    unfolding t7 request_ok_def by blast
  have run: "announce_work e cfg ls um req event ipv6 w = Inr (reply, ?w7\<lparr>w_tor := t\<rparr>)"
    by (simp only: announce_work_def at_key_simps(2) [of req, OF pid] at_key_simps(2) [of req, OF left]
        bindE_simps f prod.case st am ba rp ru rm Let_def re)
  have same: "getPeer k (get_slot sl' t) = getPeer k (get_slot sl' (w_tor w6))" for k sl'
    using t by (intro getPeer_pMap) (simp add: t7)
  have chain: "others pid (w_tor w) (w_tor w5)"
    using i1 replaces_others [OF i2(3)] replaces_others [OF i3(3)] replaces_others [OF ib(3)]
      replaces_others [OF i4(3)] i5(2)
    by (simp add: found_def others_def)
  have "others pid (w_tor w) t" using others_trans [OF chain i6(2)] by (simp add: others_def same)
  moreover have "listed_in t = announce_listed left event ipv6 pid (listed_in (w_tor w))"
    using announce_work_listed [OF run pid left _ pton] inv request_ok_passkey [OF rq] by (simp add: work_inv_def)
  ultimately have "announced pid left event ipv6 (w_tor w) t" unfolding announced_def by blast
  moreover have "replied cfg req left event ipv6 (w_users w6) (w_tor ?w7) (reply, t)"
    using re t cur ok7 by (simp add: replied_def t7)
  ultimately show ?thesis using run by auto
qed

text \<open>The tracker lets the announce through: the torrent exists, the client may use it.\<close>

definition admitted :: "config \<Rightarrow> request \<Rightarrow> string \<Rightarrow> tracker \<Rightarrow> bool" where
  "admitted cfg req h s \<longleftrightarrow>
    (clientWhitelist s = [] \<or> (\<exists>pid. req ''peer_id'' = Some pid \<and> whitelisted (clientWhitelist s) pid)) \<and>
    map_of (torMap s) h \<noteq> None \<and>
    (is_private cfg \<longrightarrow> (\<exists>k u. req ''reqpasskey'' = Some k \<and> deref (accounts s) (usrMap s k) = Inr u \<and> u_authorized u))"

lemma announce_admitted_eq:
  assumes ad: "admitted cfg req h s" and t: "map_of (torMap s) h = Some t" and ev: "req ''event'' = Some event"
  shows "announce e cfg req h ipv6 s =
    bindE (announce_work e cfg (leechStatus s) (usrMap s) req event ipv6 (start_work t s)) (\<lambda>(reply, w).
      Inr (reply, finish_work h w s))"
proof -
  have "create_if_public cfg h s = s" using t by (simp add: create_if_public_def)
  moreover have "(if clientWhitelist s \<noteq> []
           then bindE (at_key req ''peer_id'') (\<lambda>pid. Inr (whitelisted (clientWhitelist s) pid))
           else Inr True) = Inr True"
    using ad by (auto simp: admitted_def)
  moreover have "(if is_private cfg
                 then bindE (at_key req ''reqpasskey'') (\<lambda>k. bindE (deref (accounts s) (usrMap s k)) (\<lambda>u.
                        Inr (u_authorized u)))
                 else Inr True) = Inr True"
    using ad by (auto simp: admitted_def)
  ultimately show ?thesis
    using ev t by (simp only: announce_def Let_def getUser_def at_key_simps(2) [where m = req] bindE_simps
      option.case not_True_eq_False if_False)
qed

lemma announce_admitted:
  assumes ad: "admitted cfg req h s" and t: "map_of (torMap s) h = Some t" and ev: "req ''event'' = Some event"
    and pid: "req ''peer_id'' = Some pid"
    and work: "announce_work e cfg (leechStatus s) (usrMap s) req event ipv6 (start_work t s) = Inr (reply, w)"
  shows "announce e cfg req h ipv6 s = Inr (reply, finish_work h w s)"
  by (simp add: announce_admitted_eq [OF ad t ev] work)

lemma start_work_inv:
  assumes "tracker_ok cfg s" and "map_of (torMap s) h = Some t" and "cursors_ok t"
  shows "work_inv cfg (start_work t s)"
  using tracker_ok_torrent [OF assms(1,2)] assms(3) by (simp add: work_inv_def work_ok_def start_work_def)

lemma announce_serves:
  assumes ok: "tracker_ok cfg s" and pton: "pton_ok (e_pton e)" and ad: "admitted cfg req h s"
    and t: "map_of (torMap s) h = Some t" and cur: "cursors_ok t"
    and rq: "request_ok cfg (usrMap s) (length (accounts s)) req"
    and pid: "req ''peer_id'' = Some pid" and left: "req ''left'' = Some left" and ev: "req ''event'' = Some event"
    and acc: "accountable e cfg req pid t" and sp: "spared pid left event ipv6 t"
  shows "\<exists>reply s' t'. announce e cfg req h ipv6 s = Inr (reply, s') \<and> map_of (torMap s') h = Some t' \<and>
    announced pid left event ipv6 t t' \<and> (\<forall>h'. h' \<noteq> h \<longrightarrow> map_of (torMap s') h' = map_of (torMap s) h') \<and>
    (\<exists>u t1. replied cfg req left event ipv6 u t1 (reply, t'))"
proof -
  have inv: "work_inv cfg (start_work t s)" using start_work_inv [OF ok t cur] .
  have rq': "request_ok cfg (usrMap s) (length (w_users (start_work t s))) req"
    using rq by (simp add: start_work_def)
  obtain reply w where w: "announce_work e cfg (leechStatus s) (usrMap s) req event ipv6 (start_work t s) = Inr (reply, w)"
    "announced pid left event ipv6 (w_tor (start_work t s)) (w_tor w)"
    "\<exists>u t1. replied cfg req left event ipv6 u t1 (reply, w_tor w)"
    using announce_work_total [where ls = "leechStatus s" and event = event and ?ipv6.0 = ipv6, OF rq' inv pton pid left] acc sp
    by (auto simp: start_work_def)
  have "announced pid left event ipv6 t (w_tor w)" using w(2) by (simp add: start_work_def)
  with announce_admitted [OF ad t ev pid w(1)] w(3) show ?thesis by (auto simp: finish_work_def)
qed

section \<open>A peer that completes\<close>

lemma leech_block_present:
  assumes "leech_block e cfg ls um req pid event ipv6 w = Inr (pp, free, w')"
    and "getPeer pid (get_slot (leech_slot ipv6) (w_tor w)) \<noteq> None"
  shows "same_keys (w_tor w) (w_tor w')"
  using assms by (auto simp: leech_block_def Let_def split: if_splits
      dest!: same_keys_blocks(1) same_keys_blocks(2) intro: same_keys_trans)

lemma leecher_found_again:
  assumes "find_peer e cfg ls um req pid ''0'' event False w = Inr (pp, free, w')"
    and "getPeer pid (t_leechers (w_tor w)) \<noteq> None" and "getPeer pid (t_seeders (w_tor w)) = None"
  shows "same_keys (w_tor w) (w_tor w')"
proof -
  have keep: "same_keys (w_tor w) (w_tor w')"
    if "same_keys (w_tor w) (w_tor w1)" and "seed_block e cfg um req pid False w1 = Inr (pp', w')" for w1 pp'
  proof -
    have "getPeer pid (get_slot Leechers (w_tor w1)) \<noteq> None" "getPeer pid (get_slot Seeders (w_tor w1)) = None"
      using that(1) assms(2,3) unfolding same_keys_def by (metis get_slot.simps)+
    with that show ?thesis by (auto simp: seed_block_def seed_slot_def split: if_splits)
  qed
  show ?thesis
  proof (cases "event = ''completed''")
    case True
    with assms(1) obtain pp1 w1 pp2 where "leech_block e cfg ls um req pid event False w = Inr (pp1, free, w1)"
      "seed_block e cfg um req pid False w1 = Inr (pp2, w')"
      by (auto simp: find_peer_def)
    with keep leech_block_present assms(2) show ?thesis by (fastforce simp: leech_slot_def)
  next
    case False
    with assms(1) obtain pp2 where "seed_block e cfg um req pid False w = Inr (pp2, w')"
      by (auto simp: find_peer_def)
    with keep [of w pp2] show ?thesis by simp
  qed
qed

lemma removal_keeps_v4_leechers:
  assumes "removal_block req ''0'' event False w = Inr w'" and "event \<noteq> ''stopped''"
  shows "t_leechers (w_tor w') = t_leechers (w_tor w) \<and> t_seeders (w_tor w') = t_seeders (w_tor w)"
  using assms by (auto simp: removal_block_def remove_from_def split: if_splits)

lemma leecher_stays:
  assumes "announce_work e cfg ls um req event False w = Inr (reply, w')"
    and pid: "req ''peer_id'' = Some pid" and left: "req ''left'' = Some ''0''" and ev: "event \<noteq> ''stopped''"
    and was: "getPeer pid (t_leechers (w_tor w)) \<noteq> None" "getPeer pid (t_seeders (w_tor w)) = None"
  shows "getPeer pid (t_leechers (w_tor w')) \<noteq> None \<and> getPeer pid (t_seeders (w_tor w')) = None"
proof -
  from assms(1) pid left obtain pp free balance w1 w2 w3 wb w4 w5 w6 t where
    b: "find_peer e cfg ls um req pid ''0'' event False w = Inr (pp, free, w1)"
      "mark_stopped pp event w1 = Inr w2"
      "update_amounts e cfg req (corrupt_of req) free pp w2 = Inr (balance, w3)"
      "balance_block balance w3 = Inr wb" "record_peer_block cfg pp wb = Inr w4"
      "record_user_block cfg pp w4 = Inr w5" "removal_block req ''0'' event False w5 = Inr w6"
      "reply_block cfg req ''0'' event False (w_tor (record_torrent_block cfg w6)) = Inr (reply, t)"
      "w' = (record_torrent_block cfg w6)\<lparr>w_tor := t\<rparr>"
    by (cases rule: announce_work_parts) auto
  have "same_keys (w_tor w) (w_tor w1)" using leecher_found_again [OF b(1) was] .
  also have "same_keys (w_tor w1) (w_tor w2)" using same_keys_blocks(3) [OF b(2)] .
  also have "same_keys (w_tor w2) (w_tor w3)" using same_keys_blocks(4) [OF b(3)] .
  also have "same_keys (w_tor w3) (w_tor wb)" using same_keys_blocks(5) [OF b(4)] .
  also have "same_keys (w_tor wb) (w_tor w4)" using same_keys_blocks(6) [OF b(5)] .
  also have "same_keys (w_tor w4) (w_tor w5)" using same_keys_blocks(7) [OF b(6)] .
  finally have before: "same_keys (w_tor w) (w_tor w5)" .
  have after: "same_keys (w_tor w6) t"
    using same_keys_blocks(8) [OF b(8)] by (simp add: record_torrent_block_def split: if_splits)
  have "getPeer pid (get_slot Leechers (w_tor w5)) \<noteq> None \<and> getPeer pid (get_slot Seeders (w_tor w5)) = None"
    using before was unfolding same_keys_def by (metis get_slot.simps)
  then have "getPeer pid (get_slot Leechers (w_tor w6)) \<noteq> None \<and> getPeer pid (get_slot Seeders (w_tor w6)) = None"
    using removal_keeps_v4_leechers [OF b(7) ev] by simp
  then have "getPeer pid (get_slot Leechers t) \<noteq> None \<and> getPeer pid (get_slot Seeders t) = None"
    using after unfolding same_keys_def by metis
  then show ?thesis by (simp add: b(9))
qed

section \<open>Properties\<close>

text \<open>C1: An announce is served, without exception and without undefined behaviour, when the
  tracker admits it (the torrent is known, the client is in the whitelist if there is one, and
  on a private tracker the passkey belongs to an authorised account) and the following hold:
  the request has a peer id, an address, a user agent, a port \<open>stoi\<close> reads and amounts
  \<open>stoul\<close> reads, and \<open>numwant\<close> and the configured maximum lie within \<open>2^26\<close>
  (\<open>request_ok\<close>); the cursors of the torrent are valid (\<open>cursors_ok\<close>); the corrupt counts that
  are read have a value, the amounts are below \<open>2^60\<close> and the balance within \<open>2^62\<close>
  (\<open>accountable\<close>); and, for a peer that completes over IPv6 with nothing left, the cursor of
  the IPv4 leechers does not stand at it (\<open>spared\<close>). Then the listed peers of the torrent
  change exactly as \<open>announce_listed\<close> says, and no entry of another peer and no other torrent
  changes. Without the conditions it may fail: with a port or an amount that is no number
  (\<open>nonnumeric_announce_throws\<close>), with a lost cursor (\<open>removed_cursor_dangles\<close>), without a
  corrupt count (\<open>first_announce_reads_uninitialised\<close>) or with huge amounts
  (\<open>corrupt_overflows_balance\<close>).\<close>

theorem announce_serves_admitted:
  assumes "tracker_ok cfg s" and "pton_ok (e_pton e)" and "admitted cfg req h s"
    and "map_of (torMap s) h = Some t" and "cursors_ok t"
    and "request_ok cfg (usrMap s) (length (accounts s)) req"
    and "req ''peer_id'' = Some pid" and "req ''left'' = Some left" and "req ''event'' = Some event"
    and "accountable e cfg req pid t" and "spared pid left event ipv6 t"
  shows "\<exists>reply s' t'. announce e cfg req h ipv6 s = Inr (reply, s') \<and> map_of (torMap s') h = Some t' \<and>
    listed_in t' = announce_listed left event ipv6 pid (listed_in t) \<and>
    (\<forall>sl k. k \<noteq> pid \<longrightarrow> getPeer k (get_slot sl t') = getPeer k (get_slot sl t)) \<and>
    (\<forall>h'. h' \<noteq> h \<longrightarrow> map_of (torMap s') h' = map_of (torMap s) h')"
  using announce_serves [OF assms] unfolding announced_def others_def by blast

text \<open>C14: A leecher that finishes its download over IPv4 never becomes a seeder: whenever an
  announce with \<open>left=0\<close> (completed or not) of a peer that is among the leechers and not among the
  seeders returns, the peer is still listed as a leecher and not as a seeder. The code removes a
  completed peer from the leechers of the other address family, and its lookup of a seeder falls
  back to the leechers. The announce does return on a well-formed tracker if the request is
  complete and numeric, the cursors of the torrent are valid, and its accounting is defined.\<close>

theorem completed_leecher_stays_leecher:
  assumes "admitted cfg req h s" and "map_of (torMap s) h = Some t"
    and "req ''peer_id'' = Some pid" and "req ''left'' = Some ''0''" and "req ''event'' = Some event"
    and "event \<noteq> ''stopped''" and "getPeer pid (t_leechers t) \<noteq> None" and "getPeer pid (t_seeders t) = None"
  shows "(\<forall>reply s'. announce e cfg req h False s = Inr (reply, s') \<longrightarrow>
      (\<exists>t'. map_of (torMap s') h = Some t' \<and> getPeer pid (t_leechers t') \<noteq> None \<and> getPeer pid (t_seeders t') = None)) \<and>
    (tracker_ok cfg s \<and> pton_ok (e_pton e) \<and> cursors_ok t \<and> request_ok cfg (usrMap s) (length (accounts s)) req \<and>
      accountable e cfg req pid t \<longrightarrow> (\<exists>reply s'. announce e cfg req h False s = Inr (reply, s')))"
proof (intro conjI allI impI)
  fix reply s'
  assume "announce e cfg req h False s = Inr (reply, s')"
  then obtain w where w: "announce_work e cfg (leechStatus s) (usrMap s) req event False (start_work t s) = Inr (reply, w)"
    and s': "s' = finish_work h w s" by (auto simp: announce_admitted_eq [OF assms(1,2,5)])
  from leecher_stays [OF w assms(3,4,6)] assms(7,8)
  show "\<exists>t'. map_of (torMap s') h = Some t' \<and> getPeer pid (t_leechers t') \<noteq> None \<and> getPeer pid (t_seeders t') = None"
    by (auto simp: s' start_work_def finish_work_def)
next
  assume c: "tracker_ok cfg s \<and> pton_ok (e_pton e) \<and> cursors_ok t \<and> request_ok cfg (usrMap s) (length (accounts s)) req \<and>
    accountable e cfg req pid t"
  have inv: "work_inv cfg (start_work t s)" using start_work_inv [OF _ assms(2)] c by blast
  have rq: "request_ok cfg (usrMap s) (length (w_users (start_work t s))) req" and pton: "pton_ok (e_pton e)"
    and acc: "accountable e cfg req pid (w_tor (start_work t s))" using c by (simp_all add: start_work_def)
  have "spared pid ''0'' event False (w_tor (start_work t s))" by (simp add: spared_def)
  from announce_work_total [where ls = "leechStatus s", OF rq inv pton assms(3,4) acc this]
  obtain x where "announce_work e cfg (leechStatus s) (usrMap s) req event False (start_work t s) = Inr x" by blast
  then show "\<exists>reply s'. announce e cfg req h False s = Inr (reply, s')"
    by (cases x) (simp add: announce_admitted_eq [OF assms(1,2,5)])
qed

definition sample_tracker :: tracker where
  "sample_tracker = empty_tracker\<lparr>torMap := [(''h'', sample_torrent)], usrMap := [''key'' \<mapsto> 0],
     accounts := [new_user 1 True]\<rparr>"

lemma sample_tracker_ok: "tracker_ok cfg sample_tracker"
  using sample_torrent_ok by (auto simp: tracker_ok_def sample_tracker_def empty_tracker_def om_wf_def)

lemma sample_cursors: "cursors_ok sample_torrent"
  by (simp add: cursors_ok_def sample_torrent_slots sample_peers_def new_peers_def cursor_ok_def)

lemma sample_request_ok: "request_ok default_config (usrMap sample_tracker) (length (accounts sample_tracker)) sample_request"
  by (simp add: request_ok_def port_ok_def numeric_def number_def sample_tracker_def numwant_ok_def numwant_of_def)

lemma sample_admitted: "admitted default_config sample_request ''h'' sample_tracker"
  by (simp add: admitted_def sample_tracker_def empty_tracker_def new_user_def)

lemma stoul_of_sample: "stoul v = Inr n \<Longrightarrow> v \<in> {''7'', ''2'', ''1''} \<Longrightarrow> small n"
  by (auto simp: small_def)

lemma sample_accountable:
  "req ''downloaded'' = Some ''7'' \<Longrightarrow> req ''uploaded'' = Some ''2'' \<Longrightarrow> req ''corrupt'' = None \<Longrightarrow>
    accountable sample_env cfg req pid sample_torrent"
  by (auto simp: accountable_def sample_env_def number_def stoul_of_sample small_def entries_ok_def entry_ok_def
      sample_torrent_slots sample_peers_def new_peers_def sample_peer_def)
    (simp_all add: sample_torrent_def new_torrent_def)

lemma sample_request_accountable: "accountable sample_env default_config sample_request pid sample_torrent"
  by (rule sample_accountable) simp_all

lemma announce_serves_admitted_witness:
  "\<exists>reply s' t'. announce sample_env default_config sample_request ''h'' False sample_tracker = Inr (reply, s') \<and>
    map_of (torMap s') ''h'' = Some t' \<and> (Leechers, ''b'') \<in> listed_in t'"
  using announce_serves_admitted [OF sample_tracker_ok sample_env_ok sample_admitted _ sample_cursors sample_request_ok
      _ _ _ sample_request_accountable, of "''b''" "''1''" "''updating''" False]
  by (auto simp: sample_tracker_def spared_def announce_listed_def removed_slots_def leech_slot_def simp del: in_listed_in)

definition completed_request :: request where
  "completed_request = sample_request(''left'' \<mapsto> ''0'', ''event'' \<mapsto> ''completed'')"

lemma stoul_zero: "stoul ''0'' = Inr 0"
  by (simp add: stoul_def scan_number_def isspace_def isdigit_iff read_digits_def digit_value_def)

lemma completed_request_ok:
  "request_ok default_config (usrMap sample_tracker) (length (accounts sample_tracker)) completed_request"
  by (simp add: completed_request_def request_ok_def port_ok_def numeric_def number_def sample_tracker_def stoul_zero
      numwant_ok_def numwant_of_def)

lemma completed_admitted: "admitted default_config completed_request ''h'' sample_tracker"
  by (simp add: admitted_def completed_request_def sample_tracker_def empty_tracker_def new_user_def)

lemma completed_accountable: "accountable sample_env default_config completed_request pid sample_torrent"
  by (rule sample_accountable) (simp_all add: completed_request_def)

lemma completed_leecher_stays_leecher_witness:
  "\<exists>reply s' t'. announce sample_env default_config completed_request ''h'' False sample_tracker = Inr (reply, s') \<and>
    map_of (torMap s') ''h'' = Some t' \<and> getPeer ''b'' (t_leechers t') \<noteq> None \<and> getPeer ''b'' (t_seeders t') = None"
proof -
  have h: "map_of (torMap sample_tracker) ''h'' = Some sample_torrent" by (simp add: sample_tracker_def)
  have r: "completed_request ''peer_id'' = Some ''b''" "completed_request ''left'' = Some ''0''"
    "completed_request ''event'' = Some ''completed''" "''completed'' \<noteq> ''stopped''" by (simp_all add: completed_request_def)
  have p: "getPeer ''b'' (t_leechers sample_torrent) \<noteq> None" "getPeer ''b'' (t_seeders sample_torrent) = None"
    by (simp_all add: sample_torrent_def sample_peers_def getPeer_def new_torrent_def new_peers_def)
  from completed_leecher_stays_leecher [OF completed_admitted h r p, of sample_env] sample_tracker_ok sample_env_ok
    sample_cursors completed_request_ok completed_accountable
  show ?thesis by blast
qed

end
