(* ===== verification/AnnounceRecords.thy ===== *)
theory AnnounceRecords
  imports AnnounceEffect
begin

text \<open>
  What an announce leaves for the database: which rows it queues, and that it touches neither
  the statements that wait nor the worker threads. The peer and torrent rows are specified
  column by column, with the name of each column, from the state after the announce.
\<close>

section \<open>Queued rows\<close>

definition queues :: "(table \<Rightarrow> string list) \<Rightarrow> db \<Rightarrow> db \<Rightarrow> bool" where
  "queues rows d d' \<longleftrightarrow> requests d' = (\<lambda>t. requests d t @ rows t) \<and> records d' = records d \<and> threads d' = threads d"

definition only :: "table \<Rightarrow> string list \<Rightarrow> table \<Rightarrow> string list" where
  "only t rows = (\<lambda>t'. if t' = t then rows else [])"

lemma only_apply [simp]: "only t rows t' = (if t' = t then rows else [])"
  by (simp add: only_def)

lemma queues_none [simp]: "queues (only t []) d d" "queues (\<lambda>_. []) d d"
  by (simp_all add: queues_def)

lemma queues_push: "queues (only t [row]) d (push_request t row d)"
  by (auto simp: queues_def push_request_def)

lemma queues_trans: "queues f d d' \<Longrightarrow> queues g d' d'' \<Longrightarrow> queues (\<lambda>t. f t @ g t) d d''"
  by (simp add: queues_def)

lemma queues_same: "queues f d d' \<Longrightarrow> (\<And>t. f t = g t) \<Longrightarrow> queues g d d'"
  by (simp add: queues_def)

section \<open>The blocks that queue nothing\<close>

lemma add_to_slot_db: "add_to_slot e cfg um req ipv6 sl w = Inr w' \<Longrightarrow> w_db w' = w_db w"
  by (auto simp: add_to_slot_def)

lemma unqueued_blocks:
  "mark_completed pp w = Inr w' \<Longrightarrow> w_db w' = w_db w"
  "mark_stopped pp event w = Inr w' \<Longrightarrow> w_db w' = w_db w"
  "seed_block e cfg um req pid ipv6 w = Inr (pp, w') \<Longrightarrow> w_db w' = w_db w"
  "update_amounts e cfg req corrupt free pp w = Inr (b, w') \<Longrightarrow> w_db w' = w_db w"
  "balance_block b w = Inr w' \<Longrightarrow> w_db w' = w_db w"
  "remove_from req sl w = Inr w' \<Longrightarrow> w_db w' = w_db w"
  "removal_block req left event ipv6 w = Inr w' \<Longrightarrow> w_db w' = w_db w"
  by (auto simp: mark_completed_def mark_stopped_def seed_block_def update_amounts_def remove_from_def
      removal_block_def balance_block_def Let_def add_to_slot_db split: if_splits)

section \<open>The blocks that queue a row\<close>

text \<open>At most one row of a table, and none unless the tracker is private.\<close>

definition may_queue :: "config \<Rightarrow> table \<Rightarrow> db \<Rightarrow> db \<Rightarrow> bool" where
  "may_queue cfg t d d' \<longleftrightarrow>
    (\<exists>rows. queues (only t rows) d d' \<and> length rows \<le> 1 \<and> (\<not> is_private cfg \<longrightarrow> rows = []))"

lemma may_queue_refl [simp]: "may_queue cfg t d d"
  by (auto simp: may_queue_def intro: exI [of _ "[]"])

lemma may_queue_push: "is_private cfg \<Longrightarrow> may_queue cfg t d (push_request t row d)"
  using queues_push [of t row d] by (auto simp: may_queue_def intro: exI [of _ "[row]"])

lemma free_rate_queues: "free_rate e cfg ls req pp w = Inr (free, w') \<Longrightarrow> may_queue cfg Tokens (w_db w) (w_db w')"
  by (auto simp: free_rate_def Let_def recordToken_def may_queue_push split: if_splits)

lemma leech_block_queues:
  assumes "leech_block e cfg ls um req pid event ipv6 w = Inr (pp, free, w')"
  shows "may_queue cfg Tokens (w_db w) (w_db w')"
proof -
  from assms obtain w1 w2 where
    a: "(if getPeer pid (get_slot (leech_slot ipv6) (w_tor w)) = None
            then add_to_slot e cfg um req ipv6 (leech_slot ipv6) w else Inr w) = Inr w1"
    and f: "free_rate e cfg ls req (leech_slot ipv6, pid) w1 = Inr (free, w2)"
    and m: "(if event = ''completed'' then mark_completed (leech_slot ipv6, pid) w2 else Inr w2) = Inr w'"
    by (auto simp: leech_block_def Let_def)
  have "w_db w1 = w_db w" "w_db w' = w_db w2"
    using a m by (auto simp: add_to_slot_db unqueued_blocks(1) split: if_splits)
  with free_rate_queues [OF f] show ?thesis by simp
qed

lemma find_peer_queues:
  assumes "find_peer e cfg ls um req pid left event ipv6 w = Inr (pp, free, w')"
  shows "may_queue cfg Tokens (w_db w) (w_db w')"
proof -
  from assms obtain pp1 w1 pp2 where
    l: "(if left \<noteq> ''0'' \<or> event = ''completed''
           then bindE (leech_block e cfg ls um req pid event ipv6 w) (\<lambda>(pp, free, w'). Inr (Some pp, free, w'))
           else Inr (None, 0, w)) = Inr (pp1, free, w1)"
    and s: "(if left = ''0''
           then bindE (seed_block e cfg um req pid ipv6 w1) (\<lambda>(pp, w'). Inr (Some pp, w'))
           else Inr (pp1, w1)) = Inr (pp2, w')"
    by (auto simp: find_peer_def bindE_Inr_iff split: option.splits)
  have "w_db w' = w_db w1" using s unqueued_blocks(3) by (auto split: if_splits)
  moreover have "may_queue cfg Tokens (w_db w) (w_db w1)"
    using l leech_block_queues by (auto split: if_splits)
  ultimately show ?thesis by simp
qed

lemma record_user_block_queues:
  "record_user_block cfg pp w = Inr w' \<Longrightarrow> may_queue cfg Users (w_db w) (w_db w')"
  by (auto simp: record_user_block_def recordUser_def Let_def may_queue_push split: if_splits)

section \<open>Rows by column\<close>

text \<open>
  A row as a list of columns: the configuration variable with the name of the column, and the
  value. A row and the head of the statement that will carry it list them in the same order.
\<close>

definition record_text :: "(string \<times> string) list \<Rightarrow> string" where
  "record_text cols = ''('' @ comma_join (map snd cols) @ '')''"

definition insert_head :: "config \<Rightarrow> string \<Rightarrow> (string \<times> string) list \<Rightarrow> string" where
  "insert_head cfg tab cols = ''INSERT IGNORE INTO '' @ get cfg tab @ ''('' @
     comma_join (map (\<lambda>(name, value). get cfg name) cols) @ '') VALUES ''"

definition peer_record :: "string \<Rightarrow> u64 \<Rightarrow> u32 \<Rightarrow> peer \<Rightarrow> (string \<times> string) list" where
  "peer_record uid timespent corrupt p =
    [(''DB_Peers_UserID'', sql_quote uid),
     (''DB_Peers_Active'', if p_active p then ''1'' else ''0''),
     (''DB_Peers_AnnouncesCount'', ''1''),
     (''DB_Peers_Completed'', if p_completed p then ''1'' else ''0''),
     (''DB_Peers_Downloaded'', sql_quote (to_string (p_totalDownloaded p))),
     (''DB_Peers_Uploaded'', sql_quote (to_string (p_totalUploaded p))),
     (''DB_Peers_Left'', sql_quote (to_string (p_left p))),
     (''DB_Peers_UpSpeed'', sql_quote (to_string (p_upSpeed p))),
     (''DB_Peers_DownSpeed'', sql_quote (to_string (p_downSpeed p))),
     (''DB_Peers_Corrupt'', sql_quote (to_string corrupt)),
     (''DB_Peers_Timespent'', sql_quote (to_string timespent)),
     (''DB_Peers_UserAgent'', sql_quote (p_client p)),
     (''DB_Peers_PeerID'', sql_quote (p_peerID p)),
     (''DB_Peers_TorrentID'', sql_quote (to_string (p_torrentID p))),
     (''DB_Peers_IP'', sql_quote (p_IP p)),
     (''DB_Peers_LastAction'', if p_active p then ''UNIX_TIMESTAMP()'' else show_int (p_lastUpdate p))]"

definition torrent_record :: "torrent \<Rightarrow> (string \<times> string) list" where
  "torrent_record t =
    [(''DB_Torrents_ID'', to_string (t_id t)),
     (''DB_Torrents_Seeders'', show_nat (seeder_count t)),
     (''DB_Torrents_Leechers'', show_nat (leecher_count t)),
     (''DB_Torrents_Snatches'', to_string (t_snatches t)),
     (''DB_Torrents_Balance'', show_int (t_balance t))]"

lemma peer_row_record: "peer_row uid timespent corrupt p = record_text (peer_record uid timespent corrupt p)"
  by (simp add: peer_row_def record_text_def peer_record_def)

lemma torrent_row_record: "torrent_row t = record_text (torrent_record t)"
  by (simp add: torrent_row_def record_text_def torrent_record_def)

lemma insert_heads:
  "fst (peers_sql cfg) = insert_head cfg ''DB_Peers'' (peer_record uid timespent corrupt p)"
  "fst (torrents_sql cfg) = insert_head cfg ''DB_Torrents'' (torrent_record t)"
  by (simp_all add: peers_sql_def torrents_sql_def insert_head_def peer_record_def torrent_record_def)

section \<open>The peer that is recorded\<close>

text \<open>The table in which an announce finds its peer.\<close>

definition announce_slot :: "string \<Rightarrow> string \<Rightarrow> bool \<Rightarrow> string \<Rightarrow> torrent \<Rightarrow> slot" where
  "announce_slot left event ipv6 pid t =
    (if left \<noteq> ''0'' then leech_slot ipv6
     else if getPeer pid (get_slot (seed_slot ipv6) t) \<noteq> None then seed_slot ipv6
     else if getPeer pid (get_slot Leechers t) \<noteq> None \<or> event = ''completed'' \<and> \<not> ipv6 then Leechers
     else seed_slot ipv6)"

text \<open>A peer the announce creates.\<close>

definition fresh_peer :: "env \<Rightarrow> config \<Rightarrow> (string \<rightharpoonup> nat) \<Rightarrow> request \<Rightarrow> u32 \<Rightarrow> bool \<Rightarrow> string \<Rightarrow> peer \<Rightarrow> bool" where
  "fresh_peer e cfg um req tid ipv6 pid q \<longleftrightarrow> (\<exists>ip port u l d up client.
    req ''ip'' = Some ip \<and> req ''port'' = Some port \<and> req ''user-agent'' = Some client \<and>
    number req ''left'' = Inr l \<and> number req ''downloaded'' = Inr d \<and> number req ''uploaded'' = Inr up \<and>
    (is_private cfg \<longrightarrow> (\<exists>k. req ''reqpasskey'' = Some k \<and> u = um k)) \<and>
    new_peer e ip port u l d up tid client pid ipv6 = Inr q)"

text \<open>The peer before the announce: the entry of the table, or the one the announce creates.\<close>

definition peer_before ::
  "env \<Rightarrow> config \<Rightarrow> (string \<rightharpoonup> nat) \<Rightarrow> request \<Rightarrow> bool \<Rightarrow> string \<Rightarrow> slot \<Rightarrow> torrent \<Rightarrow> peer \<Rightarrow> bool" where
  "peer_before e cfg um req ipv6 pid sl t q \<longleftrightarrow>
    (case getPeer pid (get_slot sl t) of Some p \<Rightarrow> q = p | None \<Rightarrow> fresh_peer e cfg um req (t_id t) ipv6 pid q)"

definition speed :: "u64 \<Rightarrow> int \<Rightarrow> int \<Rightarrow> u32" where
  "speed bytes now last_time = (if now > last_time then ucast (bytes div word_of_int (now - last_time)) else 0)"

text \<open>
  The peer after the announce: who it is does not change; on a private tracker it has the
  announced amounts (the downloaded one times the factor 1, 0 or -1 of the free leech), the
  speeds since its last update and the time of the request.
\<close>

definition peer_after :: "env \<Rightarrow> config \<Rightarrow> request \<Rightarrow> string \<Rightarrow> bool \<Rightarrow> peer \<Rightarrow> peer \<Rightarrow> bool" where
  "peer_after e cfg req event marked q p \<longleftrightarrow>
    p_user p = p_user q \<and> p_peerID p = p_peerID q \<and> p_torrentID p = p_torrentID q \<and> p_client p = p_client q \<and>
    p_IP p = p_IP q \<and> p_port p = p_port q \<and> p_hexIPPort p = p_hexIPPort q \<and> p_timespent p = 0 \<and>
    p_active p = (p_active q \<and> event \<noteq> ''stopped'') \<and>
    p_completed p = (p_completed q \<or> event = ''completed'' \<and> marked) \<and>
    (if is_private cfg then
       number req ''uploaded'' = Inr (p_totalUploaded p) \<and> number req ''left'' = Inr (p_left p) \<and>
       (\<exists>d. number req ''downloaded'' = Inr d \<and> p_totalDownloaded p \<in> {d, 0, - d}) \<and>
       p_corrupt p = Some (ucast (corrupt_of req)) \<and> p_lastUpdate p = e_now e \<and>
       p_downSpeed p = speed (p_totalDownloaded p - p_totalDownloaded q) (e_now e) (p_lastUpdate q) \<and>
       p_upSpeed p = speed (p_totalUploaded p - p_totalUploaded q) (e_now e) (p_lastUpdate q)
     else p_totalUploaded p = p_totalUploaded q \<and> p_totalDownloaded p = p_totalDownloaded q \<and> p_left p = p_left q \<and>
       p_corrupt p = p_corrupt q \<and> p_lastUpdate p = p_lastUpdate q \<and> p_downSpeed p = p_downSpeed q \<and>
       p_upSpeed p = p_upSpeed q)"

text \<open>The time that is recorded: what was counted before and the time since the last update.\<close>

definition time_recorded :: "env \<Rightarrow> config \<Rightarrow> peer \<Rightarrow> u64" where
  "time_recorded e cfg q =
    p_timespent q + (if is_private cfg then word_of_int (e_now e - p_lastUpdate q) else 0)"

definition owner_id :: "config \<Rightarrow> heap \<Rightarrow> peer \<Rightarrow> string \<Rightarrow> bool" where
  "owner_id cfg h p uid \<longleftrightarrow>
    (if is_private cfg then \<exists>u. deref h (p_user p) = Inr u \<and> uid = to_string (u_id u) else uid = ''0'')"

lemma add_to_slot_finds:
  assumes r: "add_to_slot e cfg um req ipv6 sl w = Inr w'" and pid: "req ''peer_id'' = Some pid" and ok: "work_ok cfg w"
    and new: "getPeer pid (get_slot sl (w_tor w)) = None"
  shows "\<exists>q. fresh_peer e cfg um req (t_id (w_tor w)) ipv6 pid q \<and> getPeer pid (get_slot sl (w_tor w')) = Some q \<and>
    (\<forall>sl'. sl' \<noteq> sl \<longrightarrow> get_slot sl' (w_tor w') = get_slot sl' (w_tor w)) \<and> t_id (w_tor w') = t_id (w_tor w) \<and>
    w_users w' = w_users w"
proof -
  obtain ps st where a: "addPeer e cfg um req (t_id (w_tor w)) ipv6 (get_slot sl (w_tor w), w_stats w) = Inr (ps, st)"
    and w': "w' = w\<lparr>w_tor := set_slot sl ps (w_tor w), w_stats := st\<rparr>"
    using r by (auto simp: add_to_slot_def)
  from a pid obtain q where f: "fresh_peer e cfg um req (t_id (w_tor w)) ipv6 pid q"
    and ps: "ps = (get_slot sl (w_tor w))\<lparr>pMap := pm_emplace (e_order e) pid q (pMap (get_slot sl (w_tor w)))\<rparr>"
    unfolding fresh_peer_def number_def is_private_def by (elim addPeer_Inr) auto
  have "pm_wf (pMap (get_slot sl (w_tor w)))"
    using ok torrent_ok_slot [of _ _ _ sl] by (fastforce simp: work_ok_def peers_ok_def)
  then have "getPeer pid (get_slot sl (w_tor w')) = Some q"
    using new by (simp add: w' ps getPeer_def pm_find_emplace)
  with f show ?thesis by (auto simp: w')
qed

lemma leech_block_finds:
  assumes r: "leech_block e cfg ls um req pid event ipv6 w = Inr (pp, free, w')" and pid: "req ''peer_id'' = Some pid"
    and ok: "work_ok cfg w"
  shows "\<exists>q. peer_before e cfg um req ipv6 pid (leech_slot ipv6) (w_tor w) q \<and>
    getPeer pid (get_slot (leech_slot ipv6) (w_tor w')) = Some (if event = ''completed'' then complete q else q) \<and>
    (\<forall>sl. sl \<noteq> leech_slot ipv6 \<longrightarrow> (\<forall>k. getPeer k (get_slot sl (w_tor w')) = getPeer k (get_slot sl (w_tor w)))) \<and>
    t_id (w_tor w') = t_id (w_tor w) \<and> w_users w' = w_users w \<and> pp = (leech_slot ipv6, pid)"
proof -
  let ?sl = "leech_slot ipv6"
  from r obtain w1 w2 where
    a: "(if getPeer pid (get_slot ?sl (w_tor w)) = None then add_to_slot e cfg um req ipv6 ?sl w else Inr w) = Inr w1"
    and f: "free_rate e cfg ls req (?sl, pid) w1 = Inr (free, w2)"
    and m: "(if event = ''completed'' then mark_completed (?sl, pid) w2 else Inr w2) = Inr w'" and pp: "pp = (?sl, pid)"
    by (auto simp: leech_block_def Let_def)
  obtain q where q: "peer_before e cfg um req ipv6 pid ?sl (w_tor w) q" "getPeer pid (get_slot ?sl (w_tor w1)) = Some q"
    "\<forall>sl. sl \<noteq> ?sl \<longrightarrow> get_slot sl (w_tor w1) = get_slot sl (w_tor w)" "t_id (w_tor w1) = t_id (w_tor w)" "w_users w1 = w_users w"
  proof (cases "getPeer pid (get_slot ?sl (w_tor w))")
    case None
    with a have "add_to_slot e cfg um req ipv6 ?sl w = Inr w1" by simp
    from add_to_slot_finds [OF this pid ok None] None that show thesis by (auto simp: peer_before_def)
  next
    case (Some p)
    with a that show thesis by (auto simp: peer_before_def)
  qed
  have w2: "w_tor w2 = w_tor w1" "w_users w2 = w_users w1"
    using f by (auto simp: free_rate_def Let_def split: if_splits)
  show ?thesis
    using q m w2 pp by (intro exI [of _ q]) (auto simp: mark_completed_def peer_at_Inr split: if_splits)
qed

text \<open>Finding the peer, from the two blocks.\<close>

lemma find_peer_finds:
  assumes r: "find_peer e cfg ls um req pid left event ipv6 w = Inr (pp, free, w')" and pid: "req ''peer_id'' = Some pid"
    and ok: "work_ok cfg w" and pton: "pton_ok (e_pton e)" and pk: "passkey_ok cfg um req (length (w_users w))"
  defines "sl \<equiv> announce_slot left event ipv6 pid (w_tor w)"
  shows "\<exists>q p. peer_before e cfg um req ipv6 pid sl (w_tor w) q \<and> getPeer pid (get_slot sl (w_tor w')) = Some p \<and>
    (p = q \<and> \<not> (event = ''completed'' \<and> sl = leech_slot ipv6) \<or> p = complete q \<and> event = ''completed'' \<and> sl = leech_slot ipv6) \<and>
    w_users w' = w_users w \<and> pp = (sl, pid)"
proof -
  have slots: "seed_slot ipv6 \<noteq> leech_slot ipv6" "leech_slot ipv6 = Leechers \<longleftrightarrow> \<not> ipv6" "seed_slot ipv6 \<noteq> Leechers"
    by (simp_all add: seed_slot_def leech_slot_def)
  from r obtain pp1 w1 where
    l: "(if left \<noteq> ''0'' \<or> event = ''completed''
           then bindE (leech_block e cfg ls um req pid event ipv6 w) (\<lambda>(pp, free, w'). Inr (Some pp, free, w'))
           else Inr (None, 0, w)) = Inr (pp1, free, w1)"
    and s: "(if left = ''0''
           then bindE (seed_block e cfg um req pid ipv6 w1) (\<lambda>(pp, w'). Inr (Some pp, w'))
           else Inr (pp1, w1)) = Inr (Some pp, w')"
    by (auto simp: find_peer_def bindE_Inr_iff split: option.splits)
  have ok1: "work_ok cfg w1"
    using l leech_block_keeps [OF _ pton pk] ok by (auto simp: keeps_work_def split: if_splits)
  note leech = leech_block_finds [where req = req and pid = pid and w = w, OF _ pid ok]
  show ?thesis
  proof (cases "left = ''0''")
    case False
    with l s obtain "leech_block e cfg ls um req pid event ipv6 w = Inr (pp, free, w')" by (auto split: if_splits)
    from leech [OF this] False show ?thesis by (auto simp: sl_def announce_slot_def)
  next
    case True
    have seed: "seed_block e cfg um req pid ipv6 w1 = Inr (pp, w')" using s True by auto
    have other: "w_users w1 = w_users w \<and> t_id (w_tor w1) = t_id (w_tor w) \<and>
        (\<forall>sl. sl \<noteq> leech_slot ipv6 \<or> event \<noteq> ''completed'' \<longrightarrow> getPeer pid (get_slot sl (w_tor w1)) = getPeer pid (get_slot sl (w_tor w)))"
      using l True by (auto split: if_splits dest!: leech)
    then have seeds: "getPeer pid (get_slot (seed_slot ipv6) (w_tor w1)) = getPeer pid (get_slot (seed_slot ipv6) (w_tor w))"
      using slots by metis
    show ?thesis
    proof (cases "getPeer pid (get_slot (seed_slot ipv6) (w_tor w))")
      case (Some p)
      then show ?thesis
        using seed seeds other slots True by (auto simp: seed_block_def sl_def announce_slot_def peer_before_def)
    next
      case None
      note none = this
      show ?thesis
      proof (cases "event = ''completed'' \<and> \<not> ipv6")
        case True
        with l \<open>left = ''0''\<close> obtain pp0 where "leech_block e cfg ls um req pid event ipv6 w = Inr (pp0, free, w1)"
          by (auto split: if_splits)
        from leech [OF this] True slots obtain q where
          "peer_before e cfg um req ipv6 pid Leechers (w_tor w) q" "getPeer pid (get_slot Leechers (w_tor w1)) = Some (complete q)"
          by auto
        with True none seed seeds other slots \<open>left = ''0''\<close> show ?thesis
          by (auto simp: seed_block_def sl_def announce_slot_def)
      next
        case False
        then have v4: "getPeer pid (get_slot Leechers (w_tor w1)) = getPeer pid (get_slot Leechers (w_tor w))"
          using other slots by metis
        show ?thesis
        proof (cases "getPeer pid (get_slot Leechers (w_tor w))")
          case (Some p)
          then show ?thesis
            using seed seeds v4 none other slots False \<open>left = ''0''\<close>
            by (auto simp: seed_block_def sl_def announce_slot_def peer_before_def)
        next
          case None
          then have add: "add_to_slot e cfg um req ipv6 (seed_slot ipv6) w1 = Inr w'" "pp = (seed_slot ipv6, pid)"
            using seed seeds v4 none by (auto simp: seed_block_def)
          from add_to_slot_finds [OF add(1) pid ok1] seeds none other
          have "\<exists>q. fresh_peer e cfg um req (t_id (w_tor w)) ipv6 pid q \<and>
              getPeer pid (get_slot (seed_slot ipv6) (w_tor w')) = Some q \<and> w_users w' = w_users w" by auto
          then show ?thesis
            using None none False slots \<open>left = ''0''\<close> add(2)
            by (auto simp: sl_def announce_slot_def peer_before_def)
        qed
      qed
    qed
  qed
qed

section \<open>The whole announce\<close>

lemma torrent_row_pMap:
  assumes "\<forall>sl. pMap (get_slot sl t') = pMap (get_slot sl t)"
    and "t_id t' = t_id t" "t_snatches t' = t_snatches t" "t_balance t' = t_balance t"
  shows "torrent_row t' = torrent_row t"
  using counts_pMap [OF assms(1)] assms(2-4) by (simp add: torrent_row_def)

lemma list_peers_frame:
  "list_peers sl n ipv6 c t = Inr (str, t') \<Longrightarrow> (\<forall>sl'. pMap (get_slot sl' t') = pMap (get_slot sl' t)) \<and>
    t_id t' = t_id t \<and> t_snatches t' = t_snatches t \<and> t_balance t' = t_balance t"
  by (auto simp: list_peers_def dest!: getPeers_pMap split: if_splits)

lemma reply_block_torrent_row:
  assumes "reply_block cfg req left event ipv6 t = Inr (reply, t')"
  shows "torrent_row t' = torrent_row t"
  using assms
  by (rule reply_block_parts) (auto dest!: list_peers_frame intro!: torrent_row_pMap split: if_splits)

lemma find_peer_snd:
  assumes "find_peer e cfg ls um req pid left event ipv6 w = Inr (pp, free, w')"
  shows "snd pp = pid"
  using assms
  by (auto simp: find_peer_def leech_block_def seed_block_def Let_def split: if_splits option.splits)

text \<open>The blocks between finding the peer and its row.\<close>

lemma peer_steps:
  assumes st: "mark_stopped (sl, pid) event w1 = Inr w2"
    and am: "update_amounts e cfg req (corrupt_of req) free (sl, pid) w2 = Inr (b, w3)"
    and ba: "balance_block b w3 = Inr wb" and rp: "record_peer_block cfg (sl, pid) wb = Inr w4"
    and db: "\<not> is_public cfg" and free: "free div 100 \<in> {0, 1, 2}"
    and p1: "getPeer pid (get_slot sl (w_tor w1)) = Some p1"
  shows "\<exists>p c uid. getPeer pid (get_slot sl (w_tor w4)) = Some p \<and> peer_after e cfg req event False p1 p \<and>
    p_corrupt p = Some c \<and> owner_id cfg (w_users w1) p uid \<and> w_users w4 = w_users w1 \<and>
    queues (only Peers_table [peer_row uid (time_recorded e cfg p1) c p]) (w_db w1) (w_db w4)"
proof -
  define p2 where "p2 = (if event = ''stopped'' then inactive p1 else p1)"
  have p2: "getPeer pid (get_slot sl (w_tor w2)) = Some p2" and u2: "w_users w2 = w_users w1"
    using st p1 by (auto simp: mark_stopped_def peer_at_Inr p2_def split: if_splits)
  define after where "after p \<longleftrightarrow> peer_after e cfg req event False p1 (p\<lparr>p_timespent := 0\<rparr>) \<and>
    p_timespent p = time_recorded e cfg p1" for p
  obtain p3 where p3: "getPeer pid (get_slot sl (w_tor w3)) = Some p3" "after p3" and u3: "w_users w3 = w_users w2"
  proof (cases "is_private cfg")
    case True
    from am True p2 obtain d u l where n: "number req ''downloaded'' = Inr d" "number req ''uploaded'' = Inr u" "number req ''left'' = Inr l"
      and w3: "w3 = w2\<lparr>w_tor := update_peer (sl, pid) (fst (peer_updateStats (d * word_of_int (1 - free div 100)) u l
          (ucast (corrupt_of req)) (e_now e) (p2, w_stats w2))) (w_tor w2),
        w_stats := snd (peer_updateStats (d * word_of_int (1 - free div 100)) u l
          (ucast (corrupt_of req)) (e_now e) (p2, w_stats w2))\<rparr>"
      by (auto simp: update_amounts_def Let_def peer_at_Inr simp del: of_int_diff)
    have "d * word_of_int (1 - free div 100) \<in> {d, 0, - d}" using free by auto
    then have "after (fst (peer_updateStats (d * word_of_int (1 - free div 100)) u l (ucast (corrupt_of req)) (e_now e) (p2, w_stats w2)))"
      using True n by (auto simp: after_def peer_after_def peer_updateStats_def Let_def p2_def inactive_def time_recorded_def
          speed_def simp del: of_int_diff)
    with that show thesis by (simp add: w3)
  next
    case False
    with am p2 that show thesis
      by (auto simp: update_amounts_def after_def peer_after_def p2_def inactive_def time_recorded_def)
  qed
  have pb: "getPeer pid (get_slot sl (w_tor wb)) = Some p3" "w_users wb = w_users w3" "w_db wb = w_db w3"
    using p3(1) balance_block_Inr [OF ba] by simp_all
  from rp db pb(1) obtain uid c where
    c: "getCorrupt p3 = Inr c" and uid: "peer_uid cfg (w_users wb) (p3\<lparr>p_timespent := 0\<rparr>) = Inr uid" and
    w4: "w4 = wb\<lparr>w_tor := update_peer (sl, pid) (p3\<lparr>p_timespent := 0\<rparr>) (w_tor wb),
      w_db := push_request Peers_table (peer_row uid (p_timespent p3) c (p3\<lparr>p_timespent := 0\<rparr>)) (w_db wb)\<rparr>"
    by (auto simp: record_peer_block_def recordPeer_def getTimespent_def peer_at_Inr)
  let ?p = "p3\<lparr>p_timespent := 0\<rparr>"
  have "w_db wb = w_db w1" using pb(3) unqueued_blocks(2) [OF st] unqueued_blocks(4) [OF am] by simp
  then have row: "queues (only Peers_table [peer_row uid (time_recorded e cfg p1) c ?p]) (w_db w1) (w_db w4)"
    using p3(2) queues_push by (simp add: w4 after_def)
  have own: "owner_id cfg (w_users w1) ?p uid"
    using uid pb(2) u3 u2 by (auto simp: owner_id_def peer_uid_def is_private_def split: if_splits)
  have "getPeer pid (get_slot sl (w_tor w4)) = Some ?p" "w_users w4 = w_users w1" using pb(2) u3 u2 by (simp_all add: w4)
  moreover have "peer_after e cfg req event False p1 ?p" using p3(2) by (simp add: after_def)
  moreover have "p_corrupt ?p = Some c" using c by (simp add: getCorrupt_Inr)
  ultimately show ?thesis using row own by (intro exI [of _ ?p] exI [of _ c] exI [of _ uid]) simp
qed

lemma peer_after_marked:
  "peer_after e cfg req event False q p \<Longrightarrow> \<not> (event = ''completed'' \<and> m) \<Longrightarrow> peer_after e cfg req event m q p"
  "peer_after e cfg req event False (complete q) p \<Longrightarrow> event = ''completed'' \<Longrightarrow> m \<Longrightarrow> peer_after e cfg req event m q p"
  by (auto simp: peer_after_def complete_def)

text \<open>After its row the peer changes no more, unless it is removed.\<close>

lemma kept_after:
  assumes "record_user_block cfg pp w4 = Inr w5" and rm: "removal_block req left event ipv6 w5 = Inr w6"
    and "reply_block cfg req left event ipv6 (w_tor (record_torrent_block cfg w6)) = Inr (reply, t)"
    and "sl \<notin> removed_slots left event ipv6"
  shows "getPeer k (get_slot sl t) = getPeer k (get_slot sl (w_tor w4))"
proof -
  have "w_tor w5 = w_tor w4" using assms(1) by (auto simp: record_user_block_def split: if_splits)
  moreover have "get_slot sl (w_tor w6) = get_slot sl (w_tor w5)"
    using rm assms(4) by (auto simp: removal_block_def removed_slots_def remove_from_def split: if_splits simp del: set_slot.simps get_slot.simps)
  moreover have "pMap (get_slot sl t) = pMap (get_slot sl (w_tor w6))"
  proof (rule reply_block_parts [OF assms(3)])
    fix peerlist6 peerlist t1 i j g
    assume a: "(if j > 0 then list_peers (list_slot left True) j True (req ''compact'' \<noteq> Some ''0'') (w_tor (record_torrent_block cfg w6))
        else Inr ('''', w_tor (record_torrent_block cfg w6))) = Inr (peerlist6, t1)"
      and b: "list_peers (list_slot left False) i False (req ''compact'' \<noteq> Some ''0'') t1 = Inr (peerlist, t)"
    from a have "pMap (get_slot sl t1) = pMap (get_slot sl (w_tor w6))"
      using list_peers_frame by (auto simp: record_torrent_block_def split: if_splits)
    with list_peers_frame [OF b] show ?thesis by simp
  qed
  ultimately show ?thesis by (simp add: getPeer_def)
qed

text \<open>The rows an announce of a tracker with a database queues.\<close>

definition announce_rows :: "string \<Rightarrow> string \<Rightarrow> string list \<Rightarrow> string list \<Rightarrow> table \<Rightarrow> string list" where
  "announce_rows peer_text torrent_text users tokens tab =
    (case tab of Peers_table \<Rightarrow> [peer_text] | Torrents \<Rightarrow> [torrent_text] | Users \<Rightarrow> users
     | Tokens \<Rightarrow> tokens | Snatches \<Rightarrow> [])"

definition one_row_if :: "bool \<Rightarrow> string list \<Rightarrow> bool" where
  "one_row_if private rows \<longleftrightarrow> length rows \<le> 1 \<and> (\<not> private \<longrightarrow> rows = [])"

lemma announce_work_rows:
  assumes run: "announce_work e cfg ls um req event ipv6 w = Inr (reply, w')" and db: "\<not> is_public cfg"
    and pid: "req ''peer_id'' = Some pid" and left: "req ''left'' = Some left"
    and ok: "work_ok cfg w" and pton: "pton_ok (e_pton e)" and pk: "passkey_ok cfg um req (length (w_users w))"
  defines "sl \<equiv> announce_slot left event ipv6 pid (w_tor w)"
  shows "\<exists>q p c uid users tokens. peer_before e cfg um req ipv6 pid sl (w_tor w) q \<and>
    peer_after e cfg req event (sl = leech_slot ipv6) q p \<and> p_corrupt p = Some c \<and> owner_id cfg (w_users w) p uid \<and>
    (sl \<notin> removed_slots left event ipv6 \<longrightarrow> getPeer pid (get_slot sl (w_tor w')) = Some p) \<and>
    queues (announce_rows (record_text (peer_record uid (time_recorded e cfg q) c p)) (record_text (torrent_record (w_tor w')))
      users tokens) (w_db w) (w_db w') \<and>
    one_row_if (is_private cfg) users \<and> one_row_if (is_private cfg) tokens"
proof -
  from run pid left obtain pp free balance w1 w2 w3 wb w4 w5 w6 t where
    b: "find_peer e cfg ls um req pid left event ipv6 w = Inr (pp, free, w1)"
      "mark_stopped pp event w1 = Inr w2"
      "update_amounts e cfg req (corrupt_of req) free pp w2 = Inr (balance, w3)"
      "balance_block balance w3 = Inr wb" "record_peer_block cfg pp wb = Inr w4"
      "record_user_block cfg pp w4 = Inr w5" "removal_block req left event ipv6 w5 = Inr w6"
      "reply_block cfg req left event ipv6 (w_tor (record_torrent_block cfg w6)) = Inr (reply, t)"
      "w' = (record_torrent_block cfg w6)\<lparr>w_tor := t\<rparr>" by (cases rule: announce_work_parts) auto
  obtain q p1 where q: "peer_before e cfg um req ipv6 pid sl (w_tor w) q" and p1: "getPeer pid (get_slot sl (w_tor w1)) = Some p1"
    and p1q: "p1 = q \<and> \<not> (event = ''completed'' \<and> sl = leech_slot ipv6) \<or> p1 = complete q \<and> event = ''completed'' \<and> sl = leech_slot ipv6"
    and u1: "w_users w1 = w_users w" and pp: "pp = (sl, pid)"
    using find_peer_finds [OF b(1) pid ok pton pk] unfolding sl_def by blast
  from peer_steps [OF b(2-5) [unfolded pp] db find_peer_free [OF b(1)] p1] obtain p c uid where
    p: "getPeer pid (get_slot sl (w_tor w4)) = Some p" "peer_after e cfg req event False p1 p"
      "p_corrupt p = Some c" "owner_id cfg (w_users w) p uid" and
    prow: "queues (only Peers_table [peer_row uid (time_recorded e cfg p1) c p]) (w_db w1) (w_db w4)"
    unfolding u1 by blast
  have after: "peer_after e cfg req event (sl = leech_slot ipv6) q p"
    using p1q
  proof (elim disjE conjE)
    assume "p1 = q" and no: "\<not> (event = ''completed'' \<and> sl = leech_slot ipv6)"
    with p(2) have "peer_after e cfg req event False q p" by simp
    then show ?thesis using no by (rule peer_after_marked(1))
  next
    assume "p1 = complete q" and ev: "event = ''completed''" "sl = leech_slot ipv6"
    with p(2) have "peer_after e cfg req event False (complete q) p" by simp
    then show ?thesis using ev by (rule peer_after_marked(2))
  qed
  have time: "time_recorded e cfg p1 = time_recorded e cfg q"
    using p1q by (auto simp: time_recorded_def complete_def)
  have kept: "sl \<notin> removed_slots left event ipv6 \<longrightarrow> getPeer pid (get_slot sl t) = Some p"
    using kept_after [OF b(6-8)] p(1) by simp
  obtain tokens where tk: "queues (only Tokens tokens) (w_db w) (w_db w1)" "one_row_if (is_private cfg) tokens"
    using find_peer_queues [OF b(1)] by (auto simp: may_queue_def one_row_if_def)
  obtain users where us: "queues (only Users users) (w_db w4) (w_db w6)" "one_row_if (is_private cfg) users"
    using record_user_block_queues [OF b(6)] unqueued_blocks(7) [OF b(7)] by (auto simp: may_queue_def one_row_if_def)
  have w7: "w_db w' = push_request Torrents (record_text (torrent_record t)) (w_db w6)"
    using db reply_block_torrent_row [OF b(8)]
    by (simp add: b(9) record_torrent_block_def recordTorrent_def torrent_row_record)
  have all: "queues (announce_rows (record_text (peer_record uid (time_recorded e cfg q) c p)) (record_text (torrent_record t))
      users tokens) (w_db w) (w_db w')"
    unfolding w7
    by (rule queues_same [OF queues_trans [OF queues_trans [OF queues_trans [OF tk(1) prow] us(1)] queues_push]])
      (auto simp: announce_rows_def peer_row_record time split: table.splits)
  have "w_tor w' = t" by (simp add: b(9))
  with q after p(3,4) kept all us(2) tk(2) show ?thesis
    by (intro exI [of _ q] exI [of _ p] exI [of _ c] exI [of _ uid] exI [of _ users] exI [of _ tokens]) simp
qed

section \<open>Properties\<close>

text \<open>C15: What an announce leaves for the database. An announce that the tracker admits and that
  returns queues, on a tracker with a database, exactly one row for the peer and one for the
  torrent; on a private tracker also at most one row for the account and one for a token. It
  never queues a snatch, not even when the peer completes, and touches neither waiting
  statements nor threads. Column by column, under the names the statements give the columns,
  the peer row holds the identity of the account stored with the peer, the peer as it stands
  in its table afterwards (unless it was removed) and the time since its last update; that
  peer is the one found in the table \<open>announce_slot\<close> (or the one the announce created), with
  the announced amounts on a private tracker, and inactive when it stopped. The torrent row
  holds the counts, snatches and balance of the torrent afterwards.\<close>

theorem announce_queues_rows:
  assumes "tracker_ok cfg s" and "pton_ok (e_pton e)" and "admitted cfg req h s"
    and "map_of (torMap s) h = Some t" and "announce e cfg req h ipv6 s = Inr (reply, s')"
    and "req ''peer_id'' = Some pid" and "req ''left'' = Some left" and "req ''event'' = Some event"
    and "\<not> is_public cfg" and "sl = announce_slot left event ipv6 pid t"
  shows "\<exists>t' q p c uid users tokens. map_of (torMap s') h = Some t' \<and>
    peer_before e cfg (usrMap s) req ipv6 pid sl t q \<and> peer_after e cfg req event (sl = leech_slot ipv6) q p \<and>
    (sl \<notin> removed_slots left event ipv6 \<longrightarrow> getPeer pid (get_slot sl t') = Some p) \<and>
    p_corrupt p = Some c \<and> owner_id cfg (accounts s) p uid \<and>
    requests (dbase s') = (\<lambda>tab. requests (dbase s) tab @
      announce_rows (record_text (peer_record uid (time_recorded e cfg q) c p)) (record_text (torrent_record t')) users tokens tab) \<and>
    fst (peers_sql cfg) = insert_head cfg ''DB_Peers'' (peer_record uid (time_recorded e cfg q) c p) \<and>
    fst (torrents_sql cfg) = insert_head cfg ''DB_Torrents'' (torrent_record t') \<and>
    records (dbase s') = records (dbase s) \<and> threads (dbase s') = threads (dbase s) \<and>
    one_row_if (is_private cfg) users \<and> one_row_if (is_private cfg) tokens"
proof -
  let ?w = "start_work t s"
  from assms(5) obtain w where w: "announce_work e cfg (leechStatus s) (usrMap s) req event ipv6 ?w = Inr (reply, w)"
    and s': "s' = finish_work h w s" by (auto simp: announce_admitted_eq [OF assms(3,4,8)])
  have ok: "work_ok cfg ?w" using tracker_ok_torrent [OF assms(1,4)] by (simp add: work_ok_def start_work_def)
  have pk: "passkey_ok cfg (usrMap s) req (length (w_users ?w))"
    using assms(3) by (auto simp: admitted_def passkey_ok_def start_work_def dest!: deref_Inr elim!: valid_ptrE)
  have h: "map_of (torMap s') h = Some (w_tor w)" by (simp add: s' finish_work_def)
  have sl: "sl = announce_slot left event ipv6 pid (w_tor ?w)" using assms(10) by (simp add: start_work_def)
  from announce_work_rows [OF w assms(9,6,7) ok assms(2) pk, folded sl] obtain q p c uid users tokens where
    r: "peer_before e cfg (usrMap s) req ipv6 pid sl t q" "peer_after e cfg req event (sl = leech_slot ipv6) q p"
      "p_corrupt p = Some c" "owner_id cfg (accounts s) p uid"
      "sl \<notin> removed_slots left event ipv6 \<longrightarrow> getPeer pid (get_slot sl (w_tor w)) = Some p"
      "one_row_if (is_private cfg) users" "one_row_if (is_private cfg) tokens" and
    q: "queues (announce_rows (record_text (peer_record uid (time_recorded e cfg q) c p)) (record_text (torrent_record (w_tor w)))
      users tokens) (dbase s) (w_db w)"
    by (auto simp: start_work_def)
  have "requests (dbase s') = (\<lambda>tab. requests (dbase s) tab @
      announce_rows (record_text (peer_record uid (time_recorded e cfg q) c p)) (record_text (torrent_record (w_tor w))) users tokens tab)"
    "records (dbase s') = records (dbase s)" "threads (dbase s') = threads (dbase s)"
    using q by (simp_all add: queues_def s' finish_work_def)
  with r h insert_heads show ?thesis
    by (intro exI [of _ "w_tor w"] exI [of _ q] exI [of _ p] exI [of _ c] exI [of _ uid] exI [of _ users] exI [of _ tokens]) simp
qed

lemma announce_queues_rows_witness:
  "\<exists>reply s'. announce sample_env default_config sample_request ''h'' False sample_tracker = Inr (reply, s') \<and>
    length (requests (dbase s') Peers_table) = 1 \<and> requests (dbase s') Snatches = []"
proof -
  have h: "map_of (torMap sample_tracker) ''h'' = Some sample_torrent" by (simp add: sample_tracker_def)
  have r: "sample_request ''peer_id'' = Some ''b''" "sample_request ''left'' = Some ''1''"
    "sample_request ''event'' = Some ''updating''" by simp_all
  from announce_serves [OF sample_tracker_ok sample_env_ok sample_admitted h sample_cursors sample_request_ok r
      sample_request_accountable, of False] obtain reply s' where
    a: "announce sample_env default_config sample_request ''h'' False sample_tracker = Inr (reply, s')"
    by (auto simp: spared_def)
  from announce_queues_rows [OF sample_tracker_ok sample_env_ok sample_admitted h a r _ refl] a show ?thesis
    by (auto simp: sample_tracker_def announce_rows_def empty_tracker_def empty_db_def)
qed

end
