(* ===== verification/Admin.thy ===== *)
theory Admin
  imports AnnounceEffect
begin

text \<open>
  The update requests of src/handler/requestHandler.cpp: accounts, passkeys, tokens, IP
  restrictions, torrents, bans, the client whitelist and the leech status, and the dispatch
  \<open>update\<close>. Messages to the log are left out, as they do not change the state, except
  the one of \<open>deleteTorrent\<close>, which reads an erased iterator. The lemmas show
  what each handler does to the tables, that all of them keep the tracker invariant, and
  that banning a range bans exactly its addresses.
\<close>

section \<open>Accounts\<close>

text \<open>\<open>usrMap.at(passkey)->f(...)\<close>\<close>

definition on_user :: "string \<Rightarrow> (user \<Rightarrow> user) \<Rightarrow> tracker \<Rightarrow> tracker res" where
  "on_user passkey f s =
    bindE (at_key (usrMap s) passkey) (\<lambda>a.
    bindE (modify (Some a) f (accounts s)) (\<lambda>h. Inr (s\<lparr>accounts := h\<rparr>)))"

definition ip_param :: "request \<Rightarrow> string res" where
  "ip_param req = bindE (number req ''ip'') (\<lambda>n. Inr (long2ip (ucast n)))"

definition addIPRestriction :: "request \<Rightarrow> tracker \<Rightarrow> tracker res" where
  "addIPRestriction req s =
    bindE (ip_param req) (\<lambda>ip.
    bindE (at_key req ''passkey'') (\<lambda>passkey. on_user passkey (user_addIPRestriction ip) s))"

definition removeIPRestriction :: "request \<Rightarrow> tracker \<Rightarrow> tracker res" where
  "removeIPRestriction req s =
    bindE (ip_param req) (\<lambda>ip.
    bindE (at_key req ''passkey'') (\<lambda>passkey. on_user passkey (user_removeIPRestriction ip) s))"

definition torrent_at :: "string \<Rightarrow> tracker \<Rightarrow> torrent res" where
  "torrent_at infoHash s = at_key (map_of (torMap s)) infoHash"

definition addToken :: "int \<Rightarrow> request \<Rightarrow> string \<Rightarrow> tracker \<Rightarrow> tracker res" where
  "addToken now req infoHash s =
    bindE (torrent_at infoHash s) (\<lambda>t.
    bindE (at_key req ''passkey'') (\<lambda>passkey. on_user passkey (user_addToken (t_id t) now) s))"

definition removeToken :: "request \<Rightarrow> string \<Rightarrow> tracker \<Rightarrow> tracker res" where
  "removeToken req infoHash s =
    bindE (torrent_at infoHash s) (\<lambda>t.
    bindE (at_key req ''passkey'') (\<lambda>passkey. on_user passkey (user_removeToken (t_id t)) s))"

definition changePasskey :: "request \<Rightarrow> tracker \<Rightarrow> tracker res" where
  "changePasskey req s =
    bindE (at_key req ''old_passkey'') (\<lambda>oldPasskey.
    bindE (at_key req ''new_passkey'') (\<lambda>newPasskey.
      Inr (case getUser oldPasskey s of
             Some u \<Rightarrow> s\<lparr>usrMap := fm_emplace newPasskey u (fm_erase oldPasskey (usrMap s))\<rparr>
           | None \<Rightarrow> s)))"

text \<open>The account is allocated before \<open>emplace\<close> finds out whether the passkey is new.\<close>

definition addUser :: "request \<Rightarrow> tracker \<Rightarrow> tracker res" where
  "addUser req s =
    bindE (at_key req ''passkey'') (\<lambda>passkey.
    bindE (number req ''id'') (\<lambda>userID.
      let (u, h) = alloc (new_user (ucast userID) True) (accounts s)
      in Inr (s\<lparr>accounts := h, usrMap := fm_emplace passkey u (usrMap s)\<rparr>)))"

definition updateUser :: "request \<Rightarrow> tracker \<Rightarrow> tracker res" where
  "updateUser req s =
    bindE (at_key req ''passkey'') (\<lambda>passkey.
    bindE (at_key req ''can_leech'') (\<lambda>can_leech.
      case getUser passkey s of
        Some u \<Rightarrow> bindE (modify (getUser passkey s) (setAuthorized (can_leech = ''1'')) (accounts s)) (\<lambda>h.
                    Inr (s\<lparr>accounts := h\<rparr>))
      | None \<Rightarrow> Inr s))"

definition remove_passkey :: "string \<Rightarrow> tracker \<Rightarrow> tracker" where
  "remove_passkey passkey s =
    (case getUser passkey s of
       Some u \<Rightarrow> s\<lparr>usrMap := fm_erase passkey (usrMap s)\<rparr>
     | None \<Rightarrow> s)"

definition removeUser :: "request \<Rightarrow> tracker \<Rightarrow> tracker res" where
  "removeUser req s = bindE (at_key req ''passkey'') (\<lambda>passkey. Inr (remove_passkey passkey s))"

text \<open>
  The loop over \<open>i\<close> in steps of 32; a request is far shorter than \<open>2^32\<close> bytes, so the
  \<open>unsigned int\<close> counter does not wrap.
\<close>

function removeUsers_from :: "string \<Rightarrow> nat \<Rightarrow> tracker \<Rightarrow> tracker" where
  "removeUsers_from passkeys i s =
    (if i < length passkeys
     then removeUsers_from passkeys (i + 32) (remove_passkey (take 32 (drop i passkeys)) s)
     else s)"
  by pat_completeness auto
termination
  by (relation "measure (\<lambda>(passkeys, i, s). length passkeys - i)") auto

declare removeUsers_from.simps [simp del]

definition removeUsers :: "request \<Rightarrow> tracker \<Rightarrow> tracker res" where
  "removeUsers req s = bindE (at_key req ''passkeys'') (\<lambda>passkeys. Inr (removeUsers_from passkeys 0 s))"

section \<open>Torrents\<close>

definition set_free_at :: "string \<Rightarrow> u8 \<Rightarrow> (string \<times> torrent) list \<Rightarrow> (string \<times> torrent) list" where
  "set_free_at infoHash free tm =
    (case map_of tm infoHash of Some t \<Rightarrow> AList.update infoHash (setFree free t) tm | None \<Rightarrow> tm)"

definition addTorrent :: "request \<Rightarrow> string \<Rightarrow> tracker \<Rightarrow> tracker res" where
  "addTorrent req infoHash s =
    bindE (number req ''id'') (\<lambda>torrentID.
    let tm = om_emplace infoHash (new_torrent (ucast torrentID) 0 0 0) (torMap s) in
    bindE (at_key req ''freetorrent'') (\<lambda>free.
      Inr (s\<lparr>torMap := (if free = ''1'' then set_free_at infoHash 100 tm
                       else if free = ''2'' then set_free_at infoHash 50 tm else tm)\<rparr>)))"

text \<open>
  \<open>deleteTorrent\<close> erases the entry and then writes a log message with the number of the
  torrent, read through the erased iterator: undefined behaviour in a build that logs.
\<close>

definition deleteTorrent :: "bool \<Rightarrow> string \<Rightarrow> tracker \<Rightarrow> tracker res" where
  "deleteTorrent logging infoHash s =
    (if map_of (torMap s) infoHash = None then Inr s
     else if logging then Inl (UB Dangling_iterator)
     else Inr (s\<lparr>torMap := AList.delete infoHash (torMap s)\<rparr>))"

definition updateTorrent :: "request \<Rightarrow> string \<Rightarrow> tracker \<Rightarrow> tracker res" where
  "updateTorrent req infoHash s =
    (if map_of (torMap s) infoHash = None then Inr s
     else bindE (at_key req ''freetorrent'') (\<lambda>free.
       Inr (s\<lparr>torMap := set_free_at infoHash
         (if free = ''1'' then 100 else if free = ''2'' then 50 else 0) (torMap s)\<rparr>)))"

section \<open>Bans, whitelist, leech status\<close>

text \<open>\<open>while (from != to) f(from++); f(from)\<close> on \<open>unsigned int\<close>\<close>

function ip_range :: "(string \<Rightarrow> 'a \<Rightarrow> 'a) \<Rightarrow> u32 \<Rightarrow> u32 \<Rightarrow> 'a \<Rightarrow> 'a" where
  "ip_range f from_ip to_ip x =
    (if from_ip \<noteq> to_ip then ip_range f (from_ip + 1) to_ip (f (long2ip from_ip) x) else f (long2ip from_ip) x)"
  by pat_completeness auto

lemma range_step: "from_ip \<noteq> to_ip \<Longrightarrow> unat (to_ip - (from_ip + 1)) < unat (to_ip - from_ip)" for from_ip to_ip :: u32
proof -
  assume "from_ip \<noteq> to_ip"
  then have "unat (to_ip - from_ip - 1) < unat (to_ip - from_ip)" by (intro measure_unat) simp
  then show ?thesis by (simp add: algebra_simps)
qed

termination ip_range
  by (relation "measure (\<lambda>(f, from_ip, to_ip, x). unat (to_ip - from_ip))") (auto simp: range_step)

declare ip_range.simps [simp del]

definition addBan :: "request \<Rightarrow> tracker \<Rightarrow> tracker res" where
  "addBan req s =
    bindE (number req ''fromip'') (\<lambda>from_ip.
    bindE (number req ''toip'') (\<lambda>to_ip.
      Inr (s\<lparr>bannedIPs := ip_range insert (ucast from_ip) (ucast to_ip) (bannedIPs s)\<rparr>)))"

definition removeBan :: "request \<Rightarrow> tracker \<Rightarrow> tracker res" where
  "removeBan req s =
    bindE (number req ''fromip'') (\<lambda>from_ip.
    bindE (number req ''toip'') (\<lambda>to_ip.
      Inr (s\<lparr>bannedIPs := ip_range (\<lambda>ip B. B - {ip}) (ucast from_ip) (ucast to_ip) (bannedIPs s)\<rparr>)))"

definition addWhitelist :: "request \<Rightarrow> tracker \<Rightarrow> tracker res" where
  "addWhitelist req s =
    bindE (at_key req ''peer_id'') (\<lambda>peerID. Inr (s\<lparr>clientWhitelist := clientWhitelist s @ [peerID]\<rparr>))"

definition editWhitelist :: "request \<Rightarrow> tracker \<Rightarrow> tracker res" where
  "editWhitelist req s =
    bindE (at_key req ''old_peer_id'') (\<lambda>oldPeerID.
    bindE (at_key req ''new_peer_id'') (\<lambda>newPeerID.
      Inr (s\<lparr>clientWhitelist := removeAll oldPeerID (clientWhitelist s) @ [newPeerID]\<rparr>)))"

definition removeWhitelist :: "request \<Rightarrow> tracker \<Rightarrow> tracker res" where
  "removeWhitelist req s =
    bindE (at_key req ''peer_id'') (\<lambda>peerID. Inr (s\<lparr>clientWhitelist := removeAll peerID (clientWhitelist s)\<rparr>))"

definition setLeechStatus :: "request \<Rightarrow> tracker \<Rightarrow> tracker res" where
  "setLeechStatus req s =
    bindE (at_key req ''leech_status'') (\<lambda>v.
      Inr (s\<lparr>leechStatus := (if v = ''freeleech'' then FREELEECH else NORMAL)\<rparr>))"

section \<open>Dispatch\<close>

definition front :: "'a list \<Rightarrow> 'a res" where
  "front xs = (case xs of [] \<Rightarrow> Inl (UB Front_of_empty_list) | x # _ \<Rightarrow> Inr x)"

definition update_state :: "env \<Rightarrow> string \<Rightarrow> request \<Rightarrow> string list \<Rightarrow> tracker \<Rightarrow> tracker res" where
  "update_state e type req infoHashes s =
    (if type = ''change_passkey'' then changePasskey req s
     else if type = ''add_torrent'' then bindE (front infoHashes) (\<lambda>h. addTorrent req h s)
     else if type = ''delete_torrent'' then bindE (front infoHashes) (\<lambda>h. deleteTorrent (e_logging e) h s)
     else if type = ''update_torrent'' then bindE (front infoHashes) (\<lambda>h. updateTorrent req h s)
     else if type = ''add_user'' then addUser req s
     else if type = ''update_user'' then updateUser req s
     else if type = ''remove_user'' then removeUser req s
     else if type = ''remove_users'' then removeUsers req s
     else if type = ''add_token'' then bindE (front infoHashes) (\<lambda>h. addToken (e_now e) req h s)
     else if type = ''remove_token'' then bindE (front infoHashes) (\<lambda>h. removeToken req h s)
     else if type = ''add_ban'' then addBan req s
     else if type = ''remove_ban'' then removeBan req s
     else if type = ''add_ip_restriction'' then addIPRestriction req s
     else if type = ''remove_ip_restriction'' then removeIPRestriction req s
     else if type = ''add_whitelist'' then addWhitelist req s
     else if type = ''edit_whitelist'' then editWhitelist req s
     else if type = ''remove_whitelist'' then removeWhitelist req s
     else if type = ''set_leech_status'' then setLeechStatus req s
     else Inr s)"

definition update :: "env \<Rightarrow> request \<Rightarrow> string list \<Rightarrow> tracker \<Rightarrow> (string \<times> tracker) res" where
  "update e req infoHashes s =
    bindE (at_key req ''type'') (\<lambda>type.
    bindE (update_state e type req infoHashes s) (\<lambda>s'. Inr (response ''success'' False, s')))"

section \<open>What the handlers do\<close>

lemma on_user_Inr:
  "on_user k f s = Inr s' \<longleftrightarrow>
    (\<exists>a. usrMap s k = Some a \<and> a < length (accounts s) \<and> s' = s\<lparr>accounts := (accounts s)[a := f (accounts s ! a)]\<rparr>)"
  by (auto simp: on_user_def modify_def deref_def split: if_splits)

lemma minus_one_le_iff: "y \<noteq> 0 \<Longrightarrow> x \<le> y \<longleftrightarrow> x = 0 \<or> x - 1 \<le> y - 1" for x y :: u32
proof -
  assume "y \<noteq> 0"
  then have "0 < unat y" by (simp add: unat_gt_0)
  with \<open>y \<noteq> 0\<close> show ?thesis
    by (cases "x = 0") (auto simp: word_le_nat_alt unat_minus_one)
qed

lemma cyclic_range_step:
  fixes a b :: u32
  assumes "a \<noteq> b" shows "{w. w - a \<le> b - a} = insert a {w. w - (a + 1) \<le> b - (a + 1)}"
proof -
  have "b - a \<noteq> 0" using assms by simp
  then have "w - a \<le> b - a \<longleftrightarrow> w = a \<or> w - a - 1 \<le> b - a - 1" for w
    using minus_one_le_iff [of "b - a" "w - a"] by simp
  then show ?thesis by (auto simp: diff_diff_eq)
qed

lemma cyclic_range_single: "{w. w - a \<le> 0} = {a}" for a :: u32
  by auto

lemma ip_range_steps:
  "ip_range f a a x = f (long2ip a) x"
  "a \<noteq> b \<Longrightarrow> ip_range f a b x = ip_range f (a + 1) b (f (long2ip a) x)"
  by (simp_all add: ip_range.simps [of f a])

text \<open>The addresses of a range, which wraps around when \<open>from\<close> is above \<open>to\<close>.\<close>

definition ip_interval :: "u32 \<Rightarrow> u32 \<Rightarrow> string set" where
  "ip_interval a b = long2ip ` {w. w - a \<le> b - a}"

lemma ip_interval_single: "ip_interval a a = {long2ip a}"
  using cyclic_range_single [of a] by (simp add: ip_interval_def)

lemma ip_interval_step: "a \<noteq> b \<Longrightarrow> ip_interval a b = insert (long2ip a) (ip_interval (a + 1) b)"
  unfolding ip_interval_def by (subst cyclic_range_step) simp_all

lemma ip_range_image:
  assumes "\<And>ip x. val (f ip x) = op (val x) {ip}" and "\<And>x A B. op (op x A) B = op x (A \<union> B)"
  shows "val (ip_range f a b x) = op (val x) (ip_interval a b)"
  using assms(1)
proof (induction f a b x rule: ip_range.induct)
  case (1 f a b x)
  show ?case
  proof (cases "a = b")
    case True
    with "1.prems" show ?thesis by (simp only: ip_range_steps ip_interval_single)
  next
    case False
    have "val (ip_range f (a + 1) b (f (long2ip a) x)) = op (op (val x) {long2ip a}) (ip_interval (a + 1) b)"
      using "1.IH" [OF False "1.prems"] "1.prems" by simp
    then show ?thesis
      by (simp only: ip_range_steps(2) [OF False] ip_interval_step [OF False] assms(2) insert_is_Un [symmetric])
  qed
qed

lemma ip_range_insert: "ip_range insert a b B = B \<union> ip_interval a b"
  by (rule ip_range_image [where val = id and op = "(\<union>)", unfolded id_apply]) auto

lemma ip_range_remove: "ip_range (\<lambda>ip B. B - {ip}) a b B = B - ip_interval a b"
  by (rule ip_range_image [where val = id and op = "(-)", unfolded id_apply]) auto

lemma in_ip_interval: "long2ip w \<in> ip_interval a b \<longleftrightarrow> w - a \<le> b - a"
  by (auto simp: ip_interval_def dest: long2ip_inject_lemma)

lemma removeUsers_from_frame:
  "removeUsers_from ks i s = s\<lparr>usrMap := usrMap (removeUsers_from ks i s)\<rparr>"
proof (induction ks i s rule: removeUsers_from.induct)
  case (1 ks i s)
  show ?case
  proof (cases "i < length ks")
    case True
    let ?s = "remove_passkey (take 32 (drop i ks)) s"
    have "removeUsers_from ks (i + 32) ?s = ?s\<lparr>usrMap := usrMap (removeUsers_from ks (i + 32) ?s)\<rparr>"
      by (rule 1 [OF True])
    moreover have "?s\<lparr>usrMap := m\<rparr> = s\<lparr>usrMap := m\<rparr>" for m
      by (simp add: remove_passkey_def split: option.splits)
    ultimately show ?thesis
      using True by (simp add: removeUsers_from.simps [of ks i s])
  qed (simp add: removeUsers_from.simps [of ks i s])
qed

text \<open>The 32-character pieces of the parameter.\<close>

definition pieces :: "string \<Rightarrow> nat \<Rightarrow> string set" where
  "pieces ks i = {take 32 (drop (i + 32 * n) ks) | n. i + 32 * n < length ks}"

lemma pieces_step:
  "pieces ks i = (if i < length ks then insert (take 32 (drop i ks)) (pieces ks (i + 32)) else {})"
proof -
  have split: "(\<exists>n. P n) \<longleftrightarrow> P 0 \<or> (\<exists>n. P (Suc n))" for P :: "nat \<Rightarrow> bool"
    by (metis not0_implies_Suc)
  have "x \<in> pieces ks i \<longleftrightarrow> (i < length ks \<and> x = take 32 (drop i ks)) \<or> x \<in> pieces ks (i + 32)" for x
    unfolding pieces_def mem_Collect_eq
    by (subst split) (simp add: add.assoc conj_commute)
  moreover have "pieces ks (i + 32) = {}" if "\<not> i < length ks" using that by (auto simp: pieces_def)
  ultimately show ?thesis by auto
qed

lemma usrMap_remove_passkey [simp]:
  "usrMap (remove_passkey p s) k = (if k = p then None else usrMap s k)"
  by (auto simp: remove_passkey_def getUser_def split: option.splits)

lemma removeUsers_from_lookup:
  "usrMap (removeUsers_from ks i s) k = (if k \<in> pieces ks i then None else usrMap s k)"
proof (induction ks i s rule: removeUsers_from.induct)
  case (1 ks i s)
  show ?case
    using 1 by (cases "i < length ks")
      (simp_all add: removeUsers_from.simps [of ks i s] pieces_step [of ks i])
qed

lemma pieces_concat:
  "\<forall>k \<in> set ks. length k = 32 \<Longrightarrow> pieces (concat ks) 0 = set ks"
proof (induction ks)
  case Nil
  then show ?case by (simp add: pieces_def)
next
  case (Cons k ks)
  have "pieces (k @ concat ks) 32 = pieces (concat ks) 0"
    using Cons.prems by (auto simp: pieces_def)
  with Cons show ?case by (simp add: pieces_step [of "k @ concat ks" 0])
qed

section \<open>Every handler keeps the invariant\<close>

lemma tracker_ok_grow:
  assumes "tracker_ok cfg s" and "torMap s' = torMap s" and "length (accounts s) \<le> length (accounts s')"
    and "\<And>k a. usrMap s' k = Some a \<Longrightarrow> a < length (accounts s')"
  shows "tracker_ok cfg s'"
  using assms by (auto simp: tracker_ok_def intro: torrent_ok_heap)

lemma tracker_ok_frame:
  assumes "tracker_ok cfg s" and "torMap s' = torMap s" and "accounts s' = accounts s"
    and "\<And>k a. usrMap s' k = Some a \<Longrightarrow> \<exists>k'. usrMap s k' = Some a"
  shows "tracker_ok cfg s'"
  using assms(1-3) by (intro tracker_ok_grow [OF assms(1,2)]) (auto simp: tracker_ok_def dest!: assms(4))

lemma tracker_ok_usrMap: "tracker_ok cfg s \<Longrightarrow> usrMap s k = Some a \<Longrightarrow> a < length (accounts s)"
  by (auto simp: tracker_ok_def)

lemma on_user_ok [keeps]: "on_user k f s = Inr s' \<Longrightarrow> tracker_ok cfg s \<Longrightarrow> tracker_ok cfg s'"
  by (rule tracker_ok_grow [of cfg s]) (auto simp: on_user_Inr dest: tracker_ok_usrMap)

lemma remove_passkey_frame [simp]:
  "torMap (remove_passkey k s) = torMap s" "accounts (remove_passkey k s) = accounts s"
  by (simp_all add: remove_passkey_def split: option.splits)

lemma changePasskey_Inr:
  "changePasskey req s = Inr s' \<Longrightarrow> \<exists>old new. req ''old_passkey'' = Some old \<and> req ''new_passkey'' = Some new \<and>
    s' = (case usrMap s old of None \<Rightarrow> s | Some u \<Rightarrow> s\<lparr>usrMap := fm_emplace new u (fm_erase old (usrMap s))\<rparr>)"
  by (auto simp: changePasskey_def getUser_def)

lemma changePasskey_ok [keeps]:
  assumes "changePasskey req s = Inr s'" and "tracker_ok cfg s" shows "tracker_ok cfg s'"
  using changePasskey_Inr [OF assms(1)] assms(2)
  by (auto split: option.splits if_splits intro!: tracker_ok_frame [OF assms(2)])

lemma addUser_Inr:
  "addUser req s = Inr s' \<Longrightarrow> \<exists>k n. req ''passkey'' = Some k \<and> number req ''id'' = Inr n \<and>
    s' = s\<lparr>accounts := accounts s @ [new_user (ucast n) True],
           usrMap := fm_emplace k (length (accounts s)) (usrMap s)\<rparr>"
  by (auto simp: addUser_def alloc_def)

lemma addUser_ok [keeps]:
  assumes "addUser req s = Inr s'" and "tracker_ok cfg s" shows "tracker_ok cfg s'"
  using addUser_Inr [OF assms(1)]
  by (intro tracker_ok_grow [OF assms(2)])
    (auto split: if_splits dest!: tracker_ok_usrMap [OF assms(2)])

lemma updateUser_Inr:
  "updateUser req s = Inr s' \<Longrightarrow>
    s' = s \<or> (\<exists>h. length h = length (accounts s) \<and> s' = s\<lparr>accounts := h\<rparr>)"
  by (auto simp: updateUser_def split: option.splits dest!: modify_length)

lemma updateUser_ok [keeps]:
  assumes "updateUser req s = Inr s'" and ok: "tracker_ok cfg s" shows "tracker_ok cfg s'"
  using updateUser_Inr [OF assms(1)]
proof
  assume "\<exists>h. length h = length (accounts s) \<and> s' = s\<lparr>accounts := h\<rparr>"
  with tracker_ok_usrMap [OF ok] show ?thesis by (intro tracker_ok_grow [OF ok]) auto
qed (simp add: ok)

lemma set_free_at_keys: "map fst (set_free_at h f tm) = map fst tm"
  by (auto simp: set_free_at_def split: option.splits intro!: om_update_keys dest!: map_of_SomeD)
    (metis fst_conv image_eqI)

lemma set_free_at_ok:
  assumes "tracker_ok cfg (s\<lparr>torMap := tm\<rparr>)" shows "tracker_ok cfg (s\<lparr>torMap := set_free_at h f tm\<rparr>)"
proof (cases "map_of tm h")
  case (Some t)
  then have t: "(h, t) \<in> set tm" by (rule map_of_SomeD)
  show ?thesis
  proof (rule tracker_okI)
    show "om_wf (torMap (s\<lparr>torMap := set_free_at h f tm\<rparr>))"
      using assms set_free_at_keys [of h f tm] by (simp add: tracker_ok_def om_wf_def)
    show "torrent_ok (is_private cfg) (accounts (s\<lparr>torMap := set_free_at h f tm\<rparr>)) t'"
      if "(h', t') \<in> set (torMap (s\<lparr>torMap := set_free_at h f tm\<rparr>))" for h' t'
      using that t Some assms by (auto simp: set_free_at_def tracker_ok_def dest!: set_update_subset)
  qed (use assms in \<open>auto simp: tracker_ok_def\<close>)
next
  case None
  with assms show ?thesis by (simp add: set_free_at_def)
qed

lemma addTorrent_ok [keeps]:
  assumes "addTorrent req h s = Inr s'" and ok: "tracker_ok cfg s" shows "tracker_ok cfg s'"
proof -
  have new: "tracker_ok cfg (s\<lparr>torMap := om_emplace h (new_torrent i 0 0 0) (torMap s)\<rparr>)" for i
    using ok set_om_emplace [of h "new_torrent i 0 0 0" "torMap s"]
    by (intro tracker_okI) (auto simp: tracker_ok_def om_wf_emplace)
  with assms(1) show ?thesis
    by (auto simp: addTorrent_def Let_def intro!: set_free_at_ok new split: if_splits)
qed

lemma updateTorrent_ok [keeps]:
  "updateTorrent req h s = Inr s' \<Longrightarrow> tracker_ok cfg s \<Longrightarrow> tracker_ok cfg s'"
  by (auto simp: updateTorrent_def intro!: set_free_at_ok split: if_splits)

lemma deleteTorrent_ok [keeps]: "deleteTorrent logging h s = Inr s' \<Longrightarrow> tracker_ok cfg s \<Longrightarrow> tracker_ok cfg s'"
  using set_delete_subset [of h "torMap s"]
  by (fastforce simp: deleteTorrent_def tracker_ok_def om_wf_delete split: if_splits)

text \<open>Deleting a torrent: it is gone, or the log message is undefined behaviour.\<close>

lemma deleteTorrent_cases:
  "deleteTorrent True h s = (if map_of (torMap s) h = None then Inr s else Inl (UB Dangling_iterator))"
  "deleteTorrent False h s = Inr s' \<Longrightarrow> map_of (torMap s') h' = (if h' = h then None else map_of (torMap s) h')"
  by (auto simp: deleteTorrent_def AList.delete_conv' split: if_splits)

text \<open>The handlers that touch neither torrents nor accounts.\<close>

lemma simple_handlers_ok [keeps]:
  "addBan req s = Inr s' \<Longrightarrow> tracker_ok cfg s \<Longrightarrow> tracker_ok cfg s'"
  "removeBan req s = Inr s' \<Longrightarrow> tracker_ok cfg s \<Longrightarrow> tracker_ok cfg s'"
  "addWhitelist req s = Inr s' \<Longrightarrow> tracker_ok cfg s \<Longrightarrow> tracker_ok cfg s'"
  "editWhitelist req s = Inr s' \<Longrightarrow> tracker_ok cfg s \<Longrightarrow> tracker_ok cfg s'"
  "removeWhitelist req s = Inr s' \<Longrightarrow> tracker_ok cfg s \<Longrightarrow> tracker_ok cfg s'"
  "setLeechStatus req s = Inr s' \<Longrightarrow> tracker_ok cfg s \<Longrightarrow> tracker_ok cfg s'"
  by (auto simp: tracker_ok_def addBan_def removeBan_def addWhitelist_def editWhitelist_def
      removeWhitelist_def setLeechStatus_def)

lemma remove_passkey_ok: "tracker_ok cfg s \<Longrightarrow> tracker_ok cfg (remove_passkey k s)"
  by (rule tracker_ok_frame [of cfg s]) (auto split: if_splits)

lemma removers_ok [keeps]:
  "removeUser req s = Inr s' \<Longrightarrow> tracker_ok cfg s \<Longrightarrow> tracker_ok cfg s'"
  "removeUsers req s = Inr s' \<Longrightarrow> tracker_ok cfg s \<Longrightarrow> tracker_ok cfg s'"
proof -
  have "tracker_ok cfg s \<Longrightarrow> tracker_ok cfg (removeUsers_from ks i s)" for ks i s
  proof (induction ks i s rule: removeUsers_from.induct)
    case (1 ks i s)
    then show ?case
      by (cases "i < length ks") (simp_all add: removeUsers_from.simps [of ks i s] remove_passkey_ok)
  qed
  then show "removeUsers req s = Inr s' \<Longrightarrow> tracker_ok cfg s \<Longrightarrow> tracker_ok cfg s'"
    by (auto simp: removeUsers_def)
  show "removeUser req s = Inr s' \<Longrightarrow> tracker_ok cfg s \<Longrightarrow> tracker_ok cfg s'"
    by (auto simp: removeUser_def remove_passkey_ok)
qed

lemma on_user_handlers_ok [keeps]:
  "addToken now req h s = Inr s' \<Longrightarrow> tracker_ok cfg s \<Longrightarrow> tracker_ok cfg s'"
  "removeToken req h s = Inr s' \<Longrightarrow> tracker_ok cfg s \<Longrightarrow> tracker_ok cfg s'"
  "addIPRestriction req s = Inr s' \<Longrightarrow> tracker_ok cfg s \<Longrightarrow> tracker_ok cfg s'"
  "removeIPRestriction req s = Inr s' \<Longrightarrow> tracker_ok cfg s \<Longrightarrow> tracker_ok cfg s'"
  by (auto simp: addToken_def removeToken_def addIPRestriction_def removeIPRestriction_def intro: on_user_ok)

lemma if_InrE:
  assumes "(if c then x else y) = Inr z"
  obtains "c" "x = Inr z" | "\<not> c" "y = Inr z"
  using assms by (auto split: if_splits)

lemmas update_keepers = changePasskey_ok addTorrent_ok deleteTorrent_ok updateTorrent_ok addUser_ok
  updateUser_ok removers_ok simple_handlers_ok on_user_handlers_ok

lemma update_state_keeps [keeps]:
  assumes r: "update_state e type req hashes s = Inr s'" and ok: "tracker_ok cfg s"
  shows "tracker_ok cfg s'"
  using r unfolding update_state_def
  by (elim if_InrE bindE_InrE) (use ok in \<open>auto intro: update_keepers\<close>)

lemma update_keeps [keeps]:
  "update e req hashes s = Inr (reply, s') \<Longrightarrow> tracker_ok cfg s \<Longrightarrow> tracker_ok cfg s'"
  by (auto simp: update_def intro: update_state_keeps)

section \<open>Properties\<close>

lemma stoul_u32 [simp]: "stoul (to_string a) = Inr (ucast a)" for a :: u32
proof -
  have "unat a < 2 ^ 64" using unsigned_less [of a, where ?'a = nat] by simp
  then show ?thesis by (simp add: to_string_def)
qed

lemma ucast_up_down_u32 [simp]: "ucast (ucast a :: u64) = a" for a :: u32
  by transfer (simp add: take_bit_take_bit)

text \<open>C30: Banning the range \<open>a\<close> to \<open>b\<close> ends, bans exactly the addresses \<open>a\<close>, \<open>a+1\<close>, ..., \<open>b\<close>
  (modulo \<open>2^32\<close>, so a reversed range bans everything outside it) and keeps all other bans.\<close>

theorem addBan_bans_range:
  assumes "req ''fromip'' = Some (to_string (a :: u32))" and "req ''toip'' = Some (to_string (b :: u32))"
  shows "\<exists>s'. addBan req s = Inr s' \<and>
    (\<forall>w. (long2ip w \<in> bannedIPs s') = (long2ip w \<in> bannedIPs s \<or> w - a \<le> b - a))"
  using assms by (auto simp: addBan_def number_def ip_range_insert in_ip_interval)

lemma addBan_bans_range_witness:
  "\<exists>s'. addBan [''fromip'' \<mapsto> to_string (5 :: u32), ''toip'' \<mapsto> to_string (9 :: u32)] empty_tracker = Inr s' \<and>
    long2ip 7 \<in> bannedIPs s' \<and> long2ip 10 \<notin> bannedIPs s'"
  using addBan_bans_range [of "[''fromip'' \<mapsto> to_string (5 :: u32), ''toip'' \<mapsto> to_string (9 :: u32)]" 5 9 empty_tracker]
  by (auto simp: empty_tracker_def)

text \<open>Lifting the ban of a range ends, lifts it for exactly its addresses and keeps the
  bans of all others.\<close>

theorem removeBan_lifts_range:
  assumes "req ''fromip'' = Some (to_string (a :: u32))" and "req ''toip'' = Some (to_string (b :: u32))"
  shows "\<exists>s'. removeBan req s = Inr s' \<and>
    (\<forall>w. (long2ip w \<in> bannedIPs s') = (long2ip w \<in> bannedIPs s \<and> \<not> w - a \<le> b - a))"
  using assms by (auto simp: removeBan_def number_def ip_range_remove in_ip_interval)

lemma removeBan_lifts_range_witness:
  "\<exists>s'. removeBan [''fromip'' \<mapsto> to_string (5 :: u32), ''toip'' \<mapsto> to_string (9 :: u32)]
      (empty_tracker\<lparr>bannedIPs := {long2ip 7, long2ip 10}\<rparr>) = Inr s' \<and>
    long2ip 7 \<notin> bannedIPs s' \<and> long2ip 10 \<in> bannedIPs s'"
  using removeBan_lifts_range [of "[''fromip'' \<mapsto> to_string (5 :: u32), ''toip'' \<mapsto> to_string (9 :: u32)]" 5 9
      "empty_tracker\<lparr>bannedIPs := {long2ip 7, long2ip 10}\<rparr>"]
  by auto

text \<open>C31: Removing users by a string of concatenated 32-character passkeys removes exactly
  those passkeys and changes nothing else.\<close>

theorem removeUsers_removes_exactly:
  assumes "req ''passkeys'' = Some (concat ks)" and "\<forall>k \<in> set ks. length k = 32"
  shows "removeUsers req s = Inr (s\<lparr>usrMap := (\<lambda>k. if k \<in> set ks then None else usrMap s k)\<rparr>)"
proof -
  have "usrMap (removeUsers_from (concat ks) 0 s) = (\<lambda>k. if k \<in> set ks then None else usrMap s k)"
    using pieces_concat [OF assms(2)] by (intro ext) (simp add: removeUsers_from_lookup)
  then have "removeUsers_from (concat ks) 0 s = s\<lparr>usrMap := (\<lambda>k. if k \<in> set ks then None else usrMap s k)\<rparr>"
    using removeUsers_from_frame [of "concat ks" 0 s] by simp
  with assms(1) show ?thesis by (simp add: removeUsers_def)
qed

lemma removeUsers_removes_exactly_witness:
  "removeUsers [''passkeys'' \<mapsto> concat [replicate 32 (CHR ''a''), replicate 32 (CHR ''b'')]]
      (sample_tracker\<lparr>usrMap := [replicate 32 (CHR ''a'') \<mapsto> 0, ''key'' \<mapsto> 0]\<rparr>) =
    Inr (sample_tracker\<lparr>usrMap := [''key'' \<mapsto> 0]\<rparr>)"
proof -
  let ?a = "replicate 32 (CHR ''a'')" and ?b = "replicate 32 (CHR ''b'')"
  have "(\<lambda>k. if k \<in> set [?a, ?b] then None else usrMap (sample_tracker\<lparr>usrMap := [?a \<mapsto> 0, ''key'' \<mapsto> 0]\<rparr>) k)
      = [''key'' \<mapsto> 0]"
    by (auto simp: numeral_eq_Suc)
  then show ?thesis
    using removeUsers_removes_exactly [of "[''passkeys'' \<mapsto> concat [?a, ?b]]" "[?a, ?b]"
        "sample_tracker\<lparr>usrMap := [?a \<mapsto> 0, ''key'' \<mapsto> 0]\<rparr>"]
    by simp
qed

text \<open>C32: Changing a passkey moves the account to the new passkey when that is free; when it is
  in use by another account, the old passkey is dropped and its account becomes
  unreachable.\<close>

theorem changePasskey_moves_account:
  assumes "req ''old_passkey'' = Some old" and "req ''new_passkey'' = Some new" and "usrMap s old = Some u"
  shows "changePasskey req s = Inr (s\<lparr>usrMap :=
    (if new = old \<or> usrMap s new = None then (usrMap s)(old := None, new \<mapsto> u) else (usrMap s)(old := None))\<rparr>)"
  using assms by (auto simp: changePasskey_def getUser_def fm_emplace_def fm_erase_def split: option.splits)

lemma changePasskey_moves_account_witness:
  "changePasskey [''old_passkey'' \<mapsto> ''key'', ''new_passkey'' \<mapsto> ''new''] sample_tracker =
    Inr (sample_tracker\<lparr>usrMap := [''new'' \<mapsto> 0]\<rparr>)"
  using changePasskey_moves_account [of "[''old_passkey'' \<mapsto> ''key'', ''new_passkey'' \<mapsto> ''new'']" "''key''" "''new''" sample_tracker 0]
  by (simp add: sample_tracker_def fun_upd_twist)

text \<open>Adding a freeleech token gives the account of the passkey a token for the torrent's
  number and changes no other account; removing it again leaves the account without one.\<close>

theorem token_added_and_removed:
  assumes "map_of (torMap s) h = Some t" and "req ''passkey'' = Some k" and "usrMap s k = Some a"
    and "a < length (accounts s)"
  shows "\<exists>s1 s2. addToken now req h s = Inr s1 \<and> removeToken req h s1 = Inr s2 \<and>
    hasToken (t_id t) (accounts s1 ! a) \<and> \<not> hasToken (t_id t) (accounts s2 ! a) \<and>
    (\<forall>b. b \<noteq> a \<longrightarrow> accounts s1 ! b = accounts s ! b \<and> accounts s2 ! b = accounts s ! b)"
proof -
  let ?s1 = "s\<lparr>accounts := (accounts s)[a := user_addToken (t_id t) now (accounts s ! a)]\<rparr>"
  have s1: "addToken now req h s = Inr ?s1"
    using assms by (simp add: addToken_def torrent_at_def on_user_Inr)
  have "removeToken req h ?s1 = Inr (?s1\<lparr>accounts := (accounts ?s1)[a := user_removeToken (t_id t) (accounts ?s1 ! a)]\<rparr>)"
    using assms by (simp add: removeToken_def torrent_at_def on_user_Inr)
  with s1 assms(4) show ?thesis by (simp add: hasToken_def)
qed

lemma token_added_and_removed_witness:
  "\<exists>s1 s2. addToken 5 [''passkey'' \<mapsto> ''key''] ''h'' sample_tracker = Inr s1 \<and>
    removeToken [''passkey'' \<mapsto> ''key''] ''h'' s1 = Inr s2 \<and> hasToken 7 (accounts s1 ! 0) \<and> \<not> hasToken 7 (accounts s2 ! 0)"
  using token_added_and_removed [of sample_tracker "''h''" sample_torrent "[''passkey'' \<mapsto> ''key'']" "''key''" 0 5]
  by (auto simp: sample_tracker_def sample_torrent_def new_torrent_def)

end
