(* ===== verification/RequestHandler.thy ===== *)
theory RequestHandler
  imports Admin
begin

text \<open>
  The entry points of src/handler/requestHandler.cpp: \<open>handle\<close>, which authorises a
  request and dispatches it, and the two timers \<open>clearTorrentPeers\<close> and
  \<open>flushSqlRecords\<close>. At the end the tracker as the event loop sees it: a machine whose
  events are requests, timers and finished database workers.
\<close>

section \<open>Requests\<close>

text \<open>The three conjuncts are evaluated left to right; \<open>at\<close> throws.\<close>

definition is_update :: "config \<Rightarrow> request \<Rightarrow> bool res" where
  "is_update cfg req =
    (if is_private cfg then
       bindE (at_key req ''action'') (\<lambda>action.
         if action = ''update''
         then bindE (at_key req ''reqpasskey'') (\<lambda>k. Inr (k = get cfg ''updatekey''))
         else Inr False)
     else Inr False)"

text \<open>A peer id that is not 20 bytes long is percent-decoded before it is checked again.\<close>

definition announce_request ::
  "env \<Rightarrow> config \<Rightarrow> request \<Rightarrow> string list \<Rightarrow> bool \<Rightarrow> tracker \<Rightarrow> (string \<times> tracker) res" where
  "announce_request e cfg req infoHashes ipv6 s =
    bindE (at_key req ''peer_id'') (\<lambda>pid.
    bindE (if length pid \<noteq> 20 then hex_to_bin pid else Inr pid) (\<lambda>pid'.
      if length pid' \<noteq> 20 then Inr (error ''invalid peer id'', s)
      else
        bindE (front infoHashes) (\<lambda>h.
          announce e cfg (fm_emplace ''event'' ''updating'' (req(''peer_id'' \<mapsto> pid'))) h ipv6 s)))"

definition dispatch ::
  "env \<Rightarrow> config \<Rightarrow> request \<Rightarrow> string list \<Rightarrow> bool \<Rightarrow> tracker \<Rightarrow> (string \<times> tracker) res" where
  "dispatch e cfg req infoHashes ipv6 s =
    bindE (at_key req ''action'') (\<lambda>action.
      if action = ''announce'' then announce_request e cfg req infoHashes ipv6 s
      else if action = ''scrape'' then Inr (scrape infoHashes s, s)
      else Inr (error ''invalid action'', s))"

text \<open>What \<open>handle\<close> does with a request that is parsed and checked.\<close>

definition handle_checked ::
  "env \<Rightarrow> config \<Rightarrow> request \<Rightarrow> string list \<Rightarrow> string \<Rightarrow> bool \<Rightarrow> tracker \<Rightarrow> (string \<times> tracker) res" where
  "handle_checked e cfg req infoHashes ip ipv6 s =
    bindE (is_update cfg req) (\<lambda>upd.
      if upd then update e req infoHashes s
      else
        bindE (at_key req ''reqpasskey'') (\<lambda>passkey.
          let u = getUser passkey s in
          if is_private cfg \<and> u = None then Inr (error ''passkey not found'', s)
          else if infoHashes = [] then Inr (error ''missing info_hash'', s)
          else
            let req' = fm_emplace ''ip'' ip req in
            bindE (at_key req' ''ip'') (\<lambda>addr.
              if addr \<in> bannedIPs s then Inr (error ''banned ip'', s)
              else
                bindE (if is_private cfg then bindE (deref (accounts s) u) (\<lambda>acc. Inr (isRestricted addr acc))
                       else Inr False) (\<lambda>restricted.
                  if restricted then Inr (error ''ip not associated with account'', s)
                  else dispatch e cfg req' infoHashes ipv6 s))))"

definition handle ::
  "env \<Rightarrow> config \<Rightarrow> (string \<rightharpoonup> string list) \<Rightarrow> string \<Rightarrow> string \<Rightarrow> bool \<Rightarrow> tracker \<Rightarrow> (string \<times> tracker) res" where
  "handle e cfg required str ip ipv6 s =
    bindE (parse str) (\<lambda>(req, infoHashes).
    bindE (check required req) (\<lambda>msg.
      if msg \<noteq> ''success'' then Inr (error msg, s)
      else handle_checked e cfg req infoHashes ip ipv6 s))"

section \<open>Timers\<close>

definition timeout_slot ::
  "config \<Rightarrow> heap \<Rightarrow> int \<Rightarrow> slot \<Rightarrow> torrent \<times> db \<times> u32 \<Rightarrow> (torrent \<times> db \<times> u32) res" where
  "timeout_slot cfg h now sl x =
    (let (t, d, changed) = x in
     bindE (peers_timedOut cfg h now (get_slot sl t) d) (\<lambda>(ps, d', c).
       Inr (set_slot sl ps t, d', changed + c)))"

definition timeout_torrent :: "config \<Rightarrow> heap \<Rightarrow> int \<Rightarrow> torrent \<times> db \<Rightarrow> (torrent \<times> db \<times> u32) res" where
  "timeout_torrent cfg h now x =
    bindE (timeout_slot cfg h now Seeders (fst x, snd x, 0)) (\<lambda>y.
    bindE (timeout_slot cfg h now Seeders6 y) (\<lambda>y.
    bindE (timeout_slot cfg h now Leechers y) (timeout_slot cfg h now Leechers6)))"

definition torrent_empty :: "torrent \<Rightarrow> bool" where
  "torrent_empty t \<longleftrightarrow> peers_size (t_seeders t) = 0 \<and> peers_size (t_seeders6 t) = 0 \<and>
     peers_size (t_leechers t) = 0 \<and> peers_size (t_leechers6 t) = 0"

fun clear_loop ::
  "config \<Rightarrow> heap \<Rightarrow> int \<Rightarrow> (string \<times> torrent) list \<Rightarrow> db \<times> stats \<Rightarrow> ((string \<times> torrent) list \<times> db \<times> stats) res"
  where
  "clear_loop cfg h now [] ds = Inr ([], ds)"
| "clear_loop cfg h now ((k, t) # tm) ds =
     bindE (timeout_torrent cfg h now (t, fst ds)) (\<lambda>(t', d, changed).
       if is_public cfg then
         if torrent_empty t' then clear_loop cfg h now tm (d, decTorrents (snd ds))
         else bindE (clear_loop cfg h now tm (d, snd ds)) (\<lambda>(tm', ds'). Inr ((k, t') # tm', ds'))
       else
         bindE (clear_loop cfg h now tm (if changed > 0 then recordTorrent t' d else d, snd ds))
           (\<lambda>(tm', ds'). Inr ((k, t') # tm', ds')))"

definition clearTorrentPeers :: "config \<Rightarrow> int \<Rightarrow> tracker \<Rightarrow> tracker res" where
  "clearTorrentPeers cfg now s =
    bindE (clear_loop cfg (accounts s) now (torMap s) (dbase s, statistics s)) (\<lambda>(tm, d, st).
      Inr (s\<lparr>torMap := tm, dbase := d, statistics := st\<rparr>))"

definition flushSqlRecords :: "config \<Rightarrow> tracker \<Rightarrow> tracker" where
  "flushSqlRecords cfg s = (if \<not> is_public cfg then s\<lparr>dbase := flush cfg (dbase s)\<rparr> else s)"

section \<open>The handler keeps the invariant\<close>

lemma announce_request_keeps [keeps]:
  assumes "announce_request e cfg req hashes ipv6 s = Inr (reply, s')"
    and "tracker_ok cfg s" and "pton_ok (e_pton e)"
  shows "tracker_ok cfg s'"
  using assms by (auto simp: announce_request_def split: if_splits intro: announce_keeps)

lemma dispatch_keeps [keeps]:
  assumes "dispatch e cfg req hashes ipv6 s = Inr (reply, s')" and "tracker_ok cfg s" and "pton_ok (e_pton e)"
  shows "tracker_ok cfg s'"
  using assms by (auto simp: dispatch_def split: if_splits intro: announce_request_keeps)

text \<open>The ways a checked request can end.\<close>

lemma handle_checked_cases:
  assumes "handle_checked e cfg req hashes ip ipv6 s = Inr (reply, s')"
  obtains (updated) "is_update cfg req = Inr True" "update e req hashes s = Inr (reply, s')"
  | (refused) "s' = s" "is_update cfg req = Inr False"
      "reply \<in> error ` {''passkey not found'', ''missing info_hash'', ''banned ip'', ''ip not associated with account''}"
  | (dispatched) addr passkey where "is_update cfg req = Inr False"
      "fm_emplace ''ip'' ip req ''ip'' = Some addr" "req ''reqpasskey'' = Some passkey"
      "hashes \<noteq> []" "addr \<notin> bannedIPs s"
      "is_private cfg \<Longrightarrow> \<exists>u. deref (accounts s) (getUser passkey s) = Inr u \<and> \<not> isRestricted addr u"
      "dispatch e cfg (fm_emplace ''ip'' ip req) hashes ipv6 s = Inr (reply, s')"
  using assms
  by (auto simp: handle_checked_def Let_def split: if_splits simp del: fm_emplace_apply)

lemma handle_checked_keeps [keeps]:
  assumes "handle_checked e cfg req hashes ip ipv6 s = Inr (reply, s')"
    and "tracker_ok cfg s" and "pton_ok (e_pton e)"
  shows "tracker_ok cfg s'"
  using assms(1)
  by (cases rule: handle_checked_cases) (use assms(2,3) update_keeps dispatch_keeps in blast)+

lemma handle_keeps [keeps]:
  assumes "handle e cfg required str ip ipv6 s = Inr (reply, s')"
    and "tracker_ok cfg s" and "pton_ok (e_pton e)"
  shows "tracker_ok cfg s'"
  using assms by (auto simp: handle_def split: if_splits intro: handle_checked_keeps)

section \<open>The timers keep it\<close>

lemma timeout_slot_ok:
  assumes r: "timeout_slot cfg h now sl (t, d, c) = Inr (t', d', c')" and ok: "torrent_ok (is_private cfg) h t"
  shows "\<exists>ps. t' = set_slot sl ps t \<and> torrent_ok (is_private cfg) h t' \<and>
    pMap ps = filter (\<lambda>(k, p). \<not> peer_timedOut cfg now p) (pMap (get_slot sl t))"
proof -
  from r obtain ps c1 where p: "peers_timedOut cfg h now (get_slot sl t) d = Inr (ps, d', c1)" and t': "t' = set_slot sl ps t"
    by (auto simp: timeout_slot_def)
  show ?thesis
    using torrent_ok_set_slot [OF ok peers_timedOut_ok [OF p torrent_ok_slot [OF ok]]] peers_timedOut_pMap [OF p] t' by auto
qed

text \<open>
  What the timer reads of the peers it records: unless the tracker is public, every listed
  peer must have a corrupt count.
\<close>

definition corrupts_known :: "config \<Rightarrow> torrent \<Rightarrow> bool" where
  "corrupts_known cfg t \<longleftrightarrow>
    (\<forall>sl. \<forall>(k, p) \<in> set (pMap (get_slot sl t)). get cfg ''type'' \<noteq> ''public'' \<longrightarrow> p_corrupt p \<noteq> None)"

lemma corrupts_known_set_slot:
  "corrupts_known cfg t \<Longrightarrow> \<forall>(k, p) \<in> set (pMap ps). get cfg ''type'' \<noteq> ''public'' \<longrightarrow> p_corrupt p \<noteq> None \<Longrightarrow>
    corrupts_known cfg (set_slot sl ps t)"
  unfolding corrupts_known_def by (rule slots.all_store_keeps)

lemma timeout_slot_total:
  assumes ok: "torrent_ok (is_private cfg) h t" and known: "corrupts_known cfg t"
  shows "\<exists>t' d' c'. timeout_slot cfg h now sl (t, d, c) = Inr (t', d', c') \<and> torrent_ok (is_private cfg) h t' \<and> corrupts_known cfg t'"
proof -
  have "peers_ok (get cfg ''type'' = ''private'') (slot_ipv6 sl) h (get_slot sl t)"
    using torrent_ok_slot [OF ok] by (simp add: is_private_def)
  from peers_timedOut_total [OF this] known obtain ps d' c' where
    r: "peers_timedOut cfg h now (get_slot sl t) d = Inr (ps, d', c')"
    unfolding corrupts_known_def by (metis prod_cases3)
  have s: "timeout_slot cfg h now sl (t, d, c) = Inr (set_slot sl ps t, d', c + c')" by (simp add: timeout_slot_def r)
  moreover have "corrupts_known cfg (set_slot sl ps t)"
    using known peers_timedOut_pMap [OF r] by (intro corrupts_known_set_slot) (auto simp: corrupts_known_def)
  ultimately show ?thesis using timeout_slot_ok [OF s ok] by blast
qed

text \<open>What remains of a torrent: the entries of each table that have not timed out.\<close>

definition live :: "config \<Rightarrow> int \<Rightarrow> torrent \<Rightarrow> torrent \<Rightarrow> bool" where
  "live cfg now t t' \<longleftrightarrow>
    (\<forall>sl. pMap (get_slot sl t') = filter (\<lambda>(k, p). \<not> peer_timedOut cfg now p) (pMap (get_slot sl t)))
    \<and> t_id t' = t_id t \<and> t_snatches t' = t_snatches t \<and> t_free t' = t_free t \<and> t_balance t' = t_balance t"

lemma timeout_torrent_ok:
  assumes r: "timeout_torrent cfg h now (t, d) = Inr (t', d', c')" and ok: "torrent_ok (is_private cfg) h t"
  shows "torrent_ok (is_private cfg) h t' \<and> live cfg now t t'"
proof -
  from r obtain t1 d1 c1 t2 d2 c2 t3 d3 c3 where
    r: "timeout_slot cfg h now Seeders (t, d, 0) = Inr (t1, d1, c1)"
      "timeout_slot cfg h now Seeders6 (t1, d1, c1) = Inr (t2, d2, c2)"
      "timeout_slot cfg h now Leechers (t2, d2, c2) = Inr (t3, d3, c3)"
      "timeout_slot cfg h now Leechers6 (t3, d3, c3) = Inr (t', d', c')"
    by (auto simp: timeout_torrent_def)
  obtain a where a: "t1 = set_slot Seeders a t" "torrent_ok (is_private cfg) h t1"
    "pMap a = filter (\<lambda>(k, p). \<not> peer_timedOut cfg now p) (pMap (get_slot Seeders t))"
    using timeout_slot_ok [OF r(1) ok] by blast
  obtain b where b: "t2 = set_slot Seeders6 b t1" "torrent_ok (is_private cfg) h t2"
    "pMap b = filter (\<lambda>(k, p). \<not> peer_timedOut cfg now p) (pMap (get_slot Seeders6 t1))"
    using timeout_slot_ok [OF r(2) a(2)] by blast
  obtain l where l: "t3 = set_slot Leechers l t2" "torrent_ok (is_private cfg) h t3"
    "pMap l = filter (\<lambda>(k, p). \<not> peer_timedOut cfg now p) (pMap (get_slot Leechers t2))"
    using timeout_slot_ok [OF r(3) b(2)] by blast
  obtain m where m: "t' = set_slot Leechers6 m t3" "torrent_ok (is_private cfg) h t'"
    "pMap m = filter (\<lambda>(k, p). \<not> peer_timedOut cfg now p) (pMap (get_slot Leechers6 t3))"
    using timeout_slot_ok [OF r(4) l(2)] by blast
  have "pMap (get_slot sl t') = filter (\<lambda>(k, p). \<not> peer_timedOut cfg now p) (pMap (get_slot sl t))" for sl
    using a(1,3) b(1,3) l(1,3) m(1,3) by (cases sl) (simp_all del: get_slot.simps set_slot.simps)
  with m(2) show ?thesis
    by (simp add: live_def a(1) b(1) l(1) m(1) del: get_slot.simps set_slot.simps)
qed

lemma timeout_torrent_total:
  assumes ok: "torrent_ok (is_private cfg) h t" and known: "corrupts_known cfg t"
  shows "\<exists>t' d' c'. timeout_torrent cfg h now (t, d) = Inr (t', d', c')"
proof -
  obtain t1 d1 c1 where 1: "timeout_slot cfg h now Seeders (t, d, 0) = Inr (t1, d1, c1)" "torrent_ok (is_private cfg) h t1"
    "corrupts_known cfg t1" using timeout_slot_total [OF ok known] by blast
  obtain t2 d2 c2 where 2: "timeout_slot cfg h now Seeders6 (t1, d1, c1) = Inr (t2, d2, c2)" "torrent_ok (is_private cfg) h t2"
    "corrupts_known cfg t2" using timeout_slot_total [OF 1(2,3)] by blast
  obtain t3 d3 c3 where 3: "timeout_slot cfg h now Leechers (t2, d2, c2) = Inr (t3, d3, c3)" "torrent_ok (is_private cfg) h t3"
    "corrupts_known cfg t3" using timeout_slot_total [OF 2(2,3)] by blast
  obtain t4 d4 c4 where 4: "timeout_slot cfg h now Leechers6 (t3, d3, c3) = Inr (t4, d4, c4)"
    using timeout_slot_total [OF 3(2,3)] by blast
  show ?thesis using 1(1) 2(1) 3(1) 4 by (simp add: timeout_torrent_def)
qed

text \<open>
  The whole pass: every table keeps exactly its live entries, a public tracker then drops
  the torrents without peers and counts them.
\<close>

definition live_torrents :: "config \<Rightarrow> int \<Rightarrow> (string \<times> torrent) list \<Rightarrow> (string \<times> torrent) list \<Rightarrow> bool" where
  "live_torrents cfg now tm ts \<longleftrightarrow> list_all2 (\<lambda>(k, t) (k', t'). k' = k \<and> live cfg now t t') tm ts"

lemma st_torrents_dec: "st_torrents (decTorrents st) = st_torrents st - 1"
  by (simp add: decTorrents_def)

lemma clear_loop_ok:
  assumes "clear_loop cfg h now tm (d, st) = Inr (tm', d', st')"
    and "\<forall>(k, t) \<in> set tm. torrent_ok (is_private cfg) h t"
  shows "\<exists>ts. live_torrents cfg now tm ts \<and> (\<forall>(k, t) \<in> set ts. torrent_ok (is_private cfg) h t) \<and>
    tm' = (if is_public cfg then filter (\<lambda>(k, t). \<not> torrent_empty t) ts else ts) \<and>
    st_torrents st' = st_torrents st -
      of_nat (if is_public cfg then length (filter (\<lambda>(k, t). torrent_empty t) ts) else 0)"
  using assms
proof (induction tm arbitrary: d st tm')
  case Nil
  then show ?case by (simp add: live_torrents_def)
next
  case (Cons x tm)
  obtain k t where x: "x = (k, t)" by (cases x)
  from Cons.prems(1) x obtain t' d1 c where r: "timeout_torrent cfg h now (t, d) = Inr (t', d1, c)" by auto
  define d2 where "d2 = (if \<not> is_public cfg \<and> c > 0 then recordTorrent t' d1 else d1)"
  define st2 where "st2 = (if is_public cfg \<and> torrent_empty t' then decTorrents st else st)"
  have t': "torrent_ok (is_private cfg) h t'" "live cfg now t t'"
    using timeout_torrent_ok [OF r] Cons.prems(2) x by auto
  obtain tm2 where rest: "clear_loop cfg h now tm (d2, st2) = Inr (tm2, d', st')"
    and tm': "tm' = (if is_public cfg \<and> torrent_empty t' then tm2 else (k, t') # tm2)"
    using Cons.prems(1) r x by (auto simp: d2_def st2_def split: if_splits)
  obtain ts where IH: "live_torrents cfg now tm ts" "\<forall>(k, t) \<in> set ts. torrent_ok (is_private cfg) h t"
    "tm2 = (if is_public cfg then filter (\<lambda>(k, t). \<not> torrent_empty t) ts else ts)"
    "st_torrents st' = st_torrents st2 -
      of_nat (if is_public cfg then length (filter (\<lambda>(k, t). torrent_empty t) ts) else 0)"
    using Cons.IH [OF rest] Cons.prems(2) by auto
  have "live_torrents cfg now (x # tm) ((k, t') # ts)"
    using IH(1) t'(2) x by (simp add: live_torrents_def)
  moreover have "\<forall>(k, t) \<in> set ((k, t') # ts). torrent_ok (is_private cfg) h t"
    using IH(2) t'(1) by simp
  moreover have "tm' = (if is_public cfg then filter (\<lambda>(k, t). \<not> torrent_empty t) ((k, t') # ts) else (k, t') # ts)"
    using IH(3) tm' by simp
  moreover have "st_torrents st' = st_torrents st -
      of_nat (if is_public cfg then length (filter (\<lambda>(k, t). torrent_empty t) ((k, t') # ts)) else 0)"
    using IH(4) by (simp add: st2_def st_torrents_dec)
  ultimately show ?case by blast
qed

lemma clear_loop_total:
  assumes "\<forall>(k, t) \<in> set tm. torrent_ok (is_private cfg) h t \<and> corrupts_known cfg t"
  shows "\<exists>r. clear_loop cfg h now tm ds = Inr r"
  using assms
proof (induction tm arbitrary: ds)
  case (Cons x tm)
  obtain k t where x: "x = (k, t)" by (cases x)
  obtain t' d1 c where r: "timeout_torrent cfg h now (t, fst ds) = Inr (t', d1, c)"
    using timeout_torrent_total [of cfg h t now "fst ds"] Cons.prems x by auto
  have "\<exists>r. clear_loop cfg h now tm ds' = Inr r" for ds' using Cons by simp
  then show ?case
    using r x by (auto simp: bindE_def split: sum.splits) (metis Inl_Inr_False)+
qed simp

lemma live_torrents_keys: "live_torrents cfg now tm ts \<Longrightarrow> map fst ts = map fst tm"
  unfolding live_torrents_def by (induction tm ts rule: list_all2_induct) auto

lemma clearTorrentPeers_ok:
  assumes r: "clearTorrentPeers cfg now s = Inr s'" and ok: "tracker_ok cfg s"
  shows "\<exists>ts d' st'. live_torrents cfg now (torMap s) ts \<and>
    s' = s\<lparr>torMap := (if is_public cfg then filter (\<lambda>(k, t). \<not> torrent_empty t) ts else ts),
      dbase := d', statistics := st'\<rparr> \<and>
    st_torrents st' = st_torrents (statistics s) -
      of_nat (if is_public cfg then length (filter (\<lambda>(k, t). torrent_empty t) ts) else 0) \<and>
    (\<forall>(k, t) \<in> set ts. torrent_ok (is_private cfg) (accounts s) t)"
proof -
  from r obtain tm d' st' where c: "clear_loop cfg (accounts s) now (torMap s) (dbase s, statistics s) = Inr (tm, d', st')"
    and s': "s' = s\<lparr>torMap := tm, dbase := d', statistics := st'\<rparr>"
    by (auto simp: clearTorrentPeers_def)
  have "\<forall>(k, t) \<in> set (torMap s). torrent_ok (is_private cfg) (accounts s) t"
    using ok by (simp add: tracker_ok_def)
  from clear_loop_ok [OF c this] s' show ?thesis by blast
qed

lemma clearTorrentPeers_total:
  assumes "tracker_ok cfg s" and "\<forall>(h, t) \<in> set (torMap s). corrupts_known cfg t"
  shows "\<exists>s'. clearTorrentPeers cfg now s = Inr s'"
proof -
  have "\<forall>(k, t) \<in> set (torMap s). torrent_ok (is_private cfg) (accounts s) t \<and> corrupts_known cfg t"
    using assms by (auto simp: tracker_ok_def)
  from clear_loop_total [OF this] obtain tm d' st' where
    "clear_loop cfg (accounts s) now (torMap s) (dbase s, statistics s) = Inr (tm, d', st')" by (metis prod_cases3)
  then show ?thesis by (simp add: clearTorrentPeers_def)
qed

lemma clearTorrentPeers_keeps [keeps]:
  assumes "clearTorrentPeers cfg now s = Inr s'" and ok: "tracker_ok cfg s"
  shows "tracker_ok cfg s'"
proof -
  obtain ts where ts: "live_torrents cfg now (torMap s) ts" "\<forall>(k, t) \<in> set ts. torrent_ok (is_private cfg) (accounts s) t"
    and s': "torMap s' = (if is_public cfg then filter (\<lambda>(k, t). \<not> torrent_empty t) ts else ts)"
      "accounts s' = accounts s" "usrMap s' = usrMap s"
    using clearTorrentPeers_ok [OF assms(1) ok] by auto
  have wf: "om_wf ts" using live_torrents_keys [OF ts(1)] ok by (simp add: tracker_ok_def om_wf_def)
  show ?thesis
  proof (rule tracker_okI)
    show "om_wf (torMap s')" using wf by (simp add: s' om_wf_filter)
    show "torrent_ok (is_private cfg) (accounts s') t" if "(k, t) \<in> set (torMap s')" for k t
      using that ts(2) by (auto simp: s' split: if_splits)
    show "a < length (accounts s')" if "usrMap s' k = Some a" for k a
      using that tracker_ok_usrMap [OF ok] by (simp add: s')
  qed
qed

lemma flushSqlRecords_keeps [keeps]: "tracker_ok cfg s \<Longrightarrow> tracker_ok cfg (flushSqlRecords cfg s)"
  by (simp add: flushSqlRecords_def tracker_ok_def)

section \<open>The tracker behind the event loop\<close>

text \<open>
  \<open>Worker fails t\<close> is the run of one detached \<open>doFlush\<close> thread. Runs of the threads are
  atomic here; in the program they share the record lists with the event loop without a
  common lock.
\<close>

datatype tracker_event =
    Request env string string bool
  | Clear_peers int
  | Flush_records
  | Worker "nat \<Rightarrow> string \<Rightarrow> bool" table

fun tracker_step :: "config \<Rightarrow> (string \<rightharpoonup> string list) \<Rightarrow> tracker_event \<Rightarrow> tracker \<Rightarrow> tracker res" where
  "tracker_step cfg required (Request e str ip ipv6) s =
     bindE (handle e cfg required str ip ipv6 s) (\<lambda>(reply, s'). Inr s')"
| "tracker_step cfg required (Clear_peers now) s = clearTorrentPeers cfg now s"
| "tracker_step cfg required Flush_records s = Inr (flushSqlRecords cfg s)"
| "tracker_step cfg required (Worker fails t) s = Inr (s\<lparr>dbase := fst (doFlush fails t (dbase s))\<rparr>)"

fun event_ok :: "tracker_event \<Rightarrow> bool" where
  "event_ok (Request e str ip ipv6) = pton_ok (e_pton e)"
| "event_ok _ = True"

interpretation tracker_machine: invariant_machine "tracker_step cfg required" event_ok "tracker_ok cfg"
  for cfg :: config and required :: "string \<rightharpoonup> string list"
proof
  fix s s' :: tracker and ev
  assume ok: "tracker_ok cfg s" and "event_ok ev" and "tracker_step cfg required ev s = Inr s'"
  then show "tracker_ok cfg s'"
  proof (cases ev)
    case (Worker fails t)
    then show ?thesis
      using ok \<open>tracker_step cfg required ev s = Inr s'\<close> by (auto simp: tracker_ok_def)
  qed (auto intro: handle_keeps clearTorrentPeers_keeps flushSqlRecords_keeps)
qed

section \<open>Properties\<close>

lemma announce_admin_frame:
  assumes "announce e cfg req h ipv6 s = Inr (reply, s')"
  shows "usrMap s' = usrMap s \<and> bannedIPs s' = bannedIPs s \<and> clientWhitelist s' = clientWhitelist s \<and>
    leechStatus s' = leechStatus s"
  using assms by (cases rule: announce_cases) (auto simp: finish_work_def)

lemma dispatch_admin_frame:
  assumes "dispatch e cfg req hashes ipv6 s = Inr (reply, s')"
  shows "usrMap s' = usrMap s \<and> bannedIPs s' = bannedIPs s \<and> clientWhitelist s' = clientWhitelist s \<and>
    leechStatus s' = leechStatus s"
  using assms
  by (auto simp: dispatch_def announce_request_def split: if_splits dest!: announce_admin_frame)

text \<open>The peer id of a request as an announce uses it.\<close>

definition peer_id_param :: "request \<Rightarrow> string res" where
  "peer_id_param req = bindE (at_key req ''peer_id'') (\<lambda>p. if length p \<noteq> 20 then hex_to_bin p else Inr p)"

lemma announce_changes:
  assumes a: "announce e cfg req h ipv6 s = Inr (reply, s')" and "s' \<noteq> s" and pid: "req ''peer_id'' = Some pid"
  shows "(clientWhitelist s = [] \<or> whitelisted (clientWhitelist s) pid) \<and> (is_public cfg \<or> map_of (torMap s) h \<noteq> None) \<and>
    (is_private cfg \<longrightarrow> (\<exists>k u. req ''reqpasskey'' = Some k \<and> deref (accounts s) (usrMap s k) = Inr u \<and> u_authorized u))"
proof -
  have "s' = s" if "clientWhitelist s \<noteq> []" "\<not> whitelisted (clientWhitelist s) pid"
    using a that pid by (auto simp: announce_def)
  moreover from a have "(is_public cfg \<or> map_of (torMap s) h \<noteq> None) \<and>
    (is_private cfg \<longrightarrow> (\<exists>k u. req ''reqpasskey'' = Some k \<and> deref (accounts s) (usrMap s k) = Inr u \<and> u_authorized u))"
  proof (cases rule: announce_cases)
    case refused
    with assms(2) show ?thesis by simp
  next
    case unknown
    with assms(2) show ?thesis by (auto simp: create_if_public_def is_public_def is_private_def split: if_splits)
  next
    case unauthorized
    with assms(2) show ?thesis by (auto simp: create_if_public_def is_public_def is_private_def split: if_splits)
  next
    case (served event t w)
    then show ?thesis by (auto simp: create_if_public_def split: if_splits)
  qed
  ultimately show ?thesis using assms(2) by blast
qed

lemma dispatch_announces:
  assumes d: "dispatch e cfg (fm_emplace ''ip'' ip req) hashes ipv6 s = Inr (reply, s')" and "s' \<noteq> s"
  obtains pid where "req ''action'' = Some ''announce''" "hashes \<noteq> []" "peer_id_param req = Inr pid"
    "clientWhitelist s = [] \<or> whitelisted (clientWhitelist s) pid" "is_public cfg \<or> map_of (torMap s) (hd hashes) \<noteq> None"
    "is_private cfg \<longrightarrow> (\<exists>k u. req ''reqpasskey'' = Some k \<and> deref (accounts s) (usrMap s k) = Inr u \<and> u_authorized u)"
proof -
  from d assms(2) have act: "req ''action'' = Some ''announce''"
    by (auto simp: dispatch_def split: if_splits)
  with d have "announce_request e cfg (fm_emplace ''ip'' ip req) hashes ipv6 s = Inr (reply, s')"
    by (auto simp: dispatch_def)
  with assms(2) obtain pid where pid: "peer_id_param req = Inr pid" and h: "hashes \<noteq> []" and
    a: "announce e cfg (fm_emplace ''event'' ''updating'' ((fm_emplace ''ip'' ip req)(''peer_id'' \<mapsto> pid))) (hd hashes) ipv6 s = Inr (reply, s')"
    by (auto simp: announce_request_def peer_id_param_def front_def split: list.splits if_splits)
  from announce_changes [OF a assms(2), of pid] that [OF act h pid] show thesis by auto
qed

text \<open>Two requests for the examples.\<close>

definition zero_key :: string where
  "zero_key = ''00000000000000000000000000000000''"

definition sample_update :: string where
  "sample_update = render_request zero_key ''update''
     [(''type'', ''set_leech_status''), (''leech_status'', ''freeleech'')] [(''Host'', ''x'')]"

definition sample_scrape :: string where
  "sample_scrape = render_request zero_key ''scrape'' [(''info_hash'', ''aaaaaaaaaaaaaaaaaaaa'')] [(''Host'', ''x'')]"

lemma parse_sample_update:
  "parse sample_update = Inr (fm_emplace ''leech_status'' ''freeleech'' (fm_emplace ''type'' ''set_leech_status''
     (fm_emplace ''action'' ''update'' (fm_emplace ''reqpasskey'' zero_key Map.empty))), [])"
proof -
  have "length zero_key = 32" "path_ok zero_key" "60 \<le> length sample_update"
    by code_simp+
  then show ?thesis
    unfolding sample_update_def by (subst parse_render_request) (simp_all add: path_ok_def param_ok_def header_ok_def)
qed

lemma parse_sample_scrape:
  "parse sample_scrape = Inr (fm_emplace ''action'' ''scrape'' (fm_emplace ''reqpasskey'' zero_key Map.empty),
     [''aaaaaaaaaaaaaaaaaaaa''])"
proof -
  have "length zero_key = 32" "path_ok zero_key" "60 \<le> length sample_scrape"
    "decode_hash ''aaaaaaaaaaaaaaaaaaaa'' = ''aaaaaaaaaaaaaaaaaaaa''"
    by code_simp+
  then show ?thesis
    unfolding sample_scrape_def by (subst parse_render_request) (simp_all add: path_ok_def param_ok_def header_ok_def)
qed

lemma default_updatekey: "get default_config ''updatekey'' = zero_key"
  by code_simp

lemma handle_sample_update:
  "handle sample_env default_config (required_params default_config) sample_update ''10.0.0.1'' False empty_tracker =
    Inr (response ''success'' False, empty_tracker\<lparr>leechStatus := FREELEECH\<rparr>)"
proof -
  have u: "required_params default_config ''update'' = Some [''type'', ''reqpasskey'']"
    "required_params default_config ''set_leech_status'' = Some []"
    by (simp_all add: required_params_def)
  show ?thesis
    by (simp add: handle_def parse_sample_update check_def u handle_checked_def is_update_def default_updatekey
        update_def update_state_def setLeechStatus_def empty_tracker_def)
qed

text \<open>C7: Only an authorised request changes the tracker. When \<open>handle\<close> changes the state, the
  request parsed and passed the check, and it is either an update of a private tracker under
  the update key, or an announce with an info hash from an address that is not banned; the
  client of such an announce is in the whitelist, unless that is empty, and the torrent is
  known, unless the tracker is public; and on a private tracker the announce carries the
  passkey of an account that is authorised and not restricted to other addresses.\<close>

theorem only_authorised_requests_change_state:
  assumes "handle e cfg required str ip ipv6 s = Inr (reply, s')" and "s' \<noteq> s"
  shows "\<exists>req hashes. parse str = Inr (req, hashes) \<and> check required req = Inr ''success'' \<and>
    ((is_private cfg \<and> req ''action'' = Some ''update'' \<and> req ''reqpasskey'' = Some (get cfg ''updatekey'')) \<or>
     (\<exists>addr k pid. req ''action'' = Some ''announce'' \<and> hashes \<noteq> [] \<and>
       fm_emplace ''ip'' ip req ''ip'' = Some addr \<and> addr \<notin> bannedIPs s \<and> req ''reqpasskey'' = Some k \<and>
       peer_id_param req = Inr pid \<and> (clientWhitelist s = [] \<or> whitelisted (clientWhitelist s) pid) \<and>
       (is_public cfg \<or> map_of (torMap s) (hd hashes) \<noteq> None) \<and>
       (is_private cfg \<longrightarrow>
         (\<exists>u. deref (accounts s) (usrMap s k) = Inr u \<and> u_authorized u \<and> \<not> isRestricted addr u))))"
proof -
  obtain req hashes where p: "parse str = Inr (req, hashes)" "check required req = Inr ''success''"
    and h: "handle_checked e cfg req hashes ip ipv6 s = Inr (reply, s')"
    using assms by (auto simp: handle_def split: if_splits)
  show ?thesis
    using h
  proof (cases rule: handle_checked_cases)
    case updated
    with p show ?thesis by (auto simp: is_update_def split: if_splits)
  next
    case refused
    with assms(2) show ?thesis by simp
  next
    case (dispatched addr k)
    from dispatched(7) assms(2) obtain pid where
      "req ''action'' = Some ''announce''" "hashes \<noteq> []" "peer_id_param req = Inr pid"
      "clientWhitelist s = [] \<or> whitelisted (clientWhitelist s) pid" "is_public cfg \<or> map_of (torMap s) (hd hashes) \<noteq> None"
      and auth: "is_private cfg \<longrightarrow> (\<exists>k u. req ''reqpasskey'' = Some k \<and> deref (accounts s) (usrMap s k) = Inr u \<and> u_authorized u)"
      by (rule dispatch_announces)
    moreover have "is_private cfg \<longrightarrow> (\<exists>u. deref (accounts s) (usrMap s k) = Inr u \<and> u_authorized u \<and> \<not> isRestricted addr u)"
      using auth dispatched(3,6) unfolding getUser_def by auto
    ultimately show ?thesis using p dispatched(2,3,5) by blast
  qed
qed

lemma only_authorised_requests_change_state_witness:
  "\<exists>req hashes. parse sample_update = Inr (req, hashes) \<and> check (required_params default_config) req = Inr ''success''"
proof -
  have "empty_tracker\<lparr>leechStatus := FREELEECH\<rparr> \<noteq> empty_tracker" by (simp add: empty_tracker_def)
  from only_authorised_requests_change_state [OF handle_sample_update this] show ?thesis by blast
qed

text \<open>C8: The administrative tables, passkeys, bans, whitelist and leech status, change only
  through an update of a private tracker under the update key.\<close>

theorem admin_tables_need_update_key:
  assumes "handle e cfg required str ip ipv6 s = Inr (reply, s')"
    and "usrMap s' \<noteq> usrMap s \<or> bannedIPs s' \<noteq> bannedIPs s \<or> clientWhitelist s' \<noteq> clientWhitelist s \<or>
      leechStatus s' \<noteq> leechStatus s"
  shows "\<exists>req hashes. parse str = Inr (req, hashes) \<and> is_private cfg \<and> req ''action'' = Some ''update'' \<and>
    req ''reqpasskey'' = Some (get cfg ''updatekey'')"
proof -
  obtain req hashes where p: "parse str = Inr (req, hashes)" "check required req = Inr ''success''"
    and h: "handle_checked e cfg req hashes ip ipv6 s = Inr (reply, s')"
    using assms by (auto simp: handle_def split: if_splits)
  show ?thesis
    using h
  proof (cases rule: handle_checked_cases)
    case updated
    with p show ?thesis by (auto simp: is_update_def split: if_splits)
  next
    case refused
    with assms(2) show ?thesis by simp
  next
    case (dispatched addr k)
    then show ?thesis
      using assms(2) dispatch_admin_frame [OF dispatched(7)] by auto
  qed
qed

lemma admin_tables_need_update_key_witness:
  "\<exists>req hashes. parse sample_update = Inr (req, hashes) \<and> req ''reqpasskey'' = Some zero_key"
proof -
  have "leechStatus (empty_tracker\<lparr>leechStatus := FREELEECH\<rparr>) \<noteq> leechStatus empty_tracker"
    by (simp add: empty_tracker_def)
  with admin_tables_need_update_key [OF handle_sample_update] default_updatekey show ?thesis by metis
qed

text \<open>C29: A private tracker answers a request with an unknown passkey, or from a banned
  address, or from an address the account is not restricted to, with the corresponding error
  and no change of state.\<close>

theorem unwelcome_requests_refused:
  assumes "parse str = Inr (req, hashes)" and "check required req = Inr ''success''"
    and "is_update cfg req = Inr False" and "is_private cfg" and "req ''reqpasskey'' = Some k"
    and "hashes \<noteq> []" and "fm_emplace ''ip'' ip req ''ip'' = Some addr"
    and "\<forall>a. usrMap s k = Some a \<longrightarrow> a < length (accounts s)"
  shows "handle e cfg required str ip ipv6 s =
    (case usrMap s k of
       None \<Rightarrow> Inr (error ''passkey not found'', s)
     | Some a \<Rightarrow>
         if addr \<in> bannedIPs s then Inr (error ''banned ip'', s)
         else if isRestricted addr (accounts s ! a) then Inr (error ''ip not associated with account'', s)
         else dispatch e cfg (fm_emplace ''ip'' ip req) hashes ipv6 s)"
  using assms
  by (auto simp: handle_def handle_checked_def getUser_def Let_def split: option.splits simp del: fm_emplace_apply)

lemma unwelcome_requests_refused_witness:
  "handle sample_env default_config (required_params default_config) sample_scrape ''10.0.0.1'' False sample_tracker =
    Inr (error ''passkey not found'', sample_tracker)"
proof -
  have u: "required_params default_config ''scrape'' = Some []" by (simp add: required_params_def)
  have "usrMap sample_tracker zero_key = None" by (simp add: sample_tracker_def zero_key_def)
  then show ?thesis
    using unwelcome_requests_refused [OF parse_sample_scrape, of "required_params default_config" default_config zero_key
        "''10.0.0.1''" "''10.0.0.1''" sample_tracker sample_env False]
    by (simp add: check_def u is_update_def)
qed

text \<open>C12: What clearing timed-out peers does: whenever it returns on a well-formed tracker, every
  table of every torrent keeps exactly its entries that have not timed out; a public tracker
  then drops the torrents left without peers and lowers the torrent count by their number. It
  does return if every peer has a corrupt count, which the peer rows it queues read (a public
  tracker reads none).\<close>

theorem clearTorrentPeers_keeps_live:
  assumes "tracker_ok cfg s"
  shows "(\<forall>s'. clearTorrentPeers cfg now s = Inr s' \<longrightarrow> (\<exists>ts d' st'. live_torrents cfg now (torMap s) ts \<and>
      s' = s\<lparr>torMap := (if is_public cfg then filter (\<lambda>(k, t). \<not> torrent_empty t) ts else ts),
        dbase := d', statistics := st'\<rparr> \<and>
      st_torrents st' = st_torrents (statistics s) -
        of_nat (if is_public cfg then length (filter (\<lambda>(k, t). torrent_empty t) ts) else 0))) \<and>
    ((\<forall>(h, t) \<in> set (torMap s). corrupts_known cfg t) \<longrightarrow> (\<exists>s'. clearTorrentPeers cfg now s = Inr s'))"
  using clearTorrentPeers_ok [OF _ assms] clearTorrentPeers_total [OF assms] by blast

lemma clearTorrentPeers_keeps_live_witness:
  "\<exists>s' ts. clearTorrentPeers default_config 5000 sample_tracker = Inr s' \<and>
    live_torrents default_config 5000 (torMap sample_tracker) ts \<and> torMap s' = ts"
proof -
  have known: "\<forall>(h, t) \<in> set (torMap sample_tracker). corrupts_known default_config t"
    by (simp add: sample_tracker_def corrupts_known_def sample_torrent_slots sample_peers_def sample_peer_def new_peers_def)
  note c12 = clearTorrentPeers_keeps_live [OF sample_tracker_ok, of default_config 5000]
  obtain s' where s': "clearTorrentPeers default_config 5000 sample_tracker = Inr s'" using c12 known by blast
  moreover obtain ts where "live_torrents default_config 5000 (torMap sample_tracker) ts" "torMap s' = ts"
    using c12 s' by (auto dest!: spec [of _ s'])
  ultimately show ?thesis by blast
qed

end
