(* ===== verification/DbLoad.thy ===== *)
theory DbLoad
  imports RequestHandler
begin

text \<open>
  The read side of src/database/mysql.cpp, connecting and disconnecting, and
  \<open>RequestHandler::init\<close> and \<open>stop\<close>. The MySQL server is a parameter: whether
  \<open>mysql_real_connect\<close> succeeds, and the answer to each statement, \<open>None\<close> when
  \<open>mysql_real_query\<close> reports an error, otherwise the rows in the order \<open>mysql_fetch_row\<close>
  delivers them (none for a statement without a result). A cell is \<open>None\<close> for an SQL \<open>NULL\<close>;
  building a \<open>std::string\<close> from it is undefined behaviour.
\<close>

type_synonym row = "string option list"

record mysql =
  my_connects :: bool
  my_query :: "string \<Rightarrow> row list option"

definition cell :: "row \<Rightarrow> nat \<Rightarrow> string res" where
  "cell r i = (if i < length r
     then (case r ! i of Some v \<Rightarrow> Inr v | None \<Rightarrow> Inl (UB Null_pointer))
     else Inl (UB Index_past_end))"

definition cell_number :: "row \<Rightarrow> nat \<Rightarrow> u64 res" where
  "cell_number r i = bindE (cell r i) stoul"

fun foldE :: "('a \<Rightarrow> 's \<Rightarrow> 's res) \<Rightarrow> 'a list \<Rightarrow> 's \<Rightarrow> 's res" where
  "foldE f [] s = Inr s"
| "foldE f (x # xs) s = bindE (f x s) (foldE f xs)"

section \<open>Connecting\<close>

text \<open>The statements \<open>MySQL::reset\<close> sends; the second only when the first succeeded.\<close>

definition reset :: "config \<Rightarrow> mysql \<Rightarrow> string list" where
  "reset cfg my =
    (let q1 = ''TRUNCATE '' @ get cfg ''DB_Peers'';
         q2 = ''UPDATE '' @ get cfg ''DB_Torrents'' @ '' SET '' @ get cfg ''DB_Torrents_Seeders'' @ '' = 0, '' @
              get cfg ''DB_Torrents_Leechers'' @ '' = 0''
     in if my_query my q1 = None then [q1] else [q1, q2])"

text \<open>\<open>connect\<close> and \<open>disconnect\<close>: the statements they send.\<close>

definition connect :: "config \<Rightarrow> mysql \<Rightarrow> string list" where
  "connect cfg my = (if my_connects my then reset cfg my else [])"

definition disconnect :: "config \<Rightarrow> mysql \<Rightarrow> string list" where
  "disconnect cfg my = reset cfg my"

section \<open>Rows\<close>

definition load_user :: "row \<Rightarrow> tracker \<Rightarrow> tracker res" where
  "load_user r s =
    bindE (cell r 1) (\<lambda>passkey.
    bindE (cell_number r 0) (\<lambda>i.
    bindE (cell r 2) (\<lambda>authorized.
      let (u, h) = alloc (new_user (ucast i) (authorized = ''1'')) (accounts s)
      in Inr (s\<lparr>accounts := h, usrMap := fm_emplace passkey u (usrMap s)\<rparr>))))"

definition load_token :: "row \<Rightarrow> tracker \<Rightarrow> tracker res" where
  "load_token r s =
    catchE
      (bindE (cell r 0) (\<lambda>passkey.
       bindE (at_key (usrMap s) passkey) (\<lambda>_.
       bindE (cell_number r 1) (\<lambda>tid.
       bindE (cell_number r 2) (\<lambda>time.
         on_user passkey (user_addToken (ucast tid) (sint time)) s)))))
      (Inr s)"

definition load_ip_restriction :: "row \<Rightarrow> tracker \<Rightarrow> tracker res" where
  "load_ip_restriction r s =
    bindE (cell_number r 0) (\<lambda>userid.
    bindE (cell r 1) (\<lambda>passkey.
    bindE (cell_number r 2) (\<lambda>ip.
      catchE (on_user passkey (user_addIPRestriction (long2ip (ucast ip))) s) (Inr s))))"

definition load_torrent :: "row \<Rightarrow> tracker \<Rightarrow> tracker res" where
  "load_torrent r s =
    bindE (cell r 2) (\<lambda>f.
    bindE (cell r 1) (\<lambda>infoHash.
    bindE (cell_number r 0) (\<lambda>i.
    bindE (cell_number r 3) (\<lambda>snatches.
    bindE (cell_number r 4) (\<lambda>balance.
      let free = (if f = ''1'' then 100 else if f = ''2'' then 50 else 0)
      in Inr (s\<lparr>torMap := om_emplace infoHash (new_torrent (ucast i) free (ucast snatches) (sint balance)) (torMap s)\<rparr>))))))"

definition load_ban :: "row \<Rightarrow> tracker \<Rightarrow> tracker res" where
  "load_ban r s =
    bindE (cell_number r 0) (\<lambda>a.
    bindE (cell_number r 1) (\<lambda>b.
      Inr (s\<lparr>bannedIPs := ip_range insert (ucast a) (ucast b) (bannedIPs s)\<rparr>)))"

definition load_client :: "row \<Rightarrow> tracker \<Rightarrow> tracker res" where
  "load_client r s = bindE (cell r 0) (\<lambda>v. Inr (s\<lparr>clientWhitelist := clientWhitelist s @ [v]\<rparr>))"

definition load_leech :: "row \<Rightarrow> tracker \<Rightarrow> tracker res" where
  "load_leech r s =
    bindE (cell r 0) (\<lambda>v. Inr (s\<lparr>leechStatus := (if v = ''freeleech'' then FREELEECH else NORMAL)\<rparr>))"

section \<open>Queries\<close>

definition users_query :: "config \<Rightarrow> string" where
  "users_query cfg =
    ''SELECT '' @ get cfg ''DB_Users_ID'' @ '', '' @ get cfg ''DB_Users_Passkey'' @ '', '' @
    get cfg ''DB_Users_Authorized'' @ '' '' @ ''FROM users_main''"

definition tokens_query :: "config \<Rightarrow> string" where
  "tokens_query cfg =
    ''SELECT '' @ ''users.'' @ get cfg ''DB_Users_Passkey'' @ '', '' @
    ''tokens.'' @ get cfg ''DB_Tokens_TorrentID'' @ '', '' @
    ''UNIX_TIMESTAMP(tokens.'' @ get cfg ''DB_Tokens_ExpirationTime'' @ '') '' @
    ''FROM '' @ get cfg ''DB_Tokens'' @ '' AS tokens '' @
    ''LEFT JOIN '' @ get cfg ''DB_Users'' @ '' AS users '' @
    ''ON tokens.'' @ get cfg ''DB_Tokens_UserID'' @ '' = '' @ get cfg ''DB_Users_ID'' @ '' '' @
    ''WHERE tokens.'' @ get cfg ''DB_Tokens_Expired'' @ '' = '' @ sql_quote ''0''"

definition restrictions_query :: "config \<Rightarrow> string" where
  "restrictions_query cfg =
    ''SELECT '' @ ''users.'' @ get cfg ''DB_Users_ID'' @ '', '' @
    ''users.'' @ get cfg ''DB_Users_Passkey'' @ '', '' @
    ''iprestrictions.'' @ get cfg ''DB_IPRestrictions_IP'' @ '' '' @
    ''FROM '' @ get cfg ''DB_IPRestrictions'' @ '' AS iprestrictions '' @
    ''INNER JOIN '' @ get cfg ''DB_Users'' @ '' AS users '' @
    ''ON users.'' @ get cfg ''DB_Users_ID'' @ '' = iprestrictions.'' @ get cfg ''DB_IPRestrictions_UserID''"

definition torrents_query :: "config \<Rightarrow> string" where
  "torrents_query cfg =
    ''SELECT '' @ get cfg ''DB_Torrents_ID'' @ '', '' @ get cfg ''DB_Torrents_InfoHash'' @ '', '' @
    get cfg ''DB_Torrents_Freeleech'' @ '', '' @ get cfg ''DB_Torrents_Snatches'' @ '', '' @
    get cfg ''DB_Torrents_Balance'' @ '' '' @ ''FROM '' @ get cfg ''DB_Torrents''"

definition bans_query :: "config \<Rightarrow> string" where
  "bans_query cfg =
    ''SELECT '' @ get cfg ''DB_IPBans_FromIP'' @ '', '' @ get cfg ''DB_IPBans_ToIP'' @ '' '' @
    ''FROM '' @ get cfg ''DB_IPBans''"

definition whitelist_query :: "config \<Rightarrow> string" where
  "whitelist_query cfg =
    ''SELECT '' @ get cfg ''DB_Whitelist_PeerID'' @ '' '' @ ''FROM '' @ get cfg ''DB_Whitelist''"

definition leech_query :: "config \<Rightarrow> string" where
  "leech_query cfg =
    ''SELECT Value FROM '' @ get cfg ''DB_SiteOptions'' @ '' '' @
    ''WHERE Key = '' @ sql_quote (get cfg ''DB_SiteOptions_LeechStatus'')"

section \<open>Tables\<close>

text \<open>A failed query leaves the function at once.\<close>

definition loadUsers :: "config \<Rightarrow> mysql \<Rightarrow> tracker \<Rightarrow> tracker res" where
  "loadUsers cfg my s =
    (case my_query my (users_query cfg) of None \<Rightarrow> Inr s | Some rs1 \<Rightarrow> bindE (foldE load_user rs1 s) (\<lambda>s.
     case my_query my (tokens_query cfg) of None \<Rightarrow> Inr s | Some rs2 \<Rightarrow> bindE (foldE load_token rs2 s) (\<lambda>s.
     case my_query my (restrictions_query cfg) of None \<Rightarrow> Inr s | Some rs3 \<Rightarrow> foldE load_ip_restriction rs3 s)))"

definition loadTorrents :: "config \<Rightarrow> mysql \<Rightarrow> tracker \<Rightarrow> tracker res" where
  "loadTorrents cfg my s =
    (case my_query my (torrents_query cfg) of None \<Rightarrow> Inr s
     | Some rs \<Rightarrow> bindE (foldE load_torrent rs s) (\<lambda>s.
         Inr (s\<lparr>statistics := setTorrents (of_nat (length rs)) (statistics s)\<rparr>)))"

definition loadBannedIPs :: "config \<Rightarrow> mysql \<Rightarrow> tracker \<Rightarrow> tracker res" where
  "loadBannedIPs cfg my s =
    (case my_query my (bans_query cfg) of None \<Rightarrow> Inr s | Some rs \<Rightarrow> foldE load_ban rs s)"

definition loadClientWhitelist :: "config \<Rightarrow> mysql \<Rightarrow> tracker \<Rightarrow> tracker res" where
  "loadClientWhitelist cfg my s =
    (case my_query my (whitelist_query cfg) of None \<Rightarrow> Inr s | Some rs \<Rightarrow> foldE load_client rs s)"

definition loadLeechStatus :: "config \<Rightarrow> mysql \<Rightarrow> tracker \<Rightarrow> tracker res" where
  "loadLeechStatus cfg my s =
    (case my_query my (leech_query cfg) of None \<Rightarrow> Inr s | Some rs \<Rightarrow> foldE load_leech rs s)"

text \<open>\<open>RequestHandler::init\<close>, with the statements that connecting sends.\<close>

definition init :: "config \<Rightarrow> mysql \<Rightarrow> tracker \<Rightarrow> (string list \<times> tracker) res" where
  "init cfg my s =
    (if is_public cfg then Inr ([], s)
     else
       bindE (loadTorrents cfg my s) (\<lambda>s.
       bindE (loadBannedIPs cfg my s) (\<lambda>s.
       bindE (loadClientWhitelist cfg my s) (\<lambda>s.
       bindE (if is_private cfg then bindE (loadUsers cfg my s) (loadLeechStatus cfg my) else Inr s) (\<lambda>s.
         Inr (connect cfg my, s))))))"

text \<open>
  \<open>RequestHandler::stop\<close>: the last flush only starts threads; the statements of
  \<open>disconnect\<close> are sent at once.
\<close>

definition stop :: "config \<Rightarrow> mysql \<Rightarrow> tracker \<Rightarrow> string list \<times> tracker" where
  "stop cfg my s =
    (if \<not> is_public cfg then (disconnect cfg my, s\<lparr>dbase := flush cfg (dbase s)\<rparr>) else ([], s))"

section \<open>Loading establishes the invariant\<close>

lemma foldE_keeps:
  assumes "\<And>x s s'. P s \<Longrightarrow> f x s = Inr s' \<Longrightarrow> P s'"
  shows "P s \<Longrightarrow> foldE f xs s = Inr s' \<Longrightarrow> P s'"
  by (induction xs arbitrary: s) (auto dest: assms)

lemma foldE_append: "foldE f (xs @ ys) s = bindE (foldE f xs s) (foldE f ys)"
  by (induction xs arbitrary: s) (auto simp: bindE_assoc intro: bindE_cong)

lemma load_user_ok [keeps]:
  assumes "load_user r s = Inr s'" and ok: "tracker_ok cfg s" shows "tracker_ok cfg s'"
proof -
  obtain k u where "s' = s\<lparr>accounts := accounts s @ [u], usrMap := fm_emplace k (length (accounts s)) (usrMap s)\<rparr>"
    using assms(1) by (auto simp: load_user_def alloc_def)
  then show ?thesis
    by (intro tracker_ok_grow [OF ok]) (auto split: if_splits dest!: tracker_ok_usrMap [OF ok])
qed

lemma load_token_ok [keeps]:
  "load_token r s = Inr s' \<Longrightarrow> tracker_ok cfg s \<Longrightarrow> tracker_ok cfg s'"
  by (auto simp: load_token_def catchE_split_Inr intro: on_user_ok)

lemma load_ip_restriction_ok [keeps]:
  "load_ip_restriction r s = Inr s' \<Longrightarrow> tracker_ok cfg s \<Longrightarrow> tracker_ok cfg s'"
  by (auto simp: load_ip_restriction_def catchE_split_Inr intro: on_user_ok)

lemma load_torrent_ok [keeps]:
  assumes "load_torrent r s = Inr s'" and ok: "tracker_ok cfg s" shows "tracker_ok cfg s'"
proof -
  obtain h i f n b where s': "s' = s\<lparr>torMap := om_emplace h (new_torrent i f n b) (torMap s)\<rparr>"
    using assms(1) by (auto simp: load_torrent_def Let_def)
  show ?thesis
    using ok set_om_emplace [of h "new_torrent i f n b" "torMap s"]
    by (intro tracker_okI) (auto simp: s' tracker_ok_def om_wf_emplace)
qed

lemma load_others_ok [keeps]:
  "load_ban r s = Inr s' \<Longrightarrow> tracker_ok cfg s \<Longrightarrow> tracker_ok cfg s'"
  "load_client r s = Inr s' \<Longrightarrow> tracker_ok cfg s \<Longrightarrow> tracker_ok cfg s'"
  "load_leech r s = Inr s' \<Longrightarrow> tracker_ok cfg s \<Longrightarrow> tracker_ok cfg s'"
  by (auto simp: load_ban_def load_client_def load_leech_def tracker_ok_def)

lemma foldE_tracker_ok:
  assumes "\<And>r s s'. f r s = Inr s' \<Longrightarrow> tracker_ok cfg s \<Longrightarrow> tracker_ok cfg s'"
  shows "foldE f xs s = Inr s' \<Longrightarrow> tracker_ok cfg s \<Longrightarrow> tracker_ok cfg s'"
  using foldE_keeps [of "tracker_ok cfg" f] assms by blast

lemma foldE_loads_ok:
  "foldE load_user rs s = Inr s' \<Longrightarrow> tracker_ok cfg s \<Longrightarrow> tracker_ok cfg s'"
  "foldE load_token rs s = Inr s' \<Longrightarrow> tracker_ok cfg s \<Longrightarrow> tracker_ok cfg s'"
  "foldE load_ip_restriction rs s = Inr s' \<Longrightarrow> tracker_ok cfg s \<Longrightarrow> tracker_ok cfg s'"
  "foldE load_torrent rs s = Inr s' \<Longrightarrow> tracker_ok cfg s \<Longrightarrow> tracker_ok cfg s'"
  "foldE load_ban rs s = Inr s' \<Longrightarrow> tracker_ok cfg s \<Longrightarrow> tracker_ok cfg s'"
  "foldE load_client rs s = Inr s' \<Longrightarrow> tracker_ok cfg s \<Longrightarrow> tracker_ok cfg s'"
  "foldE load_leech rs s = Inr s' \<Longrightarrow> tracker_ok cfg s \<Longrightarrow> tracker_ok cfg s'"
  by (erule foldE_tracker_ok [rotated], assumption, erule (1) load_user_ok load_token_ok
      load_ip_restriction_ok load_torrent_ok load_others_ok)+

lemma tracker_ok_statistics [simp]: "tracker_ok cfg (s\<lparr>statistics := st\<rparr>) = tracker_ok cfg s"
  by (simp add: tracker_ok_def)

lemma loadUsers_ok [keeps]:
  assumes "loadUsers cfg' my s = Inr s'" and ok: "tracker_ok cfg s" shows "tracker_ok cfg s'"
  using assms by (auto simp: loadUsers_def split: option.splits) ((drule (1) foldE_loads_ok)+, assumption)+

lemma loads_ok [keeps]:
  "loadTorrents cfg' my s = Inr s' \<Longrightarrow> tracker_ok cfg s \<Longrightarrow> tracker_ok cfg s'"
  "loadBannedIPs cfg' my s = Inr s' \<Longrightarrow> tracker_ok cfg s \<Longrightarrow> tracker_ok cfg s'"
  "loadClientWhitelist cfg' my s = Inr s' \<Longrightarrow> tracker_ok cfg s \<Longrightarrow> tracker_ok cfg s'"
  "loadLeechStatus cfg' my s = Inr s' \<Longrightarrow> tracker_ok cfg s \<Longrightarrow> tracker_ok cfg s'"
  by (auto simp: loadTorrents_def loadBannedIPs_def loadClientWhitelist_def loadLeechStatus_def
      split: option.splits intro: foldE_loads_ok)

lemma init_ok [keeps]:
  "init cfg my s = Inr (sent, s') \<Longrightarrow> tracker_ok cfg s \<Longrightarrow> tracker_ok cfg s'"
  by (auto simp: init_def split: if_splits) ((drule (1) loads_ok loadUsers_ok)+, assumption)+

lemma tracker_ok_empty [simp]: "tracker_ok cfg empty_tracker"
  by (simp add: tracker_ok_def empty_tracker_def)

section \<open>What loading puts into the tables\<close>

lemma foldE_load_client:
  "foldE load_client (map (\<lambda>v. [Some v]) vs) s = Inr (s\<lparr>clientWhitelist := clientWhitelist s @ vs\<rparr>)"
  by (induction vs arbitrary: s) (simp_all add: load_client_def cell_def)

section \<open>The directory of accounts\<close>

text \<open>
  The specification of loading the users: the passkey table and the store of accounts as one
  map from passkeys to accounts. Updating an account through its passkey updates this map at
  one point, because no two passkeys share an account while loading.
\<close>

definition directory :: "tracker \<Rightarrow> string \<rightharpoonup> user" where
  "directory s k = map_option (\<lambda>a. accounts s ! a) (usrMap s k)"

definition unshared :: "tracker \<Rightarrow> bool" where
  "unshared s \<longleftrightarrow> (\<forall>k a. usrMap s k = Some a \<longrightarrow> a < length (accounts s)) \<and>
    (\<forall>k k' a. usrMap s k = Some a \<longrightarrow> usrMap s k' = Some a \<longrightarrow> k = k')"

lemma unsharedD:
  "unshared s \<Longrightarrow> usrMap s k = Some a \<Longrightarrow> a < length (accounts s)"
  "unshared s \<Longrightarrow> usrMap s k = Some a \<Longrightarrow> usrMap s k' = Some a \<Longrightarrow> k' = k"
  by (auto simp: unshared_def)

lemma on_user_directory:
  assumes "unshared s"
  shows "case usrMap s k of None \<Rightarrow> on_user k f s = Inl Out_of_range
    | Some a \<Rightarrow> \<exists>s'. on_user k f s = Inr s' \<and> unshared s' \<and> directory s' = (directory s)(k := map_option f (directory s k))"
proof (cases "usrMap s k")
  case (Some a)
  let ?s = "s\<lparr>accounts := (accounts s)[a := f (accounts s ! a)]\<rparr>"
  have a: "a < length (accounts s)" using unsharedD(1) [OF assms Some] .
  have "directory ?s k' = ((directory s)(k := map_option f (directory s k))) k'" for k'
    using a Some unsharedD(2) [OF assms Some, of k']
    by (cases "usrMap s k'") (auto simp: directory_def nth_list_update)
  moreover have "on_user k f s = Inr ?s" using a Some by (simp add: on_user_Inr)
  moreover have "unshared ?s" using assms by (simp add: unshared_def)
  ultimately show ?thesis using Some by auto
qed (simp add: on_user_def at_key_def)

definition user_of_row :: "u32 \<times> bool \<Rightarrow> user" where
  "user_of_row r = new_user (fst r) (snd r)"

definition user_row_of :: "string \<times> u32 \<times> bool \<Rightarrow> row" where
  "user_row_of r = (case r of (k, i, a) \<Rightarrow> [Some (to_string i), Some k, Some (if a then ''1'' else ''0'')])"

definition token_row_of :: "string \<times> u32 \<times> u64 \<Rightarrow> row" where
  "token_row_of r = (case r of (k, tid, t) \<Rightarrow> [Some k, Some (to_string tid), Some (to_string t)])"

definition restriction_row_of :: "u32 \<times> string \<times> u32 \<Rightarrow> row" where
  "restriction_row_of r = (case r of (i, k, ip) \<Rightarrow> [Some (to_string i), Some k, Some (to_string ip)])"

lemma load_user_directory:
  assumes "unshared s"
  shows "\<exists>s'. load_user (user_row_of (k, r)) s = Inr s' \<and> unshared s' \<and>
    directory s' = fm_emplace k (user_of_row r) (directory s)"
proof -
  let ?s = "s\<lparr>accounts := accounts s @ [user_of_row r], usrMap := fm_emplace k (length (accounts s)) (usrMap s)\<rparr>"
  have "load_user (user_row_of (k, r)) s = Inr ?s"
    by (cases r) (simp add: load_user_def user_row_of_def user_of_row_def cell_def cell_number_def alloc_def)
  moreover have "unshared ?s"
    using unsharedD [OF assms] unfolding unshared_def
    by (auto simp: less_Suc_eq split: if_splits)
  moreover have "directory ?s k' = fm_emplace k (user_of_row r) (directory s) k'" for k'
    using unsharedD(1) [OF assms, of k'] by (cases "usrMap s k'") (auto simp: directory_def nth_append)
  ultimately show ?thesis by auto
qed

lemma load_token_directory:
  assumes "unshared s"
  shows "\<exists>s'. load_token (token_row_of (k, tid, t)) s = Inr s' \<and> unshared s' \<and>
    directory s' = (directory s)(k := map_option (user_addToken tid (sint t)) (directory s k))"
  using on_user_directory [OF assms, of k "user_addToken tid (sint t)"] assms
  by (cases "usrMap s k")
    (auto simp: load_token_def token_row_of_def cell_def cell_number_def at_key_def directory_def numeral_eq_Suc)

lemma load_ip_restriction_directory:
  assumes "unshared s"
  shows "\<exists>s'. load_ip_restriction (restriction_row_of (i, k, ip)) s = Inr s' \<and> unshared s' \<and>
    directory s' = (directory s)(k := map_option (user_addIPRestriction (long2ip ip)) (directory s k))"
  using on_user_directory [OF assms, of k "user_addIPRestriction (long2ip ip)"] assms
  by (cases "usrMap s k")
    (auto simp: load_ip_restriction_def restriction_row_of_def cell_def cell_number_def directory_def numeral_eq_Suc)

lemma foldE_users:
  "unshared s \<Longrightarrow> \<exists>s'. foldE load_user (map user_row_of us) s = Inr s' \<and> unshared s' \<and>
    (\<forall>k. directory s' k = (case directory s k of Some u \<Rightarrow> Some u | None \<Rightarrow> map_option user_of_row (map_of us k)))"
proof (induction us arbitrary: s)
  case (Cons x us)
  obtain k r where x: "x = (k, r)" by (cases x)
  obtain s1 where s1: "load_user (user_row_of x) s = Inr s1" "unshared s1"
    "directory s1 = fm_emplace k (user_of_row r) (directory s)"
    using load_user_directory [OF Cons.prems] unfolding x by blast
  from Cons.IH [OF s1(2)] obtain s' where s': "foldE load_user (map user_row_of us) s1 = Inr s'" "unshared s'"
    "\<forall>k. directory s' k = (case directory s1 k of Some u \<Rightarrow> Some u | None \<Rightarrow> map_option user_of_row (map_of us k))" by blast
  have "directory s' k' = (case directory s k' of Some u \<Rightarrow> Some u
      | None \<Rightarrow> map_option user_of_row (map_of (x # us) k'))" for k'
    using s'(3) [rule_format, of k'] s1(3) by (auto simp: x split: option.splits)
  with s1(1) s'(1,2) show ?case by simp
qed (simp split: option.splits)

definition tokens_of :: "(string \<times> u32 \<times> u64) list \<Rightarrow> string \<Rightarrow> u32 \<rightharpoonup> int" where
  "tokens_of ts k = map_of (rev (map (\<lambda>(k', tid, t). (tid, sint t)) (filter (\<lambda>(k', _). k' = k) ts)))"

definition restrictions_of :: "(u32 \<times> string \<times> u32) list \<Rightarrow> string \<Rightarrow> string set" where
  "restrictions_of rs k = {long2ip ip | i ip. (i, k, ip) \<in> set rs}"

lemma foldE_tokens:
  "unshared s \<Longrightarrow> \<exists>s'. foldE load_token (map token_row_of ts) s = Inr s' \<and> unshared s' \<and>
    (\<forall>k. directory s' k = map_option (\<lambda>u. u\<lparr>u_tokens := u_tokens u ++ tokens_of ts k\<rparr>) (directory s k))"
proof (induction ts arbitrary: s)
  case (Cons x ts)
  obtain k tid t where x: "x = (k, tid, t)" by (cases x)
  obtain s1 where s1: "load_token (token_row_of x) s = Inr s1" "unshared s1"
    "directory s1 = (directory s)(k := map_option (user_addToken tid (sint t)) (directory s k))"
    using load_token_directory [OF Cons.prems] unfolding x by blast
  have upd: "(user_addToken tid (sint t) u)\<lparr>u_tokens := m\<rparr> = u\<lparr>u_tokens := m\<rparr>" for u m
    by (simp add: user_addToken_def split: option.splits)
  have "tokens_of (x # ts) k' = (if k' = k then [tid \<mapsto> sint t] else Map.empty) ++ tokens_of ts k'" for k'
    by (auto simp: tokens_of_def x map_add_def split: option.splits)
  with Cons.IH [OF s1(2)] s1(1,3) show ?case
    by (auto simp: x upd option.map_comp comp_def)
qed (auto simp: tokens_of_def option.map_ident)

lemma foldE_restrictions:
  "unshared s \<Longrightarrow> \<exists>s'. foldE load_ip_restriction (map restriction_row_of rs) s = Inr s' \<and> unshared s' \<and>
    (\<forall>k. directory s' k =
      map_option (\<lambda>u. u\<lparr>u_IPRestrictions := u_IPRestrictions u \<union> restrictions_of rs k\<rparr>) (directory s k))"
proof (induction rs arbitrary: s)
  case (Cons x rs)
  obtain i k ip where x: "x = (i, k, ip)" by (cases x)
  obtain s1 where s1: "load_ip_restriction (restriction_row_of x) s = Inr s1" "unshared s1"
    "directory s1 = (directory s)(k := map_option (user_addIPRestriction (long2ip ip)) (directory s k))"
    using load_ip_restriction_directory [OF Cons.prems] unfolding x by blast
  have "restrictions_of (x # rs) k' = (if k' = k then {long2ip ip} else {}) \<union> restrictions_of rs k'" for k'
    by (auto simp: restrictions_of_def x)
  with Cons.IH [OF s1(2)] s1(1,3) show ?case
    by (auto simp: x option.map_comp comp_def user_addIPRestriction_def Un_commute insert_absorb)
qed (auto simp: restrictions_of_def option.map_ident)

section \<open>Properties\<close>

text \<open>Loading the ban table bans exactly the addresses of the ranges in its rows, in
  addition to what was banned before.\<close>

theorem loadBannedIPs_bans_rows:
  assumes "my_query my (bans_query cfg) =
    Some (map (\<lambda>(a, b). [Some (to_string (a :: u32)), Some (to_string (b :: u32))]) rs)"
  shows "\<exists>s'. loadBannedIPs cfg my s = Inr s' \<and>
    (\<forall>w. (long2ip w \<in> bannedIPs s') = (long2ip w \<in> bannedIPs s \<or> (\<exists>(a, b) \<in> set rs. w - a \<le> b - a)))"
proof -
  have "foldE load_ban (map (\<lambda>(a, b). [Some (to_string (a :: u32)), Some (to_string (b :: u32))]) rs) s =
      Inr (s\<lparr>bannedIPs := bannedIPs s \<union> (\<Union>(a, b) \<in> set rs. ip_interval a b)\<rparr>)"
    by (induction rs arbitrary: s)
      (auto simp: load_ban_def cell_number_def cell_def ip_range_insert Un_assoc)
  moreover have "(long2ip w \<in> (\<Union>(a, b) \<in> set rs. ip_interval a b)) = (\<exists>(a, b) \<in> set rs. w - a \<le> b - a)" for w
    by (force simp: in_ip_interval split: prod.splits)
  ultimately show ?thesis by (simp add: loadBannedIPs_def assms)
qed

definition sample_mysql :: "(string \<times> row list) list \<Rightarrow> mysql" where
  "sample_mysql answers = \<lparr>my_connects = True, my_query = map_of answers\<rparr>"

lemma loadBannedIPs_bans_rows_witness:
  "\<exists>s'. loadBannedIPs default_config (sample_mysql [(bans_query default_config, [[Some ''1'', Some ''3'']])]) empty_tracker =
    Inr s' \<and> long2ip 2 \<in> bannedIPs s'"
proof -
  have "to_string (1 :: u32) = ''1''" "to_string (3 :: u32) = ''3''" by (simp_all add: to_string_def show_nat.simps)
  then have "my_query (sample_mysql [(bans_query default_config, [[Some ''1'', Some ''3'']])]) (bans_query default_config) =
    Some (map (\<lambda>(a, b). [Some (to_string (a :: u32)), Some (to_string (b :: u32))]) [(1, 3)])"
    by (simp add: sample_mysql_def)
  from loadBannedIPs_bans_rows [OF this, of empty_tracker] show ?thesis by auto
qed

definition torrent_row_of :: "string \<times> u32 \<times> nat \<times> u32 \<times> u64 \<Rightarrow> row" where
  "torrent_row_of r = (case r of (h, i, f, n, b) \<Rightarrow>
     [Some (to_string i), Some h, Some (show_nat f), Some (to_string n), Some (to_string b)])"

definition loaded_torrent :: "u32 \<times> nat \<times> u32 \<times> u64 \<Rightarrow> torrent" where
  "loaded_torrent r = (case r of (i, f, n, b) \<Rightarrow> new_torrent i (if f = 1 then 100 else if f = 2 then 50 else 0) n (sint b))"

lemma show_nat_12: "show_nat f = ''1'' \<longleftrightarrow> f = 1" "show_nat f = ''2'' \<longleftrightarrow> f = 2"
proof -
  have "show_nat 1 = ''1''" "show_nat 2 = ''2''" by (simp_all add: show_nat.simps)
  then show "show_nat f = ''1'' \<longleftrightarrow> f = 1" "show_nat f = ''2'' \<longleftrightarrow> f = 2" by (metis show_nat_inject)+
qed

lemma load_torrent_row:
  "load_torrent (torrent_row_of (h, r)) s = Inr (s\<lparr>torMap := om_emplace h (loaded_torrent r) (torMap s)\<rparr>)"
  by (cases r) (simp add: load_torrent_def torrent_row_of_def loaded_torrent_def cell_def cell_number_def show_nat_12
      Let_def numeral_eq_Suc)

lemma foldE_load_torrent:
  "om_wf (torMap s) \<Longrightarrow> \<exists>s'. foldE load_torrent (map torrent_row_of rs) s = Inr s' \<and> om_wf (torMap s') \<and>
    statistics s' = statistics s \<and>
    (\<forall>h. map_of (torMap s') h = (case map_of (torMap s) h of Some t \<Rightarrow> Some t | None \<Rightarrow> map_option loaded_torrent (map_of rs h)))"
proof (induction rs arbitrary: s)
  case (Cons x rs)
  obtain h r where x: "x = (h, r)" by (cases x)
  let ?s = "s\<lparr>torMap := om_emplace h (loaded_torrent r) (torMap s)\<rparr>"
  have "om_wf (torMap ?s)" using Cons.prems by (simp add: om_wf_emplace)
  from Cons.IH [OF this] obtain s' where s': "foldE load_torrent (map torrent_row_of rs) ?s = Inr s'" "om_wf (torMap s')"
    "statistics s' = statistics s"
    "\<forall>h'. map_of (torMap s') h' = (case map_of (torMap ?s) h' of Some t \<Rightarrow> Some t | None \<Rightarrow> map_option loaded_torrent (map_of rs h'))"
    by auto
  have "map_of (torMap s') h' = (case map_of (torMap s) h' of Some t \<Rightarrow> Some t
      | None \<Rightarrow> map_option loaded_torrent (map_of (x # rs) h'))" for h'
    using s'(4) [rule_format, of h'] Cons.prems x by (auto simp: om_find_emplace split: option.splits)
  then show ?case using s'(1-3) x by (simp add: load_torrent_row)
qed (auto split: option.splits)

text \<open>C39: Loading the torrents table makes every row's info hash lead to a torrent with the
  numbers of its first row (the balance, read as \<open>unsigned long\<close>, as a \<open>long\<close>), free leech code 1 as 100 percent and 2 as 50, keeps torrents that
  were there, and sets the torrent count to the number of rows.\<close>

theorem loadTorrents_loads_rows:
  assumes "om_wf (torMap s)" and "my_query my (torrents_query cfg) = Some (map torrent_row_of rs)"
  shows "\<exists>s'. loadTorrents cfg my s = Inr s' \<and>
    st_torrents (statistics s') = of_nat (length rs) \<and>
    (\<forall>h. map_of (torMap s') h = (case map_of (torMap s) h of Some t \<Rightarrow> Some t | None \<Rightarrow> map_option loaded_torrent (map_of rs h)))"
proof -
  from foldE_load_torrent [OF assms(1), of rs] show ?thesis by (auto simp: loadTorrents_def assms(2))
qed

lemma loadTorrents_loads_rows_witness:
  "\<exists>s'. loadTorrents default_config (sample_mysql [(torrents_query default_config, map torrent_row_of [(''h'', 7, 2, 3, 0)])])
      empty_tracker = Inr s' \<and> map_of (torMap s') ''h'' = Some (new_torrent 7 50 3 0)"
  using loadTorrents_loads_rows [of empty_tracker
      "sample_mysql [(torrents_query default_config, map torrent_row_of [(''h'', 7, 2, 3, 0)])]" default_config
      "[(''h'', 7, 2, 3, 0)]"]
  by (auto simp: empty_tracker_def loaded_torrent_def sample_mysql_def)

text \<open>C25: Loading the users of a private tracker yields exactly the accounts of the database:
  a passkey leads to an account if and only if it has a row (the first row counts), with
  its number and authorisation, the tokens of the token table (the last row for a torrent
  counts) and the addresses of the restriction table; rows for unknown passkeys are
  skipped.\<close>

theorem loadUsers_builds_directory:
  assumes "my_query my (users_query cfg) = Some (map user_row_of us)"
    and "my_query my (tokens_query cfg) = Some (map token_row_of ts)"
    and "my_query my (restrictions_query cfg) = Some (map restriction_row_of rs)"
    and "usrMap s = Map.empty"
  shows "\<exists>s'. loadUsers cfg my s = Inr s' \<and>
    (\<forall>k. directory s' k = (case map_of us k of None \<Rightarrow> None
      | Some (i, authorized) \<Rightarrow> Some ((new_user i authorized)\<lparr>u_tokens := tokens_of ts k, u_IPRestrictions := restrictions_of rs k\<rparr>)))"
proof -
  have "unshared s" using assms(4) by (simp add: unshared_def)
  from foldE_users [OF this] obtain s1 where s1: "foldE load_user (map user_row_of us) s = Inr s1" "unshared s1"
    "\<forall>k. directory s1 k = map_option user_of_row (map_of us k)"
    using assms(4) by (auto simp: directory_def)
  from foldE_tokens [OF s1(2)] obtain s2 where s2: "foldE load_token (map token_row_of ts) s1 = Inr s2" "unshared s2"
    "\<forall>k. directory s2 k = map_option (\<lambda>u. u\<lparr>u_tokens := u_tokens u ++ tokens_of ts k\<rparr>) (directory s1 k)" by blast
  from foldE_restrictions [OF s2(2)] obtain s3 where s3:
    "foldE load_ip_restriction (map restriction_row_of rs) s2 = Inr s3"
    "\<forall>k. directory s3 k =
      map_option (\<lambda>u. u\<lparr>u_IPRestrictions := u_IPRestrictions u \<union> restrictions_of rs k\<rparr>) (directory s2 k)" by blast
  have "directory s3 k = (case map_of us k of None \<Rightarrow> None
      | Some (i, authorized) \<Rightarrow> Some ((new_user i authorized)\<lparr>u_tokens := tokens_of ts k, u_IPRestrictions := restrictions_of rs k\<rparr>))" for k
    using s1(3) s2(3) s3(2) by (cases "map_of us k") (auto simp: user_of_row_def new_user_def)
  moreover have "loadUsers cfg my s = Inr s3"
    using s1(1) s2(1) s3(1) by (simp add: loadUsers_def assms(1-3))
  ultimately show ?thesis by blast
qed

lemma default_names: "get default_config ''DB_Users_ID'' = ''ID''" "get default_config ''DB_Users_Passkey'' = ''torrent_pass''"
  by (simp_all add: get_def default_config_def default_vars_def)

lemma default_queries:
  "tokens_query default_config \<noteq> users_query default_config"
  "restrictions_query default_config \<noteq> users_query default_config"
  "restrictions_query default_config \<noteq> tokens_query default_config"
  by (simp_all add: tokens_query_def users_query_def restrictions_query_def default_names)

lemma loadUsers_builds_directory_witness:
  "\<exists>s'. loadUsers default_config
      \<lparr>my_connects = True, my_query = (\<lambda>q. Some (
        if q = users_query default_config then map user_row_of [(''k'', 7, True)]
        else if q = tokens_query default_config then map token_row_of [(''k'', 3, 50)]
        else map restriction_row_of []))\<rparr> empty_tracker = Inr s' \<and>
    (\<exists>u. directory s' ''k'' = Some u \<and> u_id u = 7 \<and> u_tokens u 3 = Some 50)"
  (is "\<exists>s'. loadUsers _ ?my _ = _ \<and> _")
proof -
  have "my_query ?my (users_query default_config) = Some (map user_row_of [(''k'', 7, True)])"
    "my_query ?my (tokens_query default_config) = Some (map token_row_of [(''k'', 3, 50)])"
    "my_query ?my (restrictions_query default_config) = Some (map restriction_row_of [])"
    by (simp_all add: default_queries)
  from loadUsers_builds_directory [OF this, of empty_tracker] show ?thesis
    by (auto simp: empty_tracker_def tokens_of_def new_user_def)
qed

end
