(* ===== verification/Connection.thy ===== *)
theory Connection
  imports RequestHandler
begin

text \<open>
  One client connection: src/network/connectionHandler.cpp with the IPv4 and IPv6
  subclasses. The libev watchers are flags that say which callback may run; the results of
  \<open>recv\<close> and \<open>send\<close> are part of the event. A request is handed to the request handler once,
  when it is complete; the reply leaves the socket piece by piece. The lemmas give the
  invariant of the state machine, show that the way a request is cut into segments does
  not matter, and that the bytes on the wire are a prefix of the reply, all of it when the
  connection is closed by the writer.
\<close>

section \<open>State\<close>

record conn =
  c_ipv6 :: bool
  c_IP :: string
  c_request :: string
  c_response :: string
  c_sent :: nat
  c_reading :: bool
  c_writing :: bool
  c_timer :: bool
  c_open :: bool

definition MAX_REQUEST_SIZE :: "config \<Rightarrow> nat" where
  "MAX_REQUEST_SIZE cfg = unat (word_of_int (getInt cfg ''max_request_size'') :: u32)"

text \<open>\<open>getPeerInfo\<close>: an IPv4 client of an IPv6 socket shows a mapped address, \<open>::ffff:1.2.3.4\<close>.\<close>

fun find_last :: "char \<Rightarrow> string \<Rightarrow> nat option" where
  "find_last c [] = None"
| "find_last c (x # xs) =
     (case find_last c xs of Some i \<Rightarrow> Some (Suc i) | None \<Rightarrow> if x = c then Some 0 else None)"

definition peer_info :: "bool \<Rightarrow> string \<Rightarrow> bool \<times> string" where
  "peer_info ipv6 name =
    (if ipv6 then
       (case find_last (CHR ''.'') name of
          Some _ \<Rightarrow> (False, case find_last (CHR '':'') name of Some p \<Rightarrow> drop (p + 1) name | None \<Rightarrow> name)
        | None \<Rightarrow> (True, name))
     else (False, name))"

text \<open>
  The constructor and \<open>init\<close>: \<open>nonblocking\<close> tells whether both \<open>fcntl\<close> calls succeed,
  \<open>name\<close> is the printed peer address, \<open>None\<close> when \<open>getpeername\<close> or \<open>inet_ntop\<close> fails.
\<close>

definition new_connection :: "bool \<Rightarrow> bool \<Rightarrow> string option \<Rightarrow> conn res" where
  "new_connection ipv6 nonblocking name =
    (if \<not> nonblocking then Inl System_error
     else case name of None \<Rightarrow> Inl System_error | Some n \<Rightarrow>
       let (v6, ip) = peer_info ipv6 n
       in Inr \<lparr>c_ipv6 = v6, c_IP = ip, c_request = [], c_response = [], c_sent = 0,
               c_reading = True, c_writing = False, c_timer = True, c_open = True\<rparr>)"

definition destroy :: "conn \<Rightarrow> conn" where
  "destroy c = c\<lparr>c_reading := False, c_writing := False, c_timer := False, c_open := False\<rparr>"

section \<open>Callbacks\<close>

text \<open>
  \<open>None\<close> is a failed \<open>recv\<close>: its \<open>-1\<close> becomes the largest \<open>size_t\<close>, which \<open>append\<close>
  refuses with \<open>length_error\<close>.
\<close>

definition ends_request :: "string \<Rightarrow> bool" where
  "ends_request r \<longleftrightarrow> length r \<ge> 4 \<and> drop (length r - 4) r = crlf @ crlf"

definition complete_request :: "config \<Rightarrow> string \<Rightarrow> bool" where
  "complete_request cfg r \<longleftrightarrow> length r > MAX_REQUEST_SIZE cfg \<or> ends_request r"

definition readRequest ::
  "env \<Rightarrow> config \<Rightarrow> (string \<rightharpoonup> string list) \<Rightarrow> string option \<Rightarrow> conn \<times> tracker \<Rightarrow> (conn \<times> tracker) res" where
  "readRequest e cfg required buffer x =
    (let (c, s) = x in
     case buffer of
       None \<Rightarrow> Inl Length_error
     | Some b \<Rightarrow>
         if b = [] then Inr (destroy c, s)
         else
           let c1 = c\<lparr>c_request := c_request c @ b\<rparr> in
           if complete_request cfg (c_request c1) then
             let c2 = c1\<lparr>c_reading := False\<rparr> in
             if length (c_request c1) > MAX_REQUEST_SIZE cfg then
               Inr (c2\<lparr>c_response := ''request too long'', c_writing := True\<rparr>, s)
             else
               bindE (handle e cfg required (c_request c1) (c_IP c) (c_ipv6 c) s) (\<lambda>(reply, s').
                 Inr (c2\<lparr>c_response := reply, c_writing := True\<rparr>, s'))
           else Inr (c1, s))"

text \<open>\<open>None\<close> is \<open>-1\<close> from \<open>send\<close>; otherwise \<open>n\<close> bytes were taken. The bytes are the output.\<close>

definition writeResponse :: "nat option \<Rightarrow> conn \<Rightarrow> string \<times> conn" where
  "writeResponse r c =
    (case r of None \<Rightarrow> ([], c)
     | Some n \<Rightarrow>
         let c1 = c\<lparr>c_sent := c_sent c + n\<rparr>
         in (take n (drop (c_sent c) (c_response c)),
             if c_sent c1 = length (c_response c) then destroy c1 else c1))"

definition timeout :: "conn \<Rightarrow> conn" where
  "timeout c = destroy c"

section \<open>The state machine\<close>

inductive conn_step ::
  "config \<Rightarrow> (string \<rightharpoonup> string list) \<Rightarrow> conn \<times> tracker \<Rightarrow> string \<Rightarrow> conn \<times> tracker \<Rightarrow> bool"
  for cfg required where
  Read: "c_reading c \<Longrightarrow> pton_ok (e_pton e) \<Longrightarrow> readRequest e cfg required buffer (c, s) = Inr (c', s') \<Longrightarrow>
    conn_step cfg required (c, s) [] (c', s')"
| Write: "c_writing c \<Longrightarrow> (\<forall>n. r = Some n \<longrightarrow> n \<le> length (c_response c) - c_sent c) \<Longrightarrow>
    writeResponse r c = (out, c') \<Longrightarrow> conn_step cfg required (c, s) out (c', s)"
| Timeout: "c_timer c \<Longrightarrow> conn_step cfg required (c, s) [] (timeout c, s)"

inductive_simps conn_step_closed: "conn_step cfg required (destroy c, s) out x"

text \<open>Reachable from a fresh connection, with the bytes sent so far.\<close>

inductive conn_reach ::
  "config \<Rightarrow> (string \<rightharpoonup> string list) \<Rightarrow> conn \<times> tracker \<Rightarrow> string \<Rightarrow> conn \<times> tracker \<Rightarrow> bool"
  for cfg required x where
  Start: "conn_reach cfg required x [] x"
| Next: "conn_reach cfg required x out y \<Longrightarrow> conn_step cfg required y out' z \<Longrightarrow>
    conn_reach cfg required x (out @ out') z"

definition conn_ok :: "config \<Rightarrow> conn \<Rightarrow> bool" where
  "conn_ok cfg c \<longleftrightarrow>
    (c_open c \<longrightarrow> c_timer c \<and> c_reading c = (\<not> c_writing c)) \<and>
    (\<not> c_open c \<longrightarrow> \<not> c_timer c \<and> \<not> c_reading c \<and> \<not> c_writing c) \<and>
    (c_reading c \<longrightarrow> c_sent c = 0 \<and> c_response c = [] \<and> \<not> complete_request cfg (c_request c)) \<and>
    (c_writing c \<longrightarrow> complete_request cfg (c_request c)) \<and>
    c_sent c \<le> length (c_response c)"

lemma new_connection_ok [keeps]: "new_connection ipv6 nb name = Inr c \<Longrightarrow> conn_ok cfg c \<and> c_open c \<and> c_reading c"
  by (auto simp: new_connection_def conn_ok_def complete_request_def ends_request_def
      split: if_splits option.splits prod.splits)

lemma destroy_ok [keeps]: "conn_ok cfg c \<Longrightarrow> conn_ok cfg (destroy c)"
  by (simp add: conn_ok_def destroy_def)

lemma readRequest_ok [keeps]:
  assumes "readRequest e cfg required buffer (c, s) = Inr (c', s')" and "conn_ok cfg c" and "c_reading c"
  shows "conn_ok cfg c'"
  using assms by (auto simp: readRequest_def conn_ok_def destroy_def Let_def split: option.splits if_splits)

lemma writeResponse_ok [keeps]:
  assumes "writeResponse r c = (out, c')" and "conn_ok cfg c" and "c_writing c"
    and "\<forall>n. r = Some n \<longrightarrow> n \<le> length (c_response c) - c_sent c"
  shows "conn_ok cfg c'"
  using assms by (auto simp: writeResponse_def conn_ok_def destroy_def Let_def split: option.splits if_splits)

lemma conn_step_ok [keeps]:
  assumes "conn_step cfg required x out y" and "conn_ok cfg (fst x)"
  shows "conn_ok cfg (fst y)"
  using assms
  by (cases rule: conn_step.cases)
    (auto simp: timeout_def intro: readRequest_ok writeResponse_ok destroy_ok)

lemma conn_reach_ok:
  "conn_reach cfg required x out y \<Longrightarrow> conn_ok cfg (fst x) \<Longrightarrow> conn_ok cfg (fst y)"
  by (induction rule: conn_reach.induct) (auto intro: conn_step_ok)

lemma readRequest_keeps [keeps]:
  assumes "readRequest e cfg required buffer (c, s) = Inr (c', s')" and "tracker_ok cfg s" and "pton_ok (e_pton e)"
  shows "tracker_ok cfg s'"
  using assms
  by (auto simp: readRequest_def Let_def split: option.splits if_splits intro: handle_keeps)

text \<open>The bytes sent are always the first \<open>sent\<close> bytes of the reply.\<close>

lemma conn_step_output:
  assumes "conn_step cfg required x out y" and "conn_ok cfg (fst x)"
    and "sofar = take (c_sent (fst x)) (c_response (fst x))"
  shows "sofar @ out = take (c_sent (fst y)) (c_response (fst y))"
  using assms
  by (cases rule: conn_step.cases)
    (auto simp: readRequest_def writeResponse_def timeout_def destroy_def conn_ok_def Let_def take_add
      split: option.splits if_splits)

lemma conn_reach_output:
  assumes "conn_reach cfg required x out y" and "conn_ok cfg (fst x)" and "c_sent (fst x) = 0"
  shows "out = take (c_sent (fst y)) (c_response (fst y))"
  using assms
proof (induction rule: conn_reach.induct)
  case (Next out y out' z)
  then show ?case using conn_step_output [OF Next(2)] conn_reach_ok by blast
qed simp

text \<open>A closed connection makes no further step.\<close>

lemma closed_is_final: "\<not> conn_step cfg required (destroy c, s) out x"
  by (simp add: conn_step_closed) (simp add: destroy_def)

section \<open>Segments\<close>

fun read_all ::
  "env \<Rightarrow> config \<Rightarrow> (string \<rightharpoonup> string list) \<Rightarrow> string list \<Rightarrow> conn \<times> tracker \<Rightarrow> (conn \<times> tracker) res" where
  "read_all e cfg required [] x = Inr x"
| "read_all e cfg required (b # bs) x = bindE (readRequest e cfg required (Some b) x) (read_all e cfg required bs)"

lemma readRequest_incomplete:
  "b \<noteq> [] \<Longrightarrow> \<not> complete_request cfg (c_request c @ b) \<Longrightarrow>
    readRequest e cfg required (Some b) (c, s) = Inr (c\<lparr>c_request := c_request c @ b\<rparr>, s)"
  by (simp add: readRequest_def Let_def)

lemma read_all_segments:
  assumes "bs \<noteq> []" and "\<forall>b \<in> set bs. b \<noteq> []"
    and "\<forall>n < length bs. \<not> complete_request cfg (c_request c @ concat (take n bs))"
  shows "read_all e cfg required bs (c, s) = readRequest e cfg required (Some (concat bs)) (c, s)"
  using assms
proof (induction bs arbitrary: c)
  case (Cons b bs)
  show ?case
  proof (cases "bs = []")
    case True
    then show ?thesis by (cases "readRequest e cfg required (Some b) (c, s)") simp_all
  next
    case False
    have inc: "\<not> complete_request cfg (c_request c @ b)"
      using Cons.prems(3) [rule_format, of 1] False by simp
    let ?c = "c\<lparr>c_request := c_request c @ b\<rparr>"
    have "\<forall>n < length bs. \<not> complete_request cfg (c_request ?c @ concat (take n bs))"
      using Cons.prems(3) [rule_format, of "Suc _"] by simp
    then have "read_all e cfg required bs (?c, s) = readRequest e cfg required (Some (concat bs)) (?c, s)"
      using Cons.IH [of ?c] False Cons.prems(2) by simp
    moreover have "concat bs \<noteq> []" using False Cons.prems(2) by (cases bs) auto
    ultimately show ?thesis
      using readRequest_incomplete [OF _ inc] Cons.prems(2) by (simp add: readRequest_def Let_def)
  qed
qed simp

section \<open>Writing\<close>

text \<open>Successive write callbacks; \<open>send\<close> never takes more than it is given.\<close>

fun write_all :: "nat option list \<Rightarrow> conn \<Rightarrow> string \<times> conn" where
  "write_all [] c = ([], c)"
| "write_all (r # rs) c =
     (if c_writing c then
        let (out, c') = writeResponse r c; (out', c'') = write_all rs c' in (out @ out', c'')
      else ([], c))"

definition to_send :: "conn \<Rightarrow> nat" where
  "to_send c = length (c_response c) - c_sent c"

text \<open>Every result takes at least one byte unless nothing is left, and never too many.\<close>

fun progress :: "nat option list \<Rightarrow> nat \<Rightarrow> bool" where
  "progress [] left = True"
| "progress (r # rs) left = (case r of None \<Rightarrow> False | Some n \<Rightarrow> n \<le> left \<and> (0 < n \<or> left = 0) \<and> progress rs (left - n))"

lemma write_all_stopped: "\<not> c_writing c \<Longrightarrow> write_all rs c = ([], c)"
  by (cases rs) simp_all

lemma write_all_sends:
  assumes "progress rs (to_send c)" and "c_writing c" and "c_sent c \<le> length (c_response c)"
    and "to_send c \<le> length rs" and "rs \<noteq> []"
  shows "fst (write_all rs c) = drop (c_sent c) (c_response c) \<and> \<not> c_open (snd (write_all rs c))"
  using assms
proof (induction rs arbitrary: c)
  case (Cons r rs)
  obtain n where n: "r = Some n" "n \<le> to_send c" "0 < n \<or> to_send c = 0" "progress rs (to_send c - n)"
    using Cons.prems(1) by (cases r) auto
  let ?c = "c\<lparr>c_sent := c_sent c + n\<rparr>"
  show ?case
  proof (cases "c_sent c + n = length (c_response c)")
    case True
    have "write_all rs (destroy ?c) = ([], destroy ?c)"
      by (rule write_all_stopped) (simp add: destroy_def)
    with True Cons.prems(2) n(1) show ?thesis
      by (simp add: writeResponse_def Let_def destroy_def)
  next
    case False
    have left: "to_send ?c = to_send c - n" by (simp add: to_send_def)
    have "fst (write_all rs ?c) = drop (c_sent ?c) (c_response ?c) \<and> \<not> c_open (snd (write_all rs ?c))"
    proof (rule Cons.IH)
      show "rs \<noteq> []" using Cons.prems(3,4) n(2,3) False by (auto simp: to_send_def)
      show "c_sent ?c \<le> length (c_response ?c)" using n(2) Cons.prems(3) by (simp add: to_send_def)
      show "to_send ?c \<le> length rs" using Cons.prems(3,4) n(2,3) False by (auto simp: to_send_def)
    qed (use n left Cons.prems(2) in simp_all)
    moreover have "take n (drop (c_sent c) (c_response c)) @ drop (c_sent c + n) (c_response c)
        = drop (c_sent c) (c_response c)"
      by (metis append_take_drop_id drop_drop add.commute)
    ultimately show ?thesis
      using False Cons.prems(2) n(1)
      by (cases "write_all rs ?c") (simp add: writeResponse_def Let_def)
  qed
qed simp

section \<open>Properties\<close>

definition fresh_connection :: conn where
  "fresh_connection = \<lparr>c_ipv6 = False, c_IP = ''10.0.0.1'', c_request = [], c_response = [], c_sent = 0,
     c_reading = True, c_writing = False, c_timer = True, c_open = True\<rparr>"

lemma default_max_request [simp]: "MAX_REQUEST_SIZE default_config = 4096"
  by (simp add: MAX_REQUEST_SIZE_def getInt_def default_config_def default_vars_def stoi_def scan_number_def
      isspace_def isdigit_iff read_digits_def digit_value_def)

text \<open>C22: In every reachable state of a connection the watchers are consistent: while it is
  open the timer runs and exactly one of reading and writing is active, after it is closed
  none is; reading means that no reply exists yet and the request is incomplete. The bytes
  sent so far are always the first \<open>sent\<close> bytes of the reply.\<close>

theorem connection_invariant:
  assumes "conn_reach cfg required (c, s) out (c', s')" and "new_connection ipv6 nonblocking name = Inr c"
  shows "conn_ok cfg c' \<and> out = take (c_sent c') (c_response c')"
proof -
  have c: "conn_ok cfg c" "c_sent c = 0"
    using assms(2) new_connection_ok [OF assms(2), of cfg]
    by (auto simp: new_connection_def split: if_splits option.splits prod.splits)
  show ?thesis
    using conn_reach_ok [OF assms(1)] conn_reach_output [OF assms(1)] c by simp
qed

lemma long_request_refused:
  "conn_reach default_config required (fresh_connection, s) ''request too long''
    (destroy (fresh_connection\<lparr>c_request := replicate 5000 (CHR ''a''), c_reading := False, c_writing := True,
      c_response := ''request too long'', c_sent := 16\<rparr>), s)"
proof -
  let ?r = "replicate 5000 (CHR ''a'')"
  let ?c1 = "fresh_connection\<lparr>c_request := ?r, c_reading := False, c_writing := True, c_response := ''request too long''\<rparr>"
  have len: "length ?r = 5000" by simp
  then have ne: "?r \<noteq> []" by (metis length_0_conv zero_neq_numeral)
  have "conn_step default_config required (fresh_connection, s) [] (?c1, s)"
  proof (rule Read)
    show "readRequest \<lparr>e_now = 0, e_now_peer = 0, e_now_token = 0, e_pton = (\<lambda>v6 ip. replicate (addr_size v6) (CHR ''a'')),
        e_corrupt = Some 0, e_order = length, e_logging = True\<rparr> default_config required (Some ?r) (fresh_connection, s) = Inr (?c1, s)"
      using ne len by (simp add: readRequest_def Let_def complete_request_def fresh_connection_def del: replicate.simps)
  qed (simp_all add: fresh_connection_def pton_ok_def)
  moreover have "conn_step default_config required (?c1, s) ''request too long''
      (destroy (?c1\<lparr>c_sent := 16\<rparr>), s)"
    by (rule Write [where r = "Some 16"]) (simp_all add: fresh_connection_def writeResponse_def Let_def)
  ultimately show ?thesis
    using conn_reach.Next [OF conn_reach.Next [OF conn_reach.Start]] by fastforce
qed

lemma connection_invariant_witness:
  "conn_ok default_config (destroy (fresh_connection\<lparr>c_request := replicate 5000 (CHR ''a''), c_reading := False,
    c_writing := True, c_response := ''request too long'', c_sent := 16\<rparr>))"
  using connection_invariant [OF long_request_refused, of False True "Some ''10.0.0.1''"]
  by (simp add: new_connection_def peer_info_def fresh_connection_def)

text \<open>C27: How the network cuts a request into segments does not matter: reading the segments
  one by one has the effect of reading their concatenation at once, provided no shorter
  prefix is already a complete request.\<close>

theorem segmentation_irrelevant:
  assumes "bs \<noteq> []" and "\<forall>b \<in> set bs. b \<noteq> []"
    and "\<forall>n < length bs. \<not> complete_request cfg (c_request c @ concat (take n bs))"
  shows "read_all e cfg required bs (c, s) = readRequest e cfg required (Some (concat bs)) (c, s)"
  using read_all_segments [OF assms] .

lemma segmentation_irrelevant_witness:
  "read_all sample_env default_config (required_params default_config) [''GET /'', ''?a'' @ crlf] (fresh_connection, empty_tracker) =
    readRequest sample_env default_config (required_params default_config) (Some (''GET /'' @ ''?a'' @ crlf))
      (fresh_connection, empty_tracker)"
proof -
  have "\<forall>n < length [''GET /'', ''?a'' @ crlf].
      \<not> complete_request default_config (c_request fresh_connection @ concat (take n [''GET /'', ''?a'' @ crlf]))"
    by (auto simp: less_Suc_eq complete_request_def ends_request_def fresh_connection_def crlf_def)
  then show ?thesis
    using segmentation_irrelevant [of "[''GET /'', ''?a'' @ crlf]" default_config fresh_connection] by simp
qed

text \<open>C28: When every \<open>send\<close> takes at least one byte, at most as many write callbacks as there
  are bytes left send exactly the rest of the reply and close the connection.\<close>

theorem writer_sends_rest_and_closes:
  assumes "progress rs (to_send c)" and "c_writing c" and "c_sent c \<le> length (c_response c)"
    and "to_send c \<le> length rs" and "rs \<noteq> []"
  shows "fst (write_all rs c) = drop (c_sent c) (c_response c) \<and> \<not> c_open (snd (write_all rs c))"
  using write_all_sends [OF assms] .

lemma writer_sends_rest_and_closes_witness:
  "fst (write_all [Some 2, Some 1, Some 1] (fresh_connection\<lparr>c_writing := True, c_response := ''abcd''\<rparr>)) = ''abcd''"
proof -
  let ?c = "fresh_connection\<lparr>c_writing := True, c_response := ''abcd''\<rparr>"
  have "progress [Some 2, Some 1, Some 1, Some 0] (to_send ?c)" by (simp add: to_send_def fresh_connection_def)
  from writer_sends_rest_and_closes [OF this]
  have "fst (write_all [Some 2, Some 1, Some 1, Some 0] ?c) = ''abcd''" by (simp add: to_send_def fresh_connection_def)
  moreover have "write_all [Some 2, Some 1, Some 1, Some 0] ?c = write_all [Some 2, Some 1, Some 1] ?c"
    by (simp add: writeResponse_def destroy_def fresh_connection_def)
  ultimately show ?thesis by simp
qed

lemma find_last_None: "c \<notin> set s \<Longrightarrow> find_last c s = None"
  by (induction s) auto

lemma find_last_append: "c \<notin> set s \<Longrightarrow> find_last c (r @ c # s) = Some (length r)"
  by (induction r) (auto simp: find_last_None)

lemma find_last_mem: "c \<in> set s \<Longrightarrow> find_last c s \<noteq> None"
  by (induction s) (auto split: option.splits)

text \<open>An IPv4 client of an IPv6 socket, shown as \<open>::ffff:a.b.c.d\<close>, is treated as an IPv4
  peer with its dotted address; any other IPv6 client keeps its address.\<close>

theorem mapped_address_is_ipv4:
  assumes "CHR '':'' \<notin> set dotted" and "CHR ''.'' \<in> set dotted"
  shows "peer_info True (pre @ CHR '':'' # dotted) = (False, dotted)"
  using find_last_append [OF assms(1), of pre] find_last_mem [of "CHR ''.''" "pre @ CHR '':'' # dotted"] assms(2)
  by (auto simp: peer_info_def)

lemma mapped_address_is_ipv4_witness: "peer_info True ''::ffff:10.0.0.1'' = (False, ''10.0.0.1'')"
  using mapped_address_is_ipv4 [of "''10.0.0.1''" "''::ffff''"] by simp

end
