(* ===== verification/Server.thy ===== *)
theory Server
  imports Connection DbLoad Logger
begin

text \<open>
  src/network/server.cpp, serverIPv4.cpp, serverIPv6.cpp and src/main.cpp: the options of
  the command line, the start of the server, accepted connections and the three timers. The
  server is a machine over the events libev delivers; the sockets are numbers, the results
  of the system calls part of the events.
\<close>

section \<open>Command line\<close>

text \<open>
  The loop over \<open>getopt\<close>: its results are pairs of the option letter and \<open>optarg\<close>. A bad
  level falls through to the usage message, \<open>None\<close>. The level is an \<open>unsigned int\<close>.
\<close>

fun read_options :: "(char \<times> string) list \<Rightarrow> string \<times> u32 \<Rightarrow> (string \<times> u32) option" where
  "read_options [] st = Some st"
| "read_options ((opt, optarg) # rest) (configFile, logLevel) =
     (if opt = CHR ''c'' then read_options rest (optarg, logLevel)
      else if opt = CHR ''v'' then
        (case stoul optarg of
           Inr n \<Rightarrow> if (ucast n :: u32) \<le> 2 then read_options rest (configFile, ucast n) else None
         | Inl _ \<Rightarrow> None)
      else None)"

definition main_options :: "(char \<times> string) list \<Rightarrow> (string \<times> u32) option" where
  "main_options opts = read_options opts (''liquid.conf'', 0)"

section \<open>The server\<close>

record server =
  sv_ipv6 :: bool
  sv_ipv6_only :: bool
  sv_port :: u16
  sv_clear_interval :: int
  sv_flush_interval :: int
  sv_conns :: "nat \<rightharpoonup> conn"
  sv_tracker :: tracker

section \<open>Sockets\<close>

text \<open>
  The system calls of the constructors, in order, with their arguments. A call is reported as
  failed or not by the operating system, a parameter; the first failure throws. Both address
  structures hold the wildcard address; the port is stored in network byte order.
\<close>

datatype family = PF_INET | PF_INET6

record sockaddr =
  sa_family :: family
  sa_port :: "u8 list"

datatype syscall = Socket family | Reuse_address | V6_only | Bind sockaddr | Listen nat

definition htons :: "u16 \<Rightarrow> u8 list" where
  "htons p = [ucast (drop_bit 8 p), ucast p]"

definition setSocketOptions :: "syscall list" where
  "setSocketOptions = [Reuse_address]"

definition setSocketOptions6 :: "bool \<Rightarrow> syscall list" where
  "setSocketOptions6 IPv6Only = setSocketOptions @ (if IPv6Only then [V6_only] else [])"

definition server_init :: "family \<Rightarrow> syscall list \<Rightarrow> sockaddr \<Rightarrow> syscall list" where
  "server_init domain options address = [Socket domain] @ options @ [Bind address, Listen 1]"

definition serverIPv4 :: "u16 \<Rightarrow> syscall list" where
  "serverIPv4 p = server_init PF_INET setSocketOptions \<lparr>sa_family = PF_INET, sa_port = htons p\<rparr>"

definition serverIPv6 :: "u16 \<Rightarrow> bool \<Rightarrow> syscall list" where
  "serverIPv6 p IPv6Only =
    server_init PF_INET6 (setSocketOptions6 IPv6Only) \<lparr>sa_family = PF_INET6, sa_port = htons p\<rparr>"

fun run_calls :: "(syscall \<Rightarrow> bool) \<Rightarrow> syscall list \<Rightarrow> unit res" where
  "run_calls ok [] = Inr ()"
| "run_calls ok (c # cs) = (if ok c then run_calls ok cs else Inl System_error)"

text \<open>
  Which server \<open>main\<close> constructs (the port is converted to \<open>uint16_t\<close>), and the server once
  the calls succeeded, with the timers of \<open>Server::init\<close>.
\<close>

definition server_calls :: "config \<Rightarrow> syscall list" where
  "server_calls cfg =
    (let p = word_of_int (getInt cfg ''port''); ipv6 = get cfg ''ipv6''
     in if ipv6 = ''no'' then serverIPv4 p else serverIPv6 p (ipv6 = ''only''))"

definition start_server :: "config \<Rightarrow> tracker \<Rightarrow> server" where
  "start_server cfg s =
    \<lparr>sv_ipv6 = (get cfg ''ipv6'' \<noteq> ''no''), sv_ipv6_only = (get cfg ''ipv6'' = ''only''),
     sv_port = word_of_int (getInt cfg ''port''),
     sv_clear_interval = getInt cfg ''clear_peers_interval'',
     sv_flush_interval = getInt cfg ''flush_records_interval'',
     sv_conns = Map.empty, sv_tracker = s\<rparr>"

section \<open>The main program\<close>

text \<open>
  The body of the \<open>try\<close> block of \<open>main\<close> up to the event loop: the server first, then the
  request handler, which loads the database unless the tracker is public.
\<close>

definition start :: "(syscall \<Rightarrow> bool) \<Rightarrow> config \<Rightarrow> mysql \<Rightarrow> server res" where
  "start ok cfg my =
    bindE (run_calls ok (server_calls cfg)) (\<lambda>_.
    bindE (if get cfg ''type'' \<noteq> ''public'' then init cfg my empty_tracker else Inr ([], empty_tracker)) (\<lambda>(sent, s).
      Inr (start_server cfg s)))"

text \<open>
  \<open>main\<close>: the usage message with exit code 1, an exception that is logged before exit code 0,
  or the event loop over a configuration and a server. \<open>files\<close> is the file system.
\<close>

datatype outcome = Exit nat | Undefined undefined_behaviour | Event_loop config server

definition main_program ::
  "(char \<times> string) list \<Rightarrow> (string \<Rightarrow> string option) \<Rightarrow> (syscall \<Rightarrow> bool) \<Rightarrow> mysql \<Rightarrow> outcome" where
  "main_program opts files ok my =
    (case main_options opts of
       None \<Rightarrow> Exit 1
     | Some (configFile, logLevel) \<Rightarrow>
         (case bindE (load default_config (files configFile)) (\<lambda>cfg.
                 bindE (start ok cfg my) (\<lambda>sv. Inr (Event_loop cfg sv))) of
            Inr r \<Rightarrow> r
          | Inl (UB u) \<Rightarrow> Undefined u
          | Inl _ \<Rightarrow> Exit 0))"

text \<open>The signal handler: what \<open>stop\<close> does, then exit code 0.\<close>

definition signal_handler :: "config \<Rightarrow> mysql \<Rightarrow> server \<Rightarrow> string list \<times> server \<times> outcome" where
  "signal_handler cfg my sv =
    (let (sent, s) = stop cfg my (sv_tracker sv) in (sent, sv\<lparr>sv_tracker := s\<rparr>, Exit 0))"

section \<open>Clients\<close>

text \<open>
  \<open>Accept\<close> carries the results of \<open>accept\<close>, of \<open>fcntl\<close> and of \<open>getpeername\<close>/\<open>inet_ntop\<close>;
  an exception of the constructor is caught and logged.
\<close>

definition acceptClient :: "nat option \<Rightarrow> bool \<Rightarrow> string option \<Rightarrow> server \<Rightarrow> server" where
  "acceptClient responseSock nonblocking name sv =
    (case responseSock of None \<Rightarrow> sv
     | Some fd \<Rightarrow>
         (case new_connection (sv_ipv6 sv) nonblocking name of
            Inl _ \<Rightarrow> sv
          | Inr c \<Rightarrow> sv\<lparr>sv_conns := (sv_conns sv)(fd \<mapsto> c)\<rparr>))"

datatype io_event = Readable env "string option" | Writable "nat option" | Timed_out

datatype server_event =
    Accept "nat option" bool "string option"
  | Connection nat io_event
  | Tracker tracker_event
  | Show_stats

text \<open>A callback runs only while its watcher is active; a destroyed connection is gone.\<close>

definition store_conn :: "nat \<Rightarrow> conn \<Rightarrow> tracker \<Rightarrow> server \<Rightarrow> server" where
  "store_conn fd c s sv =
    sv\<lparr>sv_conns := (if c_open c then (sv_conns sv)(fd \<mapsto> c) else fm_erase fd (sv_conns sv)), sv_tracker := s\<rparr>"

definition conn_event ::
  "config \<Rightarrow> (string \<rightharpoonup> string list) \<Rightarrow> io_event \<Rightarrow> conn \<times> tracker \<Rightarrow> (conn \<times> tracker) res" where
  "conn_event cfg required ev x =
    (let (c, s) = x in
     case ev of
       Readable e buffer \<Rightarrow> if c_reading c then readRequest e cfg required buffer (c, s) else Inr (c, s)
     | Writable r \<Rightarrow> Inr (if c_writing c then snd (writeResponse r c) else c, s)
     | Timed_out \<Rightarrow> Inr (if c_timer c then timeout c else c, s))"

fun server_step ::
  "config \<Rightarrow> (string \<rightharpoonup> string list) \<Rightarrow> server_event \<Rightarrow> server \<Rightarrow> server res" where
  "server_step cfg required (Accept responseSock nonblocking name) sv = Inr (acceptClient responseSock nonblocking name sv)"
| "server_step cfg required (Connection fd ev) sv =
     (case sv_conns sv fd of None \<Rightarrow> Inr sv
      | Some c \<Rightarrow> bindE (conn_event cfg required ev (c, sv_tracker sv)) (\<lambda>(c', s'). Inr (store_conn fd c' s' sv)))"
| "server_step cfg required (Tracker ev) sv =
     bindE (tracker_step cfg required ev (sv_tracker sv)) (\<lambda>s'. Inr (sv\<lparr>sv_tracker := s'\<rparr>))"
| "server_step cfg required Show_stats sv =
     Inr (sv\<lparr>sv_tracker := (sv_tracker sv)\<lparr>statistics := snd (show_stats (statistics (sv_tracker sv)))\<rparr>\<rparr>)"

section \<open>Invariant\<close>

fun io_ok :: "io_event \<Rightarrow> bool" where
  "io_ok (Readable e b) = pton_ok (e_pton e)"
| "io_ok _ = True"

text \<open>What the system calls guarantee; \<open>send\<close> is bounded by the reply it is given.\<close>

definition send_bounded :: "server \<Rightarrow> server_event \<Rightarrow> bool" where
  "send_bounded sv ev = (case ev of Connection fd (Writable (Some n)) \<Rightarrow>
     (case sv_conns sv fd of Some c \<Rightarrow> n \<le> to_send c | None \<Rightarrow> True) | _ \<Rightarrow> True)"

fun server_event_ok :: "server_event \<Rightarrow> bool" where
  "server_event_ok (Connection fd ev) = io_ok ev"
| "server_event_ok (Tracker ev) = event_ok ev"
| "server_event_ok _ = True"

definition server_ok :: "config \<Rightarrow> server \<Rightarrow> bool" where
  "server_ok cfg sv \<longleftrightarrow> tracker_ok cfg (sv_tracker sv) \<and>
    (\<forall>fd c. sv_conns sv fd = Some c \<longrightarrow> conn_ok cfg c \<and> c_open c)"

text \<open>A step in which \<open>send\<close> takes more than it was given does not happen.\<close>

definition bounded_step ::
  "config \<Rightarrow> (string \<rightharpoonup> string list) \<Rightarrow> server_event \<Rightarrow> server \<Rightarrow> server res" where
  "bounded_step cfg required ev sv = (if send_bounded sv ev then server_step cfg required ev sv else Inr sv)"

lemma start_ok: "start ok cfg my = Inr sv \<Longrightarrow> server_ok cfg sv"
  by (auto simp: start_def start_server_def server_ok_def split: if_splits dest: init_ok)

lemma main_program_loop:
  "main_program opts files ok my = Event_loop cfg sv \<longleftrightarrow>
    (\<exists>configFile logLevel. main_options opts = Some (configFile, logLevel) \<and>
      load default_config (files configFile) = Inr cfg \<and> start ok cfg my = Inr sv)"
proof (cases "main_options opts")
  case (Some fl)
  obtain f l where fl: "fl = (f, l)" by (cases fl)
  let ?r = "bindE (load default_config (files f)) (\<lambda>cfg. bindE (start ok cfg my) (\<lambda>sv. Inr (Event_loop cfg sv)))"
  have "main_program opts files ok my = Event_loop cfg sv \<longleftrightarrow> ?r = Inr (Event_loop cfg sv)"
    using Some fl by (cases ?r) (auto simp: main_program_def split: exn.splits)
  with Some fl show ?thesis by (auto simp: bindE_Inr_iff)
qed (simp add: main_program_def)

lemma run_calls_Inr: "run_calls ok cs = (if \<forall>c \<in> set cs. ok c then Inr () else Inl System_error)"
  by (induction cs) auto

lemma conn_event_ok [keeps]:
  assumes "conn_event cfg required ev (c, s) = Inr (c', s')" and "io_ok ev" and "conn_ok cfg c" and "tracker_ok cfg s"
    and "\<forall>n. ev = Writable (Some n) \<longrightarrow> n \<le> to_send c"
  shows "conn_ok cfg c' \<and> tracker_ok cfg s'"
proof (cases ev)
  case (Readable e b)
  with assms show ?thesis
    by (auto simp: conn_event_def split: if_splits dest: readRequest_ok readRequest_keeps)
next
  case (Writable r)
  obtain out c1 where w: "writeResponse r c = (out, c1)" by (cases "writeResponse r c")
  have "c_writing c \<Longrightarrow> conn_ok cfg c1"
    by (rule writeResponse_ok [OF w assms(3)]) (use Writable assms(5) in \<open>auto simp: to_send_def\<close>)
  with w Writable assms show ?thesis by (auto simp: conn_event_def split: if_splits)
next
  case Timed_out
  with assms show ?thesis by (auto simp: conn_event_def timeout_def destroy_ok split: if_splits)
qed

lemma store_conn_ok:
  "server_ok cfg sv \<Longrightarrow> conn_ok cfg c \<Longrightarrow> tracker_ok cfg s \<Longrightarrow> server_ok cfg (store_conn fd c s sv)"
  by (auto simp: server_ok_def store_conn_def split: if_splits)

lemma server_step_ok:
  assumes "server_step cfg required ev sv = Inr sv'" and "server_ok cfg sv" and "server_event_ok ev"
    and "send_bounded sv ev"
  shows "server_ok cfg sv'"
proof (cases ev)
  case (Accept responseSock nonblocking name)
  with assms show ?thesis
    by (auto simp: acceptClient_def server_ok_def split: option.splits sum.splits if_splits dest: new_connection_ok)
next
  case (Connection fd io)
  show ?thesis
  proof (cases "sv_conns sv fd")
    case None
    with assms(1,2) Connection show ?thesis by simp
  next
    case (Some c)
    with assms(1) Connection obtain c' s' where
      r: "conn_event cfg required io (c, sv_tracker sv) = Inr (c', s')" "sv' = store_conn fd c' s' sv" by auto
    have "conn_ok cfg c' \<and> tracker_ok cfg s'"
      by (rule conn_event_ok [OF r(1)])
        (use assms(2-4) Connection Some in \<open>auto simp: server_ok_def send_bounded_def\<close>)
    with r(2) assms(2) show ?thesis by (simp add: store_conn_ok)
  qed
next
  case (Tracker tev)
  with assms show ?thesis by (auto simp: server_ok_def dest: tracker_machine.step_keeps)
next
  case Show_stats
  with assms show ?thesis by (auto simp: server_ok_def)
qed

interpretation server_machine: invariant_machine "bounded_step cfg required" server_event_ok "server_ok cfg"
  for cfg :: config and required :: "string \<rightharpoonup> string list"
  by unfold_locales (auto simp: bounded_step_def split: if_splits intro: server_step_ok)

section \<open>Properties\<close>

text \<open>C3: The server never leaves its invariant: from the state \<open>main\<close> builds, whatever
  sequence of accepted clients, socket events, timers and finished database workers follows
  and as long as nothing throws, every open connection is in a consistent state, every peer
  is stored under its own id with a compact address of the right size, every account pointer
  of the passkey table and, on a private tracker, of every peer is valid, and the torrent
  table is sorted without duplicates.\<close>

theorem server_runs_keep_invariant:
  assumes "main_program opts files ok my = Event_loop cfg sv" and "list_all server_event_ok evs"
    and "runE (bounded_step cfg required) evs sv = Inr sv'"
  shows "server_ok cfg sv'"
proof -
  have "start ok cfg my = Inr sv" using assms(1) by (auto simp: main_program_loop)
  then show ?thesis by (rule server_machine.run_keeps [OF start_ok assms(2,3)])
qed

definition bans_only :: mysql where
  "bans_only = sample_mysql [(bans_query default_config, [[Some ''1'', Some ''3'']])]"

definition sample_server :: server where
  "sample_server = start_server default_config (empty_tracker\<lparr>bannedIPs := ip_range insert 1 3 {}\<rparr>)"

lemma default_first_columns:
  "get default_config ''DB_IPBans_FromIP'' = ''FromIP''" "get default_config ''DB_Torrents_ID'' = ''ID''"
  "get default_config ''DB_Whitelist_PeerID'' = ''peer_id''"
  by (simp_all add: get_def default_config_def default_vars_def)

lemma bans_only_queries:
  "my_query bans_only (bans_query default_config) = Some [[Some ''1'', Some ''3'']]"
  "my_query bans_only (torrents_query default_config) = None" "my_query bans_only (whitelist_query default_config) = None"
  "my_query bans_only (users_query default_config) = None" "my_query bans_only (leech_query default_config) = None"
  by (simp_all add: bans_only_def sample_mysql_def bans_query_def torrents_query_def whitelist_query_def users_query_def
      leech_query_def default_first_columns default_names)

lemma start_sample: "start (\<lambda>_. True) default_config bans_only = Inr sample_server"
  by (simp add: start_def run_calls_Inr init_def loadTorrents_def loadBannedIPs_def loadClientWhitelist_def
      loadUsers_def loadLeechStatus_def bans_only_queries load_ban_def cell_number_def cell_def stoul_def
      scan_number_def isspace_def isdigit_iff read_digits_def digit_value_def sample_server_def empty_tracker_def)

lemma main_sample: "main_program [] (\<lambda>_. None) (\<lambda>_. True) bans_only = Event_loop default_config sample_server"
  by (simp add: main_program_loop main_options_def load_def start_sample)

lemma run_sample:
  "\<exists>sv. runE (bounded_step default_config required)
    [Accept (Some 3) True (Some ''10.0.0.1''), Tracker (Clear_peers 100), Tracker Flush_records, Connection 3 Timed_out]
    sample_server = Inr sv"
  by (simp add: bounded_step_def send_bounded_def acceptClient_def new_connection_def peer_info_def sample_server_def
      start_server_def empty_tracker_def clearTorrentPeers_def conn_event_def store_conn_def timeout_def destroy_def
      flushSqlRecords_def split: option.splits)

lemma server_runs_keep_invariant_witness: "\<exists>sv. server_ok default_config sv"
proof -
  obtain sv where "runE (bounded_step default_config required)
    [Accept (Some 3) True (Some ''10.0.0.1''), Tracker (Clear_peers 100), Tracker Flush_records, Connection 3 Timed_out]
    sample_server = Inr sv" using run_sample by blast
  from server_runs_keep_invariant [OF main_sample _ this] show ?thesis by auto
qed

text \<open>Every option is \<open>-c\<close>, or \<open>-v\<close> with a level \<open>stoul\<close> reads that is at most 2 modulo \<open>2^32\<close>.\<close>

definition options_valid :: "(char \<times> string) list \<Rightarrow> bool" where
  "options_valid opts \<longleftrightarrow> (\<forall>(opt, optarg) \<in> set opts. opt = CHR ''c'' \<or>
    opt = CHR ''v'' \<and> (case stoul optarg of Inr n \<Rightarrow> unat n mod 2 ^ 32 \<le> 2 | Inl _ \<Rightarrow> False))"

text \<open>The file named last, or the default.\<close>

definition file_chosen :: "(char \<times> string) list \<Rightarrow> string" where
  "file_chosen opts = last (''liquid.conf'' # [optarg. (opt, optarg) \<leftarrow> opts, opt = CHR ''c''])"

text \<open>
  What the operating system has to grant: a socket of the family, its options, the address
  with the two bytes of the port, the high byte first, and a listener.
\<close>

definition granted :: "(syscall \<Rightarrow> bool) \<Rightarrow> config \<Rightarrow> bool" where
  "granted ok cfg \<longleftrightarrow>
    (let domain = (if get cfg ''ipv6'' = ''no'' then PF_INET else PF_INET6); p = getInt cfg ''port'' mod 65536
     in ok (Socket domain) \<and> ok Reuse_address \<and> (get cfg ''ipv6'' = ''only'' \<longrightarrow> ok V6_only) \<and>
        ok (Bind \<lparr>sa_family = domain, sa_port = [word_of_int (p div 256), word_of_int (p mod 256)]\<rparr>) \<and> ok (Listen 1))"

lemma htons_bytes: "htons (word_of_int n) = [word_of_int (n mod 65536 div 256), word_of_int (n mod 65536 mod 256)]"
proof -
  have "(ucast (drop_bit 8 (word_of_int n :: u16)) :: u8) = word_of_int (n mod 65536 div 256)"
    by (rule word_uint_eq_iff [THEN iffD2])
      (simp add: uint_word_of_int unsigned_ucast_eq take_bit_eq_mod drop_bit_eq_div uint_div)
  moreover have "(ucast (word_of_int n :: u16) :: u8) = word_of_int (n mod 65536 mod 256)"
    by (rule word_uint_eq_iff [THEN iffD2]) (simp add: uint_word_of_int ucast_eq)
  ultimately show ?thesis by (simp add: htons_def)
qed

lemma server_calls_granted: "(\<forall>c \<in> set (server_calls cfg). ok c) \<longleftrightarrow> granted ok cfg"
  by (auto simp: server_calls_def granted_def serverIPv4_def serverIPv6_def server_init_def setSocketOptions_def
      setSocketOptions6_def Let_def htons_bytes)

lemma read_options_None: "read_options opts st = None \<longleftrightarrow> \<not> options_valid opts"
  by (induction opts st rule: read_options.induct)
    (auto simp: options_valid_def word_le_nat_alt unsigned_ucast_eq take_bit_eq_mod split: sum.splits)

lemma read_options_file: "read_options opts (f, l) = Some (g, l') \<Longrightarrow>
    g = last (f # [optarg. (opt, optarg) \<leftarrow> opts, opt = CHR ''c''])"
  by (induction opts "(f, l)" arbitrary: f l rule: read_options.induct) (auto split: if_splits sum.splits)

lemma main_options_cases:
  "main_options opts = None \<longleftrightarrow> \<not> options_valid opts"
  "main_options opts = Some (f, l) \<Longrightarrow> options_valid opts \<and> f = file_chosen opts"
  using read_options_None [of opts "(''liquid.conf'', 0)"] read_options_file [of opts "''liquid.conf''" 0 f l]
  by (auto simp: main_options_def file_chosen_def)

lemma start_granted: "start ok cfg my =
    (if granted ok cfg then bindE (if is_public cfg then Inr ([], empty_tracker) else init cfg my empty_tracker)
       (\<lambda>(sent, s). Inr (start_server cfg s)) else Inl System_error)"
  by (simp add: start_def run_calls_Inr server_calls_granted is_public_def)

text \<open>C26: What \<open>main\<close> needs to reach its event loop and how it ends otherwise. The event loop is
  reached if and only if every option is valid; the configuration file (the one named last, or
  the default) loads; the operating system grants a socket of the configured family, its
  options, the configured port modulo \<open>2^16\<close> with its high byte first, and a listener; and,
  unless the tracker is public, the database loads. The server then has that port, the two
  configured intervals, no connection and the tracker that was loaded. The program ends with code
  1 exactly on invalid options. Loading has undefined behaviour exactly when reading the file or
  the database has. In every other case the program ends with code 0.\<close>

theorem main_starts_or_exits:
  "(main_program opts files ok my = Event_loop cfg sv \<longleftrightarrow>
      options_valid opts \<and> load default_config (files (file_chosen opts)) = Inr cfg \<and> granted ok cfg \<and>
      (\<exists>s. (if is_public cfg then s = empty_tracker else \<exists>sent. init cfg my empty_tracker = Inr (sent, s)) \<and>
        sv = \<lparr>sv_ipv6 = (get cfg ''ipv6'' \<noteq> ''no''), sv_ipv6_only = (get cfg ''ipv6'' = ''only''),
          sv_port = word_of_int (getInt cfg ''port''), sv_clear_interval = getInt cfg ''clear_peers_interval'',
          sv_flush_interval = getInt cfg ''flush_records_interval'', sv_conns = Map.empty, sv_tracker = s\<rparr>)) \<and>
    (main_program opts files ok my = Exit 1 \<longleftrightarrow> \<not> options_valid opts) \<and>
    (main_program opts files ok my = Undefined u \<longleftrightarrow> options_valid opts \<and>
      (load default_config (files (file_chosen opts)) = Inl (UB u) \<or>
       (\<exists>cfg. load default_config (files (file_chosen opts)) = Inr cfg \<and> granted ok cfg \<and>
         \<not> is_public cfg \<and> init cfg my empty_tracker = Inl (UB u)))) \<and>
    (main_program opts files ok my = Exit n \<longrightarrow> n = 0 \<or> n = 1)"
proof (cases "main_options opts")
  case None
  then show ?thesis using main_options_cases(1) [of opts] by (simp add: main_program_def)
next
  case (Some fl)
  obtain l where fl: "fl = (file_chosen opts, l)" and valid: "options_valid opts"
    using main_options_cases(2) [of opts] Some by (cases fl) auto
  show ?thesis
  proof (cases "load default_config (files (file_chosen opts))")
    case (Inl x)
    with Some fl valid show ?thesis by (cases x) (simp_all add: main_program_def)
  next
    case (Inr c)
    have m: "main_program opts files ok my =
      (case start ok c my of Inr sv \<Rightarrow> Event_loop c sv | Inl (UB u) \<Rightarrow> Undefined u | Inl _ \<Rightarrow> Exit 0)"
      using Some fl Inr by (cases "start ok c my") (simp_all add: main_program_def)
    show ?thesis
      unfolding m start_granted
      by (cases "init c my empty_tracker") (auto simp: Inr valid start_server_def split: exn.splits if_splits)
  qed
qed

lemma main_starts_or_exits_witness:
  "main_program [(CHR ''v'', ''3'')] (\<lambda>_. None) (\<lambda>_. True) bans_only = Exit 1 \<and>
    main_program [] (\<lambda>_. None) (\<lambda>c. c \<noteq> Bind \<lparr>sa_family = PF_INET, sa_port = [10, 150]\<rparr>) bans_only \<noteq>
      Event_loop default_config sample_server \<and>
    main_program [] (\<lambda>_. None) (\<lambda>_. True) bans_only \<noteq> Exit 2"
proof -
  have "\<not> options_valid [(CHR ''v'', ''3'')]"
    by (simp add: options_valid_def stoul_def scan_number_def isspace_def isdigit_iff read_digits_def digit_value_def)
  moreover have "getInt default_config ''port'' = 2710"
    by (rule getInt_reads [of _ _ "''2710''" True])
      (simp_all add: default_config_def default_vars_def stoi_def scan_number_def isspace_def isdigit_iff read_digits_def
        digit_value_def)
  moreover have "get default_config ''ipv6'' = ''no''" by (simp add: get_def default_config_def default_vars_def)
  ultimately show ?thesis
    using main_starts_or_exits [of "[(CHR ''v'', ''3'')]" "\<lambda>_. None" "\<lambda>_. True" bans_only default_config sample_server]
      main_starts_or_exits [of "[]" "\<lambda>_. None" "\<lambda>c. c \<noteq> Bind \<lparr>sa_family = PF_INET, sa_port = [10, 150]\<rparr>" bans_only
        default_config sample_server]
      main_starts_or_exits [of "[]" "\<lambda>_. None" "\<lambda>_. True" bans_only default_config sample_server _ 2]
    by (simp add: granted_def options_valid_def file_chosen_def load_def)
qed

end
