(* ===== verification/Gzip.thy ===== *)
theory Gzip
  imports CppStd
begin

text \<open>
  \<open>Utility::gzip_compress\<close> of src/misc/utility.cpp, which no other code calls. zlib is a
  parameter: \<open>start\<close> is the stream \<open>deflateInit2\<close> sets up for an input, and \<open>deflate\<close> says
  for a stream and the size of the buffer whether \<open>Z_OK\<close> was returned, which bytes were
  written, and the stream afterwards. The loop of the code ends only when zlib ends the
  stream, so it may not return; it does for every stream that ends.
\<close>

definition CHUNK :: nat where
  "CHUNK = 32768"

text \<open>\<open>total_out\<close> is \<open>zs.total_out\<close>; \<open>append(out, n)\<close> takes the first \<open>n\<close> bytes of the buffer.\<close>

partial_function (option) gzip_loop ::
  "('z \<Rightarrow> nat \<Rightarrow> bool \<times> string \<times> 'z) \<Rightarrow> 'z \<Rightarrow> nat \<Rightarrow> string \<Rightarrow> string option" where
  "gzip_loop deflate z total_out result =
    (case deflate z CHUNK of (more, out, z') \<Rightarrow>
       let total_out' = total_out + length out;
           result' = (if length result < total_out' then result @ take (total_out' - length result) out else result)
       in if more then gzip_loop deflate z' total_out' result' else Some result')"

definition gzip_compress ::
  "(string \<Rightarrow> 'z) \<Rightarrow> ('z \<Rightarrow> nat \<Rightarrow> bool \<times> string \<times> 'z) \<Rightarrow> string \<Rightarrow> string option" where
  "gzip_compress start deflate input = gzip_loop deflate (start input) 0 ''''"

text \<open>A stream that delivers the pieces of a list and then ends.\<close>

fun delivers :: "('z \<Rightarrow> nat \<Rightarrow> bool \<times> string \<times> 'z) \<Rightarrow> 'z \<Rightarrow> string list \<Rightarrow> bool" where
  "delivers deflate z [] \<longleftrightarrow> False"
| "delivers deflate z [c] \<longleftrightarrow> (\<exists>z'. deflate z CHUNK = (False, c, z'))"
| "delivers deflate z (c # d # cs) \<longleftrightarrow> (\<exists>z'. deflate z CHUNK = (True, c, z') \<and> delivers deflate z' (d # cs))"

lemma gzip_loop_delivers:
  "delivers deflate z cs \<Longrightarrow> gzip_loop deflate z (length result) result = Some (result @ concat cs)"
proof (induction cs arbitrary: z result)
  case (Cons c cs)
  show ?case
  proof (cases cs)
    case Nil
    with Cons.prems show ?thesis by (cases "c = []") (auto simp: gzip_loop.simps [of deflate z] Let_def)
  next
    case (Cons d ds)
    with Cons.prems obtain z' where z': "deflate z CHUNK = (True, c, z')" "delivers deflate z' cs" by auto
    with Cons.IH [OF z'(2), of "result @ c"] show ?thesis
      by (cases "c = []") (simp_all add: gzip_loop.simps [of deflate z] Let_def)
  qed
qed simp

section \<open>Properties\<close>

text \<open>The compressor returns for every stream zlib ends, with all the bytes of the stream in
  order, however they are split over the calls.\<close>

theorem gzip_collects_stream:
  assumes "delivers deflate (start input) cs"
  shows "gzip_compress start deflate input = Some (concat cs)"
  using gzip_loop_delivers [OF assms, of "''''"] by (simp add: gzip_compress_def)

text \<open>A stream that stores the input and hands it out in buffers of the given size.\<close>

definition stored :: "string \<Rightarrow> nat \<Rightarrow> bool \<times> string \<times> string" where
  "stored z n = (length z > n, take n z, drop n z)"

lemma gzip_collects_stream_witness: "gzip_compress (\<lambda>input. input) stored ''data'' = Some ''data''"
  using gzip_collects_stream [of stored "\<lambda>input. input" "''data''" "[''data'']"] by (simp add: stored_def CHUNK_def)

end
