(* ===== verification/Workers.thy ===== *)
theory Workers
  imports Database
begin

text \<open>
  The database workers of src/database/mysql.cpp beside the event loop. \<open>flush\<close> starts a
  detached thread per table; \<open>doFlushRecords\<close> runs under \<open>sqlLock\<close>, so one worker at a time
  walks its list, while the event loop, which takes no lock, goes on appending to the same
  lists. A step is one operation on a list: the event loop records a row, appends a
  statement, or starts a worker; the worker that holds the lock sends the statement under
  its iterator and erases or skips it. Unsynchronised list operations are taken to happen one
  after the other, which the code does not guarantee.
\<close>

section \<open>Flushing in two steps\<close>

definition new_statements :: "config \<Rightarrow> table \<Rightarrow> db \<Rightarrow> string list" where
  "new_statements cfg t d = (if requests d t \<noteq> [] then [statement (table_sql cfg t) (requests d t)] else [])"

definition queue_statement :: "config \<Rightarrow> table \<Rightarrow> db \<Rightarrow> db" where
  "queue_statement cfg t d =
    d\<lparr>records := (records d)(t := records d t @ new_statements cfg t d), requests := (requests d)(t := [])\<rparr>"

definition start_worker :: "table \<Rightarrow> db \<Rightarrow> db" where
  "start_worker t d = (if records d t \<noteq> [] then d\<lparr>threads := threads d @ [t]\<rparr> else d)"

lemma flush_table_steps: "flush_table t (table_sql cfg t) d = start_worker t (queue_statement cfg t d)"
  by (simp add: flush_table_def start_worker_def queue_statement_def new_statements_def fun_upd_idem)

section \<open>The machine\<close>

text \<open>
  An iterator is the position of its node, which stays valid because only the worker erases
  and the event loop only appends; \<open>Past_end\<close> is the end of the list, which stays the end when
  a node is appended.
\<close>

datatype position = Node nat | Past_end

definition position_at :: "nat \<Rightarrow> string list \<Rightarrow> position" where
  "position_at n q = (if n < length q then Node n else Past_end)"

record machine =
  m_db :: db
  m_lock :: "(table \<times> position) option"
  m_flushing :: "table option"

datatype action =
    Record table string | Queue table "string list" | Start table
  | Acquire table | Sent table string | Refused table string | Release table

definition erase_record :: "table \<Rightarrow> nat \<Rightarrow> db \<Rightarrow> db" where
  "erase_record t n d = d\<lparr>records := (records d)(t := take n (records d t) @ drop (Suc n) (records d t))\<rparr>"

inductive worker_step :: "config \<Rightarrow> machine \<Rightarrow> action \<Rightarrow> machine \<Rightarrow> bool" for cfg where
  record_row: "m_flushing m = None \<Longrightarrow>
    worker_step cfg m (Record t row) (m\<lparr>m_db := push_request t row (m_db m)\<rparr>)"
| queue: "m_flushing m = None \<Longrightarrow>
    worker_step cfg m (Queue t (new_statements cfg t (m_db m)))
      (m\<lparr>m_db := queue_statement cfg t (m_db m), m_flushing := Some t\<rparr>)"
| start_thread: "m_flushing m = Some t \<Longrightarrow>
    worker_step cfg m (Start t) (m\<lparr>m_db := start_worker t (m_db m), m_flushing := None\<rparr>)"
| acquire: "m_lock m = None \<Longrightarrow> t \<in> set (threads (m_db m)) \<Longrightarrow>
    worker_step cfg m (Acquire t)
      (m\<lparr>m_db := (m_db m)\<lparr>threads := remove1 t (threads (m_db m))\<rparr>,
        m_lock := Some (t, position_at 0 (records (m_db m) t))\<rparr>)"
| sent: "m_lock m = Some (t, Node n) \<Longrightarrow> n < length (records (m_db m) t) \<Longrightarrow>
    worker_step cfg m (Sent t (records (m_db m) t ! n))
      (m\<lparr>m_db := erase_record t n (m_db m),
        m_lock := Some (t, position_at n (records (erase_record t n (m_db m)) t))\<rparr>)"
| refused: "m_lock m = Some (t, Node n) \<Longrightarrow> n < length (records (m_db m) t) \<Longrightarrow>
    worker_step cfg m (Refused t (records (m_db m) t ! n))
      (m\<lparr>m_lock := Some (t, position_at (Suc n) (records (m_db m) t))\<rparr>)"
| release: "m_lock m = Some (t, Past_end) \<Longrightarrow> worker_step cfg m (Release t) (m\<lparr>m_lock := None\<rparr>)"

inductive worker_run :: "config \<Rightarrow> machine \<Rightarrow> action list \<Rightarrow> machine \<Rightarrow> bool" for cfg m where
  none: "worker_run cfg m [] m"
| more: "worker_run cfg m as m' \<Longrightarrow> worker_step cfg m' a m'' \<Longrightarrow> worker_run cfg m (as @ [a]) m''"

text \<open>What a run queued and what the database executed, per table and in order.\<close>

fun queued_by :: "table \<Rightarrow> action \<Rightarrow> string list" where
  "queued_by t (Queue t' qs) = (if t' = t then qs else [])"
| "queued_by t _ = []"

fun sent_by :: "table \<Rightarrow> action \<Rightarrow> string list" where
  "sent_by t (Sent t' q) = (if t' = t then [q] else [])"
| "sent_by t _ = []"

fun is_refusal :: "action \<Rightarrow> bool" where
  "is_refusal (Refused t q) = True"
| "is_refusal _ = False"

definition queued_in :: "table \<Rightarrow> action list \<Rightarrow> string list" where
  "queued_in t as = concat (map (queued_by t) as)"

definition sent_in :: "table \<Rightarrow> action list \<Rightarrow> string list" where
  "sent_in t as = concat (map (sent_by t) as)"

lemma in_simps [simp]:
  "queued_in t [] = []" "queued_in t (as @ bs) = queued_in t as @ queued_in t bs"
  "sent_in t [] = []" "sent_in t (as @ bs) = sent_in t as @ sent_in t bs"
  "queued_in t (a # as) = queued_by t a @ queued_in t as" "sent_in t (a # as) = sent_by t a @ sent_in t as"
  by (simp_all add: queued_in_def sent_in_def)

lemma worker_db_simps [simp]:
  "records (queue_statement cfg t d) t' = records d t' @ (if t' = t then new_statements cfg t d else [])"
  "threads (queue_statement cfg t d) = threads d"
  "records (start_worker t d) = records d"
  "records (push_request t row d) = records d" "threads (push_request t row d) = threads d"
  "records (erase_record t n d) t' = (if t' = t then take n (records d t) @ drop (Suc n) (records d t) else records d t')"
  "threads (erase_record t n d) = threads d"
  by (simp_all add: queue_statement_def start_worker_def push_request_def erase_record_def)

lemma set_threads_start: "set (threads (start_worker t d)) = set (threads d) \<union> (if records d t \<noteq> [] then {t} else {})"
  by (simp add: start_worker_def)

section \<open>Conservation\<close>

lemma mset_erase: "n < length q \<Longrightarrow> add_mset (q ! n) (mset (take n q @ drop (Suc n) q)) = mset q"
proof -
  assume "n < length q"
  then have "q = take n q @ q ! n # drop (Suc n) q" by (rule id_take_nth_drop)
  then have "mset q = mset (take n q @ q ! n # drop (Suc n) q)" by simp
  then show ?thesis by simp
qed

lemma step_conserves:
  assumes "worker_step cfg m a m'"
  shows "mset (records (m_db m) t) + mset (queued_by t a) = mset (sent_by t a) + mset (records (m_db m') t)"
  using assms
proof cases
  case (sent t' n)
  then show ?thesis using mset_erase [of n "records (m_db m) t'"] by auto
qed auto

lemma run_conserves:
  "worker_run cfg m as m' \<Longrightarrow>
    mset (records (m_db m) t) + mset (queued_in t as) = mset (sent_in t as) + mset (records (m_db m') t)"
proof (induction rule: worker_run.induct)
  case (more as m' a m'')
  let ?r = "\<lambda>m. mset (records (m_db m) t)"
  have "?r m + mset (queued_in t (as @ [a])) = (?r m + mset (queued_in t as)) + mset (queued_by t a)"
    by (simp add: add.assoc)
  also have "\<dots> = mset (sent_in t as) + (?r m' + mset (queued_by t a))"
    by (simp only: more.IH add.assoc)
  also have "\<dots> = mset (sent_in t (as @ [a])) + ?r m''"
    by (simp only: step_conserves [OF more.hyps(2)]) (simp add: add.assoc)
  finally show ?case .
qed simp

section \<open>Without refusals\<close>

text \<open>
  While no statement is refused, the iterator of the worker is at the first node or past the
  end, and whenever statements wait for a table somebody is about to send them.
\<close>

definition attended :: "table \<Rightarrow> machine \<Rightarrow> bool" where
  "attended t m \<longleftrightarrow> records (m_db m) t = [] \<or> t \<in> set (threads (m_db m)) \<or> m_flushing m = Some t \<or>
    (\<exists>n. m_lock m = Some (t, Node n))"

definition at_front :: "machine \<Rightarrow> bool" where
  "at_front m \<longleftrightarrow> (\<forall>t n. m_lock m = Some (t, Node n) \<longrightarrow> n = 0)"

lemma position_at_Node [simp]: "position_at n q = Node k \<longleftrightarrow> n = k \<and> n < length q"
  by (auto simp: position_at_def)

lemma position_at_Past [simp]: "position_at n q = Past_end \<longleftrightarrow> length q \<le> n"
  by (simp add: position_at_def)

lemma step_at_front:
  assumes "worker_step cfg m a m'" and "\<not> is_refusal a" and "at_front m"
  shows "at_front m'" and "records (m_db m) t @ queued_by t a = sent_by t a @ records (m_db m') t"
  using assms by (cases; auto simp: at_front_def drop_Suc neq_Nil_conv Cons_nth_drop_Suc)+

lemma step_attended:
  assumes "worker_step cfg m a m'" and "\<not> is_refusal a" and "at_front m" and "attended t m"
  shows "attended t m'"
  using assms
proof cases
  case (start_thread t')
  with assms(4) show ?thesis by (auto simp: attended_def set_threads_start)
next
  case (acquire t')
  with assms(4) show ?thesis by (cases "t' = t") (auto simp: attended_def)
next
  case (sent t' n)
  with assms(3,4) show ?thesis by (auto simp: attended_def at_front_def)
qed (auto simp: attended_def)

lemma run_fifo:
  "worker_run cfg m as m' \<Longrightarrow> \<forall>a \<in> set as. \<not> is_refusal a \<Longrightarrow> at_front m \<Longrightarrow>
    at_front m' \<and> records (m_db m) t @ queued_in t as = sent_in t as @ records (m_db m') t \<and>
    (attended t m \<longrightarrow> attended t m')"
proof (induction rule: worker_run.induct)
  case (more as m' a m'')
  then have IH: "at_front m'" "records (m_db m) t @ queued_in t as = sent_in t as @ records (m_db m') t"
    "attended t m \<longrightarrow> attended t m'" and a: "\<not> is_refusal a" by simp_all
  note s = step_at_front [OF more.hyps(2) a IH(1)] step_attended [OF more.hyps(2) a IH(1)]
  have "records (m_db m) t @ queued_in t (as @ [a]) = sent_in t (as @ [a]) @ records (m_db m'') t"
    using IH(2) s(2) [of t] by simp (metis append.assoc)
  with s(1,3) IH(3) show ?case by blast
qed simp

section \<open>A worker that is not interrupted\<close>

lemma worker_run_one: "worker_step cfg m a m' \<Longrightarrow> worker_run cfg m [a] m'"
  using worker_run.more [OF worker_run.none, of cfg m a m'] by simp

lemma worker_run_trans: "worker_run cfg m' bs m'' \<Longrightarrow> worker_run cfg m as m' \<Longrightarrow> worker_run cfg m (as @ bs) m''"
proof (induction rule: worker_run.induct)
  case (more bs k b k')
  then show ?case using worker_run.more [of cfg m "as @ bs" k b k'] by simp
qed simp

definition with_records :: "table \<Rightarrow> string list \<Rightarrow> position \<Rightarrow> machine \<Rightarrow> machine" where
  "with_records t q p m =
    m\<lparr>m_db := (m_db m)\<lparr>records := (records (m_db m))(t := q)\<rparr>, m_lock := Some (t, p)\<rparr>"

lemma with_records_simps [simp]:
  "records (m_db (with_records t q p m)) t = q" "m_lock (with_records t q p m) = Some (t, p)"
  "with_records t q p (with_records t q' p' m) = with_records t q p m"
  by (simp_all add: with_records_def)

lemma walk_sends:
  "worker_step cfg (with_records t (pre @ q # qs) (Node (length pre)) m) (Sent t q)
    (with_records t (pre @ qs) (position_at (length pre) (pre @ qs)) m)"
  using worker_step.sent [of "with_records t (pre @ q # qs) (Node (length pre)) m" t "length pre" cfg]
  by (simp add: with_records_def erase_record_def)

lemma walk_refuses:
  "worker_step cfg (with_records t (pre @ q # qs) (Node (length pre)) m) (Refused t q)
    (with_records t (pre @ q # qs) (position_at (Suc (length pre)) (pre @ q # qs)) m)"
  using worker_step.refused [of "with_records t (pre @ q # qs) (Node (length pre)) m" t "length pre" cfg]
  by (simp add: with_records_def)

lemma worker_walk:
  "doFlushRecords fails n qs = (left, sent) \<Longrightarrow>
    \<exists>as. worker_run cfg (with_records t (pre @ qs) (position_at (length pre) (pre @ qs)) m) as
        (with_records t (pre @ left) Past_end m) \<and> sent_in t as = sent"
proof (induction qs arbitrary: n pre left sent)
  case Nil
  then show ?case by (auto simp: position_at_def intro: worker_run.none exI [of _ "[]"])
next
  case (Cons q qs)
  obtain left' sent' where r: "doFlushRecords fails (Suc n) qs = (left', sent')" by fastforce
  have here: "position_at (length pre) (pre @ q # qs) = Node (length pre)" by simp
  show ?case
  proof (cases "fails n q")
    case True
    with Cons.prems r have l: "left = q # left'" "sent = sent'" by auto
    from Cons.IH [OF r, of "pre @ [q]"] obtain as where
      as: "worker_run cfg (with_records t (pre @ q # qs) (position_at (Suc (length pre)) (pre @ q # qs)) m) as
        (with_records t (pre @ q # left') Past_end m)" "sent_in t as = sent'" by auto
    show ?thesis
      unfolding here l
      by (rule exI, rule conjI, rule worker_run_trans [OF as(1) worker_run_one [OF walk_refuses]]) (simp add: as(2))
  next
    case False
    with Cons.prems r have l: "left = left'" "sent = q # sent'" by auto
    from Cons.IH [OF r, of pre] obtain as where
      as: "worker_run cfg (with_records t (pre @ qs) (position_at (length pre) (pre @ qs)) m) as
        (with_records t (pre @ left') Past_end m)" "sent_in t as = sent'" by auto
    show ?thesis
      unfolding here l
      by (rule exI, rule conjI, rule worker_run_trans [OF as(1) worker_run_one [OF walk_sends]]) (simp add: as(2))
  qed
qed

lemma uninterrupted_worker:
  assumes "m_lock m = None" and "t \<in> set (threads (m_db m))" and flush: "doFlush fails t (m_db m) = (d, sent)"
  shows "\<exists>as. worker_run cfg m as (m\<lparr>m_db := d\<lparr>threads := remove1 t (threads d)\<rparr>\<rparr>) \<and> sent_in t as = sent"
proof -
  obtain left where w: "doFlushRecords fails 0 (records (m_db m) t) = (left, sent)"
    and d: "d = (m_db m)\<lparr>records := (records (m_db m))(t := left)\<rparr>"
    using flush by (auto simp: doFlush_def split: prod.splits)
  let ?m = "m\<lparr>m_db := (m_db m)\<lparr>threads := remove1 t (threads (m_db m))\<rparr>\<rparr>"
  have start: "worker_step cfg m (Acquire t) (with_records t (records (m_db m) t) (position_at 0 (records (m_db m) t)) ?m)"
    using worker_step.acquire [OF assms(1,2), of cfg] by (simp add: with_records_def)
  from worker_walk [OF w, of cfg t "[]" ?m] obtain as where
    as: "worker_run cfg (with_records t (records (m_db m) t) (position_at 0 (records (m_db m) t)) ?m) as
      (with_records t left Past_end ?m)" "sent_in t as = sent" by auto
  have finish: "worker_step cfg (with_records t left Past_end ?m) (Release t) (m\<lparr>m_db := d\<lparr>threads := remove1 t (threads d)\<rparr>\<rparr>)"
    using worker_step.release [of "with_records t left Past_end ?m" t cfg] assms(1)
    by (cases m; cases "m_db m") (simp add: with_records_def d)
  show ?thesis
    by (rule exI, rule conjI,
        rule worker_run_trans [OF worker_run_one [OF finish] worker_run_trans [OF as(1) worker_run_one [OF start]]])
      (simp add: as(2))
qed

section \<open>Properties\<close>

text \<open>C10: However the event loop and the workers interleave and whatever statements the database
  refuses, no statement is lost and none is executed twice: counted with multiplicity,
  those that waited and those queued since are those executed and those still waiting.\<close>

theorem interleaved_workers_conserve:
  assumes "worker_run cfg m as m'"
  shows "mset (records (m_db m) t) + mset (queued_in t as) = mset (sent_in t as) + mset (records (m_db m') t)"
  using run_conserves [OF assms] .

text \<open>C11: As long as the database refuses nothing, the statements of a table are executed in the
  order they were queued, and no statement is stranded: whenever one waits, the event loop is
  about to start a worker for the table, one is started, or one holds the lock and stands at
  the list.\<close>

theorem interleaved_workers_fifo:
  assumes "worker_run cfg \<lparr>m_db = empty_db, m_lock = None, m_flushing = None\<rparr> as m'"
    and "\<forall>a \<in> set as. \<not> is_refusal a"
  shows "queued_in t as = sent_in t as @ records (m_db m') t \<and> attended t m'"
  using run_fifo [OF assms, of t] by (simp add: at_front_def attended_def empty_db_def)

text \<open>The worker of the server machine, which sends its list in one event, is one of the
  interleavings: a started worker that is not interrupted leaves the lists and has sent the
  statements that \<open>doFlush\<close> computes.\<close>

theorem atomic_worker_refines:
  assumes "m_lock m = None" and "t \<in> set (threads (m_db m))"
  shows "\<exists>as. worker_run cfg m as
      (m\<lparr>m_db := (fst (doFlush fails t (m_db m)))\<lparr>threads := remove1 t (threads (m_db m))\<rparr>\<rparr>) \<and>
    sent_in t as = snd (doFlush fails t (m_db m))"
proof -
  obtain d sent where f: "doFlush fails t (m_db m) = (d, sent)" by fastforce
  then have "threads d = threads (m_db m)" by (auto simp: doFlush_def split: prod.splits)
  with uninterrupted_worker [OF assms f] f show ?thesis by simp
qed

definition sample_machine :: machine where
  "sample_machine = \<lparr>m_db = empty_db, m_lock = None, m_flushing = None\<rparr>"

definition flushed_machine :: "string \<Rightarrow> machine" where
  "flushed_machine row = sample_machine\<lparr>m_db := start_worker Users (queue_statement default_config Users (push_request Users row empty_db))\<rparr>"

lemma flushed_run:
  "worker_run default_config sample_machine
    [Record Users row, Queue Users [statement (table_sql default_config Users) [row]], Start Users] (flushed_machine row)"
proof -
  let ?d = "push_request Users row empty_db"
  have q: "new_statements default_config Users ?d = [statement (table_sql default_config Users) [row]]"
    by (simp add: new_statements_def push_request_def empty_db_def)
  have a: "worker_step default_config sample_machine (Record Users row) (sample_machine\<lparr>m_db := ?d\<rparr>)"
    using worker_step.record_row [of sample_machine default_config Users row] by (simp add: sample_machine_def)
  have b: "worker_step default_config (sample_machine\<lparr>m_db := ?d\<rparr>)
      (Queue Users [statement (table_sql default_config Users) [row]])
      (sample_machine\<lparr>m_db := queue_statement default_config Users ?d, m_flushing := Some Users\<rparr>)"
    using worker_step.queue [of "sample_machine\<lparr>m_db := ?d\<rparr>" default_config Users] q by (simp add: sample_machine_def)
  have c: "worker_step default_config (sample_machine\<lparr>m_db := queue_statement default_config Users ?d, m_flushing := Some Users\<rparr>)
      (Start Users) (flushed_machine row)"
    using worker_step.start_thread [of "sample_machine\<lparr>m_db := queue_statement default_config Users ?d, m_flushing := Some Users\<rparr>"
        Users default_config]
    by (simp add: sample_machine_def flushed_machine_def)
  show ?thesis using worker_run.more [OF worker_run.more [OF worker_run.more [OF worker_run.none a] b] c] by simp
qed

lemma flushed_threads: "m_lock (flushed_machine row) = None" "Users \<in> set (threads (m_db (flushed_machine row)))"
  by (simp_all add: flushed_machine_def sample_machine_def start_worker_def queue_statement_def new_statements_def
      push_request_def empty_db_def)

lemma interleaved_workers_conserve_witness:
  "mset (records (m_db (flushed_machine ''(1)'')) Users) = {#statement (table_sql default_config Users) [''(1)'']#}"
  using interleaved_workers_conserve [OF flushed_run [of "''(1)''"], of Users]
  by (simp add: sample_machine_def empty_db_def queued_in_def sent_in_def)

lemma interleaved_workers_fifo_witness: "attended Users (flushed_machine ''(1)'')"
  using interleaved_workers_fifo [OF flushed_run [of "''(1)''", unfolded sample_machine_def], of Users] by simp

lemma atomic_worker_refines_witness:
  "\<exists>as. sent_in Users as = snd (doFlush (\<lambda>n q. False) Users (m_db (flushed_machine ''(1)'')))"
  using atomic_worker_refines [OF flushed_threads, of default_config "''(1)''" "\<lambda>n q. False"] by blast

end
