(* ===== verification/Service.thy ===== *)
theory Service
  imports Connection AnnounceRecords
begin

text \<open>
  The components together: a client connects, sends an announce in any number of segments, and
  reads the reply until the connection is closed. The lemmas follow the request from the
  connection (src/network/connectionHandler.cpp) through \<open>RequestHandler::handle\<close>, the
  parser and the check to \<open>announce\<close>, and the reply back to the client.
\<close>

section \<open>A session of one client\<close>

definition session ::
  "env \<Rightarrow> config \<Rightarrow> (string \<rightharpoonup> string list) \<Rightarrow> string list \<Rightarrow> nat option list \<Rightarrow> conn \<times> tracker \<Rightarrow>
    (string \<times> conn \<times> tracker) res" where
  "session e cfg required segments sends x =
    bindE (read_all e cfg required segments x) (\<lambda>(c, s).
      let (out, c') = write_all sends c in Inr (out, c', s))"

lemma new_connection_fields:
  "new_connection ipv6 nonblocking name = Inr c \<Longrightarrow>
    c_request c = [] \<and> c_response c = [] \<and> c_sent c = 0 \<and> c_reading c \<and> c_open c"
  by (auto simp: new_connection_def split: if_splits option.splits prod.splits)

text \<open>The segments make one complete request: no shorter prefix of segments is one.\<close>

definition segments_of :: "config \<Rightarrow> string \<Rightarrow> string list \<Rightarrow> bool" where
  "segments_of cfg str bs \<longleftrightarrow> concat bs = str \<and> bs \<noteq> [] \<and> (\<forall>b \<in> set bs. b \<noteq> []) \<and>
    (\<forall>n < length bs. \<not> complete_request cfg (concat (take n bs)))"

lemma session_serves:
  assumes c: "new_connection ipv6 nonblocking name = Inr c" and seg: "segments_of cfg str bs"
    and str: "ends_request str" "length str \<le> MAX_REQUEST_SIZE cfg"
    and reply: "handle e cfg required str (c_IP c) (c_ipv6 c) s = Inr (reply, s')"
    and sends: "progress rs (length reply)" "length reply \<le> length rs" "rs \<noteq> []"
  shows "\<exists>c'. session e cfg required bs rs (c, s) = Inr (reply, c', s') \<and> \<not> c_open c'"
proof -
  note f = new_connection_fields [OF c]
  have "read_all e cfg required bs (c, s) = readRequest e cfg required (Some (concat bs)) (c, s)"
    using seg f by (intro read_all_segments) (simp_all add: segments_of_def)
  moreover let ?c = "c\<lparr>c_request := str, c_reading := False, c_response := reply, c_writing := True\<rparr>"
  have "readRequest e cfg required (Some (concat bs)) (c, s) = Inr (?c, s')"
    using seg f str reply by (cases "concat bs = []")
      (auto simp: readRequest_def Let_def segments_of_def complete_request_def)
  moreover have "fst (write_all rs ?c) = drop (c_sent ?c) (c_response ?c) \<and> \<not> c_open (snd (write_all rs ?c))"
    using sends f by (intro write_all_sends) (simp_all add: to_send_def)
  ultimately show ?thesis using f by (cases "write_all rs ?c") (simp add: session_def)
qed

section \<open>From the request to announce\<close>

text \<open>An announce that passes every test of \<open>handle\<close>.\<close>

definition acceptable :: "config \<Rightarrow> request \<Rightarrow> string list \<Rightarrow> string \<Rightarrow> tracker \<Rightarrow> bool" where
  "acceptable cfg req hashes ip s \<longleftrightarrow>
    req ''action'' = Some ''announce'' \<and> hashes \<noteq> [] \<and>
    (\<exists>addr k. fm_emplace ''ip'' ip req ''ip'' = Some addr \<and> addr \<notin> bannedIPs s \<and> req ''reqpasskey'' = Some k \<and>
      (is_private cfg \<longrightarrow> (\<exists>u. deref (accounts s) (usrMap s k) = Inr u \<and> \<not> isRestricted addr u)))"

definition announce_params :: "string \<Rightarrow> string \<Rightarrow> request \<Rightarrow> request" where
  "announce_params ip pid req = fm_emplace ''event'' ''updating'' ((fm_emplace ''ip'' ip req)(''peer_id'' \<mapsto> pid))"

lemma announce_params_simps [simp]:
  "announce_params ip pid req ''peer_id'' = Some pid"
  "announce_params ip pid req ''event'' = Some (case req ''event'' of Some ev \<Rightarrow> ev | None \<Rightarrow> ''updating'')"
  "k \<noteq> ''peer_id'' \<Longrightarrow> k \<noteq> ''event'' \<Longrightarrow> k \<noteq> ''ip'' \<Longrightarrow> announce_params ip pid req k = req k"
  by (simp_all add: announce_params_def split: option.split)

lemma handle_announces:
  assumes p: "parse str = Inr (req, hashes)" and ck: "check required req = Inr ''success''"
    and acc: "acceptable cfg req hashes ip s" and pid: "peer_id_param req = Inr pid" "length pid = 20"
  shows "handle e cfg required str ip ipv6 s = announce e cfg (announce_params ip pid req) (hd hashes) ipv6 s"
proof -
  from acc obtain addr k where a: "req ''action'' = Some ''announce''" "hashes \<noteq> []"
    "fm_emplace ''ip'' ip req ''ip'' = Some addr" "addr \<notin> bannedIPs s" "req ''reqpasskey'' = Some k"
    "is_private cfg \<longrightarrow> (\<exists>u. deref (accounts s) (usrMap s k) = Inr u \<and> \<not> isRestricted addr u)"
    by (auto simp: acceptable_def simp del: fm_emplace_apply)
  have upd: "is_update cfg req = Inr False" using a(1) by (simp add: is_update_def)
  have user: "(if is_private cfg then bindE (deref (accounts s) (getUser k s)) (\<lambda>acc. Inr (isRestricted addr acc)) else Inr False) = Inr False"
    using a(6) by (auto simp: getUser_def deref_def)
  have known: "\<not> (is_private cfg \<and> getUser k s = None)"
    using a(6) by (auto simp: getUser_def deref_def split: option.splits if_splits)
  have front: "front hashes = Inr (hd hashes)" using a(2) by (cases hashes) (simp_all add: front_def)
  have "dispatch e cfg (fm_emplace ''ip'' ip req) hashes ipv6 s = announce e cfg (announce_params ip pid req) (hd hashes) ipv6 s"
    using a(1) pid front
    by (auto simp: dispatch_def announce_request_def peer_id_param_def announce_params_def split: if_splits)
  then show ?thesis
    using a(2-5) user known
    by (auto simp: handle_def p ck handle_checked_def upd Let_def simp del: fm_emplace_apply)
qed

section \<open>The reply\<close>

lemma reply_block_snatches:
  assumes "reply_block cfg req left event ipv6 t = Inr (reply, t')"
  shows "t_snatches t' = t_snatches t"
  using assms by (rule reply_block_parts) (auto dest!: list_peers_frame split: if_splits)

lemma announce_value_cong:
  assumes "\<forall>sl. pMap (get_slot sl t') = pMap (get_slot sl t)" and "t_snatches t' = t_snatches t"
  shows "announce_value t ai mi dicts = announce_value t' ai mi dicts"
  using counts_pMap [OF assms(1)] assms(2) by (simp add: announce_value_def)

text \<open>The specification of the reply: the state of the torrent after the announce and as many
  peers of the table that serves the client as \<open>list_lengths\<close> says, starting at some position
  of the cursors.\<close>

definition announce_reply :: "config \<Rightarrow> request \<Rightarrow> string \<Rightarrow> string \<Rightarrow> bool \<Rightarrow> torrent \<Rightarrow> string \<Rightarrow> bool" where
  "announce_reply cfg req left event ipv6 t' reply \<longleftrightarrow>
    (\<exists>t i j ai mi. (\<forall>sl. pMap (get_slot sl t') = pMap (get_slot sl t)) \<and>
      list_lengths cfg req left event ipv6 t = (i, j) \<and>
      get cfg ''default_announce_interval'' = show_int ai \<and> get cfg ''min_announce_interval'' = show_int mi \<and>
      reply = response (benc (announce_value t' ai mi (peer_lists left (nat i) (nat j) t))) False)"

text \<open>The configuration a client relies on, and a request for the compact format.\<close>

definition lists_wanted :: "config \<Rightarrow> request \<Rightarrow> bool" where
  "lists_wanted cfg req \<longleftrightarrow> 0 \<le> numwant_of cfg req \<and> 0 \<le> getInt cfg ''max_numwant'' \<and>
    getInt cfg ''max_numwant'' \<le> 2 ^ 26 \<and> req ''compact'' \<noteq> Some ''0'' \<and>
    (\<exists>ai mi. get cfg ''default_announce_interval'' = show_int ai \<and> get cfg ''min_announce_interval'' = show_int mi)"

lemma replied_benc:
  assumes r: "replied cfg req left event ipv6 u t (reply, t')" and cf: "lists_wanted cfg req"
  shows "announce_reply cfg req left event ipv6 t' reply"
proof -
  obtain i j where ll: "list_lengths cfg req left event ipv6 t = (i, j)" by (cases "list_lengths cfg req left event ipv6 t")
  obtain ai mi where iv: "get cfg ''default_announce_interval'' = show_int ai" "get cfg ''min_announce_interval'' = show_int mi"
    using cf by (auto simp: lists_wanted_def)
  have rb: "reply_block cfg req left event ipv6 t = Inr (reply, t')" and ok: "torrent_ok (is_private cfg) u t"
    and pm: "\<forall>sl. pMap (get_slot sl t') = pMap (get_slot sl t)"
    and cur: "event \<noteq> ''stopped'' \<longrightarrow> cursor_ok (get_slot (list_slot left False) t) \<and>
      (ipv6 \<longrightarrow> cursor_ok (get_slot (list_slot left True) t))"
    using r by (auto simp: replied_def)
  have "0 < i \<longrightarrow> event \<noteq> ''stopped''" "0 < j \<longrightarrow> event \<noteq> ''stopped'' \<and> ipv6"
    using ll list_lengths_stopped [of event cfg req left ipv6 t] list_lengths_v4 [of ipv6 cfg req left event t] by (cases ipv6; auto)+
  then have "0 < i \<longrightarrow> cursor_ok (get_slot (list_slot left False) t)" "0 < j \<longrightarrow> cursor_ok (get_slot (list_slot left True) t)"
    using cur by blast+
  note curs = this
  have "reply = response (benc (announce_value t ai mi (peer_lists left (nat i) (nat j) t))) False"
    using reply_block_benc [OF ok curs ll, of ai mi] iv cf rb by (auto simp: lists_wanted_def)
  then show ?thesis
    using announce_value_cong [OF pm reply_block_snatches [OF rb]] pm ll iv unfolding announce_reply_def by metis
qed

text \<open>Any number of sends that each take something closes a session.\<close>

definition delivered ::
  "env \<Rightarrow> config \<Rightarrow> (string \<rightharpoonup> string list) \<Rightarrow> string list \<Rightarrow> conn \<times> tracker \<Rightarrow> string \<Rightarrow> tracker \<Rightarrow> bool" where
  "delivered e cfg required bs x reply s' \<longleftrightarrow>
    (\<forall>rs. progress rs (length reply) \<longrightarrow> length reply \<le> length rs \<longrightarrow> rs \<noteq> [] \<longrightarrow>
      (\<exists>c'. session e cfg required bs rs x = Inr (reply, c', s') \<and> \<not> c_open c'))"

section \<open>Properties\<close>


definition sample_hash :: string where
  "sample_hash = replicate 20 (CHR ''a'')"

definition sample_peer_id :: string where
  "sample_peer_id = replicate 20 (CHR ''b'')"

definition sample_announce :: string where
  "sample_announce = render_request sample_key ''announce''
     [(''info_hash'', sample_hash), (''peer_id'', sample_peer_id), (''port'', ''80''), (''left'', ''1''),
      (''downloaded'', ''7''), (''uploaded'', ''2''), (''numwant'', ''2'')] [(''User-Agent'', ''c'')]"

definition sample_params :: request where
  "sample_params = map_of [(''action'', ''announce''), (''reqpasskey'', sample_key), (''peer_id'', sample_peer_id),
     (''port'', ''80''), (''left'', ''1''), (''downloaded'', ''7''), (''uploaded'', ''2''), (''numwant'', ''2''),
     (''user-agent'', ''c'')]"

definition service_tracker :: tracker where
  "service_tracker = empty_tracker\<lparr>torMap := [(sample_hash, sample_torrent)], usrMap := [sample_key \<mapsto> 0],
     accounts := [new_user 1 True]\<rparr>"

lemma parse_sample_announce: "parse sample_announce = Inr (sample_params, [sample_hash])"
proof -
  have a: "length sample_key = 32" "path_ok sample_key" "60 \<le> length sample_announce" "decode_hash sample_hash = sample_hash"
    "list_all param_ok [(''info_hash'', sample_hash), (''peer_id'', sample_peer_id), (''port'', ''80''), (''left'', ''1''),
      (''downloaded'', ''7''), (''uploaded'', ''2''), (''numwant'', ''2'')]" "list_all header_ok [(''User-Agent'', ''c'')]"
    by code_simp+
  have "map tolower ''User-Agent'' = ''user-agent''" by code_simp
  then have ua: "store_headers [(''User-Agent'', ''c'')] out = fm_emplace ''user-agent'' ''c'' out" for out
    by (simp only: store_headers.simps simp_thms if_True)
  have "parse sample_announce = (let (out, hashes) = store_params
      [(''info_hash'', sample_hash), (''peer_id'', sample_peer_id), (''port'', ''80''), (''left'', ''1''),
      (''downloaded'', ''7''), (''uploaded'', ''2''), (''numwant'', ''2'')]
      (fm_emplace ''action'' ''announce'' (fm_emplace ''reqpasskey'' sample_key Map.empty), [])
     in Inr (store_headers [(''User-Agent'', ''c'')] out, hashes))"
    using a unfolding sample_announce_def by (subst parse_render_request) (simp_all add: path_ok_def)
  also have "\<dots> = Inr (sample_params, [sample_hash])"
    by (simp add: a(4) ua sample_params_def fm_emplace_def fun_eq_iff del: store_headers.simps)
  finally show ?thesis .
qed

lemma service_tracker_ok: "tracker_ok default_config service_tracker"
  using sample_torrent_ok by (auto simp: tracker_ok_def service_tracker_def empty_tracker_def om_wf_def)

lemma check_sample_announce: "check (required_params default_config) sample_params = Inr ''success''"
  by (simp add: check_def required_params_def sample_params_def)

text \<open>A request cut in two; only both parts together end as a request does.\<close>

definition sample_segments :: "string list" where
  "sample_segments = [take 40 sample_announce, drop 40 sample_announce]"

lemma sample_segments_ok: "segments_of default_config sample_announce sample_segments"
  unfolding segments_of_def sample_segments_def by code_simp

lemma sample_announce_ends: "ends_request sample_announce" "length sample_announce \<le> MAX_REQUEST_SIZE default_config"
  by code_simp+

lemma sample_peer_name: "\<exists>c. new_connection False True (Some ''10.0.0.1'') = Inr c \<and> c_IP c = ''10.0.0.1'' \<and> \<not> c_ipv6 c"
  by (simp add: new_connection_def peer_info_def)

abbreviation sample_request_seen :: request where
  "sample_request_seen \<equiv> announce_params ''10.0.0.1'' sample_peer_id sample_params"

lemma sample_ids [simp]: "length sample_peer_id = 20" "hd [sample_hash] = sample_hash"
  by (simp_all add: sample_peer_id_def)

lemma sample_acceptable: "acceptable default_config sample_params [sample_hash] ''10.0.0.1'' service_tracker"
  by (auto simp: acceptable_def sample_params_def service_tracker_def empty_tracker_def deref_def isRestricted_def new_user_def)

lemma sample_seen_ok:
  "request_ok default_config (usrMap service_tracker) (length (accounts service_tracker)) sample_request_seen"
  by (simp add: sample_params_def announce_params_def request_ok_def port_ok_def numeric_def number_def service_tracker_def
      numwant_ok_def numwant_of_def stoul_def stoi_def scan_number_def isspace_def isdigit_iff read_digits_def digit_value_def)

lemma sample_seen_admitted: "admitted default_config sample_request_seen sample_hash service_tracker"
  by (simp add: admitted_def announce_params_def sample_params_def service_tracker_def empty_tracker_def new_user_def)

lemma sample_seen_accountable: "accountable sample_env default_config sample_request_seen pid sample_torrent"
  by (rule sample_accountable) (simp_all add: sample_params_def)

lemma sample_lists_wanted: "lists_wanted default_config sample_request_seen"
  by (auto simp: lists_wanted_def announce_params_def sample_params_def numwant_of_def stoi_def scan_number_def isspace_def
      isdigit_iff read_digits_def digit_value_def)

lemma progress_bytewise: "progress (replicate n (Some 1)) n"
  by (induction n) simp_all


end
