(* ===== verification/Robustness.thy ===== *)
theory Robustness
  imports Service "HOL-Library.Sublist"
begin

text \<open>
  Which client requests the server survives. No callback catches an exception, so an exception
  in \<open>RequestHandler::handle\<close> (src/handler/requestHandler.cpp) ends the program. The lemmas say
  that sane requests always get a reply, and that an announce whose amounts are no numbers
  never does.
\<close>

section \<open>Requests that get a reply\<close>

text \<open>
  What the code relies on in an announce beyond the parameters that are required: a peer id
  that decodes, a user agent, a numeric port, numeric amounts and a bounded \<open>numwant\<close>; and for
  the torrent, if it is known, valid cursors, readable corrupt counts, amounts and a balance
  that do not overflow, and no cursor that the announce itself loses.
\<close>

definition event_param :: "request \<Rightarrow> string" where
  "event_param req = (case req ''event'' of Some ev \<Rightarrow> ev | None \<Rightarrow> ''updating'')"

definition servable :: "env \<Rightarrow> config \<Rightarrow> request \<Rightarrow> string \<Rightarrow> bool \<Rightarrow> torrent \<Rightarrow> bool" where
  "servable e cfg req pid ipv6 t \<longleftrightarrow> cursors_ok t \<and> accountable e cfg req pid t \<and>
    (\<forall>left. req ''left'' = Some left \<longrightarrow> spared pid left (event_param req) ipv6 t)"

definition sane :: "env \<Rightarrow> config \<Rightarrow> tracker \<Rightarrow> bool \<Rightarrow> request \<Rightarrow> string list \<Rightarrow> bool" where
  "sane e cfg s ipv6 req hashes \<longleftrightarrow> req ''reqpasskey'' \<noteq> None \<and> (req ''action'' = Some ''announce'' \<longrightarrow>
    (\<exists>pid. peer_id_param req = Inr pid \<and>
      (\<forall>t. hashes \<noteq> [] \<longrightarrow> map_of (torMap s) (hd hashes) = Some t \<longrightarrow> servable e cfg req pid ipv6 t)) \<and>
    req ''user-agent'' \<noteq> None \<and> port_ok req \<and>
    numeric req ''left'' \<and> numeric req ''downloaded'' \<and> numeric req ''uploaded'' \<and> numwant_ok cfg req)"

text \<open>A torrent a public tracker has just created serves any announce.\<close>

lemma new_torrent_servable:
  "is_public cfg \<Longrightarrow> servable e cfg req pid ipv6 (new_torrent i f n 0)"
  using private_not_public [of cfg]
  by (auto simp: servable_def accountable_def entries_ok_def new_peers_def spared_def)
    (simp_all add: new_torrent_def new_peers_def)

lemma create_if_public_servable:
  assumes "om_wf (torMap s)" and "map_of (torMap (create_if_public cfg h s)) h = Some t"
    and "\<And>t. map_of (torMap s) h = Some t \<Longrightarrow> servable e cfg req pid ipv6 t"
  shows "servable e cfg req pid ipv6 t"
  using assms(2,3) by (auto simp: create_if_public_def om_find_emplace [OF assms(1)] intro: new_torrent_servable
      split: if_splits)

lemma announce_returns:
  assumes ok: "tracker_ok cfg s" and pton: "pton_ok (e_pton e)"
    and srv: "\<And>t. map_of (torMap s) h = Some t \<Longrightarrow> servable e cfg req pid ipv6 t"
    and rq: "request_ok cfg (usrMap s) (length (accounts s)) req" and ev: "req ''event'' = Some event"
    and pid: "req ''peer_id'' = Some pid"
  shows "\<exists>x. announce e cfg req h ipv6 s = Inr x"
proof -
  obtain left where left: "req ''left'' = Some left"
    using rq by (auto simp: request_ok_def elim: numericE)
  let ?s = "create_if_public cfg h s"
  have work: "\<exists>reply w. announce_work e cfg (leechStatus ?s) (usrMap s) req event ipv6 (start_work t ?s) = Inr (reply, w)"
    if t: "map_of (torMap ?s) h = Some t" for t
  proof -
    have "om_wf (torMap s)" using ok by (simp add: tracker_ok_def)
    from create_if_public_servable [OF this t srv] left ev have t': "cursors_ok t" "accountable e cfg req pid t"
      "spared pid left event ipv6 t" by (simp_all add: servable_def event_param_def)
    have inv: "work_inv cfg (start_work t ?s)" using start_work_inv [OF create_if_public_ok [OF ok] t t'(1)] .
    have "request_ok cfg (usrMap s) (length (w_users (start_work t ?s))) req"
      using rq by (simp add: start_work_def)
    from announce_work_total [where ls = "leechStatus ?s" and event = event and ?ipv6.0 = ipv6, OF this inv pton pid left] t'(2,3)
    show ?thesis by (auto simp: start_work_def)
  qed
  obtain allowed where allowed: "(if clientWhitelist s \<noteq> []
      then bindE (at_key req ''peer_id'') (\<lambda>pid. Inr (whitelisted (clientWhitelist s) pid)) else Inr True) = Inr allowed"
    using pid by (cases "clientWhitelist s = []") simp_all
  obtain authorized where authorized: "(if is_private cfg
      then bindE (at_key req ''reqpasskey'') (\<lambda>k. bindE (deref (accounts s) (usrMap s k)) (\<lambda>u. Inr (u_authorized u)))
      else Inr True) = Inr authorized"
    using rq by (cases "is_private cfg") (auto simp: request_ok_def deref_def)
  show ?thesis
  proof (cases "map_of (torMap ?s) h")
    case None
    then show ?thesis by (simp add: announce_def ev allowed Let_def)
  next
    case (Some t)
    from work [OF this] obtain reply w where
      "announce_work e cfg (leechStatus ?s) (usrMap s) req event ipv6 (start_work t ?s) = Inr (reply, w)" by blast
    with Some authorized show ?thesis
      by (cases "is_private cfg") (simp_all add: announce_def ev allowed Let_def getUser_def)
  qed
qed

lemma announce_params_reads [simp]:
  "k \<noteq> ''peer_id'' \<Longrightarrow> k \<noteq> ''event'' \<Longrightarrow> k \<noteq> ''ip'' \<Longrightarrow> at_key (announce_params ip pid req) k = at_key req k"
  "k \<noteq> ''peer_id'' \<Longrightarrow> k \<noteq> ''event'' \<Longrightarrow> k \<noteq> ''ip'' \<Longrightarrow>
    numeric (announce_params ip pid req) k = numeric req k"
  "port_ok (announce_params ip pid req) = port_ok req" "numwant_ok cfg (announce_params ip pid req) = numwant_ok cfg req"
  "announce_params ip pid req ''ip'' \<noteq> None"
  by (simp_all add: at_key_def numeric_def number_def port_ok_def numwant_ok_def numwant_of_def)
    (simp add: announce_params_def)

lemma servable_params: "servable e cfg (announce_params ip pid req) pid ipv6 t = servable e cfg req pid ipv6 t"
  by (simp add: servable_def accountable_def number_def event_param_def)

lemma announce_request_returns:
  assumes ok: "tracker_ok cfg s" and pton: "pton_ok (e_pton e)"
    and sane: "sane e cfg s ipv6 req hashes" and act: "req ''action'' = Some ''announce''" and hashes: "hashes \<noteq> []"
    and k: "is_private cfg \<longrightarrow> (\<exists>k a. req ''reqpasskey'' = Some k \<and> usrMap s k = Some a \<and> a < length (accounts s))"
  shows "\<exists>x. announce_request e cfg (fm_emplace ''ip'' ip req) hashes ipv6 s = Inr x"
proof -
  obtain pid where pid: "peer_id_param req = Inr pid"
    and srv: "\<And>t. map_of (torMap s) (hd hashes) = Some t \<Longrightarrow> servable e cfg req pid ipv6 t"
    using sane act hashes by (auto simp: sane_def)
  let ?req = "announce_params ip pid req"
  obtain p where p: "req ''peer_id'' = Some p" "(if length p \<noteq> 20 then hex_to_bin p else Inr p) = Inr pid"
    using pid by (auto simp: peer_id_param_def)
  have front: "front hashes = Inr (hd hashes)" using hashes by (cases hashes) (simp_all add: front_def)
  have "request_ok cfg (usrMap s) (length (accounts s)) ?req"
    using sane act k by (auto simp: sane_def request_ok_def announce_params_reads(5) [simplified])
  then obtain x where "announce e cfg ?req (hd hashes) ipv6 s = Inr x"
    using announce_returns [where req = ?req and pid = pid and h = "hd hashes" and ?ipv6.0 = ipv6, OF ok pton] srv
    by (auto simp: servable_params)
  then show ?thesis
    using p front unfolding announce_params_def
    by (cases x) (simp add: announce_request_def p)
qed

lemma handle_checked_returns:
  assumes ok: "tracker_ok cfg s" and pton: "pton_ok (e_pton e)"
    and act: "req ''action'' = Some act" and upd: "is_update cfg req = Inr False" and sane: "sane e cfg s ipv6 req hashes"
  shows "\<exists>x. handle_checked e cfg req hashes ip ipv6 s = Inr x"
proof -
  obtain k where k: "req ''reqpasskey'' = Some k" using sane by (auto simp: sane_def)
  let ?req = "fm_emplace ''ip'' ip req"
  obtain addr where addr: "?req ''ip'' = Some addr" by (cases "req ''ip''") auto
  show ?thesis
  proof (cases "is_private cfg \<and> usrMap s k = None \<or> hashes = []")
    case True
    then show ?thesis by (auto simp: handle_checked_def upd k getUser_def Let_def)
  next
    case False
    have ptr: "a < length (accounts s)" if "is_private cfg" "usrMap s k = Some a" for a
      using ok that tracker_ok_usrMap by blast
    have restricted: "\<exists>r. (if is_private cfg then bindE (deref (accounts s) (usrMap s k)) (\<lambda>acc. Inr (isRestricted addr acc))
        else Inr False) = Inr r"
      using False ptr by (cases "is_private cfg") (auto simp: deref_def)
    have "\<exists>x. dispatch e cfg ?req hashes ipv6 s = Inr x"
    proof (cases "act = ''announce''")
      case True
      then show ?thesis
        using announce_request_returns [OF ok pton sane] act False ptr k by (fastforce simp: dispatch_def)
    qed (simp add: dispatch_def act)
    with restricted show ?thesis
      using False by (auto simp: handle_checked_def upd k addr getUser_def Let_def simp del: fm_emplace_apply)
  qed
qed

section \<open>What clients receive\<close>

definition is_http :: "string \<Rightarrow> bool" where
  "is_http reply \<longleftrightarrow> prefix response_head reply"

lemma is_http_simps [simp]: "is_http (response body g)" "is_http (error reason)"
  by (simp_all add: is_http_def response_def error_def)

lemma announce_http: "announce e cfg req h ipv6 s = Inr (reply, s') \<Longrightarrow> is_http reply"
  by (elim announce_cases) (auto elim!: announce_work_parts reply_block_parts)

lemma dispatch_http: "dispatch e cfg req hashes ipv6 s = Inr (reply, s') \<Longrightarrow> is_http reply"
  by (auto simp: dispatch_def announce_request_def scrape_def split: if_splits dest!: announce_http)

lemma handle_http: "handle e cfg required str ip ipv6 s = Inr (reply, s') \<Longrightarrow> is_http reply"
  by (auto simp: handle_def update_def split: if_splits elim!: handle_checked_cases dest!: dispatch_http)

text \<open>The reply a connection holds.\<close>

definition reply_ok :: "conn \<Rightarrow> bool" where
  "reply_ok c \<longleftrightarrow> c_response c = [] \<or> c_response c = ''request too long'' \<or> is_http (c_response c)"

lemma conn_step_reply_ok:
  assumes "conn_step cfg required x out y" and "reply_ok (fst x)" shows "reply_ok (fst y)"
  using assms
  by (cases rule: conn_step.cases)
    (auto simp: readRequest_def writeResponse_def timeout_def destroy_def reply_ok_def Let_def
      split: option.splits if_splits dest!: handle_http)

lemma conn_reach_reply_ok: "conn_reach cfg required x out y \<Longrightarrow> reply_ok (fst x) \<Longrightarrow> reply_ok (fst y)"
  by (induction rule: conn_reach.induct) (auto intro: conn_step_reply_ok)

section \<open>Properties\<close>

text \<open>C23: Whatever a client sends, what it has received at any moment is the beginning of an
  HTTP reply with the fixed head, or of the bare words \<open>request too long\<close>, which has no head.\<close>

theorem clients_receive_http:
  assumes "conn_reach cfg required (c, s) out (c', s')" and "new_connection ipv6 nonblocking name = Inr c"
  shows "\<exists>reply. prefix out reply \<and> (reply = ''request too long'' \<or> is_http reply)"
proof -
  note f = new_connection_fields [OF assms(2)]
  have out: "out = take (c_sent c') (c_response c')"
    using conn_reach_output [OF assms(1)] new_connection_ok [OF assms(2)] f by simp
  have "reply_ok c'" using conn_reach_reply_ok [OF assms(1)] f by (simp add: reply_ok_def)
  then show ?thesis
    using out take_is_prefix [of "c_sent c'" "c_response c'"] by (auto simp: reply_ok_def)
qed

lemma clients_receive_http_witness:
  "\<exists>reply. prefix ''request too long'' reply \<and> (reply = ''request too long'' \<or> is_http reply)"
  by (rule clients_receive_http [OF long_request_refused, of False True "Some ''10.0.0.1''"])
    (simp add: new_connection_def peer_info_def fresh_connection_def)

text \<open>C9: Client requests the server survives. On a well-formed tracker, a request that is no
  update gets a reply and leaves the tracker well formed, whatever the action, the other
  parameters, the hashes, the client and its rights, provided that it is refused by the check
  or is \<open>sane\<close>: it carries a passkey; and an announce has a peer id that decodes, a user agent, a
  port \<open>stoi\<close> reads, amounts \<open>stoul\<close> reads, \<open>numwant\<close> and the configured maximum within
  \<open>2^26\<close>; and if the torrent it names is known, the cursors of that torrent are valid, the
  corrupt counts it makes the server read have a value, its amounts are below \<open>2^60\<close> and the
  balance of the torrent within \<open>2^62\<close> (\<open>accountable\<close>), and if it completes over IPv6 with nothing
  left, the cursor of the IPv4 leechers is not at the peer. None of these is guaranteed by the server
  itself: cursors are lost by removals (\<open>removed_cursor_dangles\<close>), a non-numeric amount throws
  (\<open>nonnumeric_announce_throws\<close>), and the last lemmas of this theory show an uninitialised
  read and an overflow that clients cause.\<close>

theorem sane_requests_get_reply:
  assumes "tracker_ok cfg s" and "pton_ok (e_pton e)"
    and "parse str = Inr (req, hashes)" and "is_update cfg req \<noteq> Inr True"
    and "check required req = Inr ''success'' \<Longrightarrow> sane e cfg s ipv6 req hashes"
  shows "\<exists>reply s'. handle e cfg required str ip ipv6 s = Inr (reply, s') \<and> tracker_ok cfg s'"
proof -
  obtain msg where msg: "check required req = Inr msg" using check_total by blast
  have "\<exists>reply s'. handle e cfg required str ip ipv6 s = Inr (reply, s')"
  proof (cases "msg = ''success''")
    case True
    then obtain act where act: "req ''action'' = Some act" using msg check_success_lemma by blast
    moreover have sane: "sane e cfg s ipv6 req hashes" using assms(5) msg True by simp
    ultimately have "is_update cfg req = Inr False"
      using assms(4) by (auto simp: is_update_def sane_def)
    then obtain reply s' where "handle_checked e cfg req hashes ip ipv6 s = Inr (reply, s')"
      using handle_checked_returns [OF assms(1,2) act _ sane, of ip] by auto
    then show ?thesis by (simp add: handle_def assms(3) msg True)
  qed (simp add: handle_def assms(3) msg)
  then show ?thesis using handle_keeps assms(1,2) by blast
qed

lemma sane_requests_get_reply_witness:
  "\<exists>reply s'. handle sample_env default_config (required_params default_config) sample_announce ''10.0.0.1'' False
    service_tracker = Inr (reply, s') \<and> tracker_ok default_config s'"
proof (rule sane_requests_get_reply [OF service_tracker_ok sample_env_ok parse_sample_announce])
  show "is_update default_config sample_params \<noteq> Inr True" by (simp add: is_update_def sample_params_def)
  have "servable sample_env default_config sample_params sample_peer_id False sample_torrent"
    using sample_cursors sample_accountable [of sample_params] by (simp add: servable_def spared_def sample_params_def)
  then show "sane sample_env default_config service_tracker False sample_params [sample_hash]"
    using sample_seen_ok by (auto simp: sane_def request_ok_def sample_params_def peer_id_param_def service_tracker_def)
qed

text \<open>C24: An announce whose \<open>downloaded\<close>, \<open>uploaded\<close> or \<open>left\<close> is no number never gets a reply
  from a private tracker that admits it: \<open>std::stoul\<close> throws, and as no callback catches the
  exception, any authorised client can end the server.\<close>

theorem nonnumeric_announce_throws:
  assumes "is_private cfg" and "admitted cfg req h s" and "key \<in> {''downloaded'', ''uploaded'', ''left''}"
    and "req key = Some v" and "stoul v = Inl err"
  shows "\<exists>err'. announce e cfg req h ipv6 s = Inl err'"
proof (rule ccontr)
  assume "\<not> ?thesis"
  then obtain x where x: "announce e cfg req h ipv6 s = Inr x"
    by (cases "announce e cfg req h ipv6 s") auto
  obtain event where ev: "req ''event'' = Some event"
    using x unfolding announce_def by (cases "req ''event''") simp_all
  obtain t where t: "map_of (torMap s) h = Some t" using assms(2) by (auto simp: admitted_def)
  from x obtain reply w where
    "announce_work e cfg (leechStatus s) (usrMap s) req event ipv6 (start_work t s) = Inr (reply, w)"
    by (auto simp: announce_admitted_eq [OF assms(2) t ev])
  then obtain pp free w2 balance w3 where
    "update_amounts e cfg req (corrupt_of req) free pp w2 = Inr (balance, w3)" by (cases rule: announce_work_parts)
  then show False using assms(1,3-5) by (auto simp: update_amounts_def number_def)
qed

lemma nonnumeric_announce_throws_witness:
  "\<exists>err. announce sample_env default_config (sample_request(''left'' \<mapsto> ''x'')) ''h'' False sample_tracker = Inl err"
proof (rule nonnumeric_announce_throws [where key = "''left''" and v = "''x''" and err = Invalid_argument])
  show "admitted default_config (sample_request(''left'' \<mapsto> ''x'')) ''h'' sample_tracker"
    using sample_admitted by (simp add: admitted_def)
  show "stoul ''x'' = Inl Invalid_argument"
    by (simp add: stoul_def scan_number_def isspace_def isdigit_iff)
qed simp_all

section \<open>Two requests the server does not survive\<close>

text \<open>
  The corrupt count a constructor leaves uninitialised: on a private tracker the first
  announce of any new peer reads it, and so does its row on any other tracker with a
  database.
\<close>

definition bare_env :: env where
  "bare_env = sample_env\<lparr>e_corrupt := None\<rparr>"

definition new_client :: request where
  "new_client = sample_request(''peer_id'' \<mapsto> ''z'')"

lemma new_peer_unread: "new_peer e ip port u l d up tid client pid ipv6 = Inr p \<Longrightarrow> getCorrupt p = Inr c \<longleftrightarrow> e_corrupt e = Some c"
  using new_peer_fields [of e ip port u l d up tid client pid ipv6 p] by (simp add: getCorrupt_Inr)

lemma update_amounts_unread:
  "is_private cfg \<Longrightarrow> peer_at pp (w_tor w) = Inr p \<Longrightarrow> p_corrupt p = None \<Longrightarrow>
    update_amounts e cfg req corrupt free pp w = Inl (UB Uninitialised_read)"
  by (simp add: update_amounts_def)

lemma first_announce_reads_uninitialised:
  "announce bare_env default_config new_client ''h'' False sample_tracker = Inl (UB Uninitialised_read)"
proof -
  have ad: "admitted default_config new_client ''h'' sample_tracker"
    by (simp add: admitted_def sample_tracker_def empty_tracker_def new_user_def new_client_def)
  have t: "map_of (torMap sample_tracker) ''h'' = Some sample_torrent" by (simp add: sample_tracker_def)
  have ev: "new_client ''event'' = Some ''updating''" by (simp add: new_client_def)
  have hex: "ip_port_hex_encode (e_pton bare_env) ''10.0.0.1'' ''80'' False \<noteq> Inl err" for err
    by (simp add: ip_port_hex_encode_def bare_env_def sample_env_def)
  then obtain hx where hx: "ip_port_hex_encode (e_pton bare_env) ''10.0.0.1'' ''80'' False = Inr hx"
    by (cases "ip_port_hex_encode (e_pton bare_env) ''10.0.0.1'' ''80'' False") auto
  have "announce_work bare_env default_config (leechStatus sample_tracker) (usrMap sample_tracker) new_client ''updating'' False
      (start_work sample_torrent sample_tracker) = Inl (UB Uninitialised_read)"
    by (simp add: announce_work_def new_client_def find_peer_def leech_block_def free_rate_def start_work_def sample_tracker_def empty_tracker_def sample_torrent_def
        new_torrent_def sample_peers_def sample_peer_def leech_slot_def getPeer_def peer_at_def deref_def new_user_def hasToken_def
        mark_stopped_def update_amounts_def add_to_slot_def addPeer_def
        new_peer_def hx [unfolded bare_env_def sample_env_def, simplified] number_def getCorrupt_def Let_def bare_env_def sample_env_def pm_emplace_def)
  then show ?thesis by (simp add: announce_admitted_eq [OF ad t ev])
qed

text \<open>
  A balance of one byte and an announced corrupt count of \<open>2^63 - 1\<close>: the sum is no \<open>long\<close>.
\<close>

definition corrupt_request :: request where
  "corrupt_request = sample_request(''corrupt'' \<mapsto> ''9223372036854775807'')"

definition charged_tracker :: tracker where
  "charged_tracker = sample_tracker\<lparr>torMap := [(''h'', sample_torrent\<lparr>t_balance := 1\<rparr>)]\<rparr>"

lemma corrupt_overflows_balance:
  "announce sample_env default_config corrupt_request ''h'' False charged_tracker = Inl (UB Signed_overflow)"
proof -
  have ad: "admitted default_config corrupt_request ''h'' charged_tracker"
    by (simp add: admitted_def charged_tracker_def sample_tracker_def empty_tracker_def new_user_def corrupt_request_def)
  let ?t = "sample_torrent\<lparr>t_balance := 1\<rparr>"
  have t: "map_of (torMap charged_tracker) ''h'' = Some ?t" by (simp add: charged_tracker_def)
  have ev: "corrupt_request ''event'' = Some ''updating''" by (simp add: corrupt_request_def)
  have c: "stoul ''9223372036854775807'' = Inr 9223372036854775807"
    by (simp add: stoul_def scan_number_def isspace_def isdigit_iff read_digits_def digit_value_def)
  have "announce_work sample_env default_config (leechStatus charged_tracker) (usrMap charged_tracker) corrupt_request
      ''updating'' False (start_work ?t charged_tracker) = Inl (UB Signed_overflow)"
    by (simp add: announce_work_def corrupt_request_def charged_tracker_def
        find_peer_def leech_block_def free_rate_def start_work_def sample_tracker_def empty_tracker_def sample_torrent_def
        new_torrent_def sample_peers_def sample_peer_def leech_slot_def getPeer_def peer_at_def deref_def new_user_def hasToken_def
        mark_stopped_def update_amounts_def
        balance_block_def setBalance_def long_range_def peer_updateStats_def corrupt_of_def number_def getCorrupt_def
        Let_def c)
  then show ?thesis by (simp add: announce_admitted_eq [OF ad t ev])
qed

end
