(* ===== verification/Swarm.thy ===== *)
theory Swarm
  imports Service Server
begin

text \<open>
  What a tracker is for, as an abstract machine: per info hash the set of the peers that are
  listed, with the table that lists them. The lemmas show that the tracker of the code refines
  it: every event of the server does to the tables what a few abstract actions do to the sets.
\<close>

section \<open>The abstract tracker\<close>

type_synonym swarms = "string \<rightharpoonup> swarm"

datatype swarm_action =
    Announced string string string string bool
  | Created string
  | Deleted string
  | Expired

definition shrinks :: "swarm option \<Rightarrow> swarm option \<Rightarrow> bool" where
  "shrinks P P' \<longleftrightarrow> (case P' of None \<Rightarrow> True | Some Q' \<Rightarrow> \<exists>Q. P = Some Q \<and> Q' \<subseteq> Q)"

inductive swarm_step :: "swarms \<Rightarrow> swarm_action \<Rightarrow> swarms \<Rightarrow> bool" where
  announced: "S h = Some P \<Longrightarrow>
    swarm_step S (Announced h pid left event ipv6) (S(h \<mapsto> announce_listed left event ipv6 pid P))"
| created: "S h = None \<Longrightarrow> swarm_step S (Created h) (S(h \<mapsto> {}))"
| deleted: "swarm_step S (Deleted h) (S(h := None))"
| expired: "(\<And>h. shrinks (S h) (S' h)) \<Longrightarrow> swarm_step S Expired S'"

inductive swarm_run :: "swarms \<Rightarrow> swarm_action list \<Rightarrow> swarms \<Rightarrow> bool" for S where
  start: "swarm_run S [] S"
| step: "swarm_run S as S' \<Longrightarrow> swarm_step S' a S'' \<Longrightarrow> swarm_run S (as @ [a]) S''"

section \<open>Abstraction\<close>

definition swarms_of :: "(string \<times> torrent) list \<Rightarrow> swarms" where
  "swarms_of tm = (\<lambda>h. map_option listed_in (map_of tm h))"

definition swarms :: "tracker \<Rightarrow> swarms" where
  "swarms s = swarms_of (torMap s)"

section \<open>The tables of the tracker\<close>

lemma swarm_run_one: "swarm_step S a S' \<Longrightarrow> swarm_run S [a] S'"
  using swarm_run.step [OF swarm_run.start] by fastforce

lemma swarm_run_trans: "swarm_run S' bs S'' \<Longrightarrow> swarm_run S as S' \<Longrightarrow> swarm_run S (as @ bs) S''"
proof (induction rule: swarm_run.induct)
  case (step bs T b T')
  then show ?case using swarm_run.step [of S "as @ bs" T b T'] by simp
qed simp

lemma swarm_run_none: "\<exists>as. swarm_run S as S \<and> list_all P as"
  by (rule exI [of _ "[]"]) (simp add: swarm_run.start)

lemma swarms_torMap: "torMap s' = torMap s \<Longrightarrow> swarms s' = swarms s"
  by (simp add: swarms_def)

lemma swarms_of_emplace:
  "om_wf tm \<Longrightarrow> swarms_of (om_emplace h (new_torrent i f n b) tm) =
    (if swarms_of tm h = None then (swarms_of tm)(h \<mapsto> {}) else swarms_of tm)"
  by (auto simp: swarms_of_def om_find_emplace fun_eq_iff)

lemma create_swarms:
  "om_wf (torMap s) \<Longrightarrow> swarms (create_if_public cfg h s) =
    (if is_public cfg \<and> swarms s h = None then (swarms s)(h \<mapsto> {}) else swarms s)"
  by (auto simp: create_if_public_def swarms_def swarms_of_emplace) (auto simp: swarms_of_def)

lemma finish_work_swarms: "swarms (finish_work h w s) = (swarms s)(h \<mapsto> listed_in (w_tor w))"
  by (auto simp: finish_work_def swarms_def swarms_of_def)

text \<open>What a request asks for.\<close>

definition requested :: "config \<Rightarrow> string \<Rightarrow> bool \<Rightarrow> swarm_action \<Rightarrow> bool" where
  "requested cfg str ipv6 a \<longleftrightarrow> (\<exists>req hashes. parse str = Inr (req, hashes) \<and> (case a of
     Announced h pid left event v6 \<Rightarrow> req ''action'' = Some ''announce'' \<and> hashes \<noteq> [] \<and> h = hd hashes \<and>
       peer_id_param req = Inr pid \<and> req ''left'' = Some left \<and>
       event = (case req ''event'' of Some ev \<Rightarrow> ev | None \<Rightarrow> ''updating'') \<and> v6 = ipv6
   | Created h \<Rightarrow> is_update cfg req = Inr True \<or> is_public cfg \<and> hashes \<noteq> [] \<and> h = hd hashes
   | Deleted h \<Rightarrow> is_update cfg req = Inr True
   | Expired \<Rightarrow> False))"

fun caused :: "config \<Rightarrow> tracker_event \<Rightarrow> swarm_action \<Rightarrow> bool" where
  "caused cfg (Request e str ip ipv6) a = requested cfg str ipv6 a"
| "caused cfg (Clear_peers now) a = (a = Expired)"
| "caused cfg ev a = False"

lemma announce_swarms:
  assumes run: "announce e cfg req h ipv6 s = Inr (reply, s')" and ok: "tracker_ok cfg s" and pton: "pton_ok (e_pton e)"
  obtains (unserved) "s' = s \<or> s' = create_if_public cfg h s"
  | (listed) event pid left P where "req ''event'' = Some event" "req ''peer_id'' = Some pid" "req ''left'' = Some left"
      "swarms (create_if_public cfg h s) h = Some P"
      "swarms s' = (swarms (create_if_public cfg h s))(h \<mapsto> announce_listed left event ipv6 pid P)"
  using run
proof (cases rule: announce_cases)
  case (served event t w)
  let ?s = "create_if_public cfg h s"
  from served(3) obtain left pid where l: "req ''left'' = Some left" "req ''peer_id'' = Some pid"
    by (cases rule: announce_work_parts)
  have w: "work_ok cfg (start_work t ?s)"
    using tracker_ok_torrent [OF create_if_public_ok [OF ok] served(2)] by (simp add: work_ok_def start_work_def)
  have pk: "passkey_ok cfg (usrMap s) req (length (w_users (start_work t ?s)))"
    using served(5) by (auto simp: passkey_ok_def start_work_def dest!: deref_Inr elim!: valid_ptrE)
  have "listed_in (w_tor w) = announce_listed left event ipv6 pid (listed_in t)"
    using announce_work_listed [OF served(3) l(2,1) w pton pk] by (simp add: start_work_def)
  then show ?thesis
    using l served(1,2,4) by (intro listed [of event pid left "listed_in t"]) (simp_all add: finish_work_swarms, simp add: swarms_def swarms_of_def)
qed (use unserved in auto)

lemma create_path:
  assumes "om_wf (torMap s)"
  shows "\<exists>as. swarm_run (swarms s) as (swarms (create_if_public cfg h s)) \<and> (\<forall>a \<in> set as. is_public cfg \<and> a = Created h)"
proof (cases "is_public cfg \<and> swarms s h = None")
  case True
  then show ?thesis
    using swarm_run_one [OF created [of "swarms s" h]] by (auto simp: create_swarms [OF assms] intro: exI [of _ "[Created h]"])
next
  case False
  then show ?thesis using swarm_run.start by (auto simp: create_swarms [OF assms] intro!: exI [of _ "[]"])
qed

lemma announce_path:
  assumes run: "announce e cfg req h ipv6 s = Inr (reply, s')" and ok: "tracker_ok cfg s" and pton: "pton_ok (e_pton e)"
  shows "\<exists>as. swarm_run (swarms s) as (swarms s') \<and> (\<forall>a \<in> set as. is_public cfg \<and> a = Created h \<or>
    (\<exists>pid left event. a = Announced h pid left event ipv6 \<and> req ''peer_id'' = Some pid \<and> req ''left'' = Some left \<and>
      req ''event'' = Some event))"
proof -
  have "om_wf (torMap s)" using ok by (simp add: tracker_ok_def)
  from create_path [OF this] obtain as where as: "swarm_run (swarms s) as (swarms (create_if_public cfg h s))"
    "\<forall>a \<in> set as. is_public cfg \<and> a = Created h" by blast
  from run ok pton show ?thesis
  proof (cases rule: announce_swarms)
    case unserved
    with as swarm_run.start show ?thesis by (metis empty_iff list.set(1))
  next
    case (listed event pid left P)
    have "swarm_step (swarms (create_if_public cfg h s)) (Announced h pid left event ipv6) (swarms s')"
      unfolding listed(5) using listed(4) by (rule announced)
    from swarm_run.step [OF as(1) this] as(2) listed(1-3) show ?thesis
      by (intro exI [of _ "as @ [Announced h pid left event ipv6]"]) auto
  qed
qed

lemma swarms_of_set_free [simp]: "swarms_of (set_free_at h f tm) = swarms_of tm"
  by (auto simp: swarms_of_def set_free_at_def listed_in_def fun_eq_iff split: option.splits)

text \<open>What an update may do to the swarms.\<close>

definition updated_swarms :: "swarms \<Rightarrow> swarms \<Rightarrow> bool" where
  "updated_swarms S S' \<longleftrightarrow>
    (\<exists>h. S' = S \<or> S h = None \<and> S' = S(h \<mapsto> {}) \<or> S' = S(h := None))"

lemma updated_swarms_refl [simp]: "updated_swarms S S"
  by (simp add: updated_swarms_def)

lemma removeUsers_from_torMap [simp]: "torMap (removeUsers_from ks i s) = torMap s"
proof (induction ks i s rule: removeUsers_from.induct)
  case (1 ks i s)
  then show ?case
    by (cases "i < length ks") (simp_all add: removeUsers_from.simps [of ks i s] remove_passkey_def split: option.split)
qed

lemma quiet_updates:
  "changePasskey req s = Inr s' \<Longrightarrow> updated_swarms (swarms s) (swarms s')" "addUser req s = Inr s' \<Longrightarrow> updated_swarms (swarms s) (swarms s')"
  "updateUser req s = Inr s' \<Longrightarrow> updated_swarms (swarms s) (swarms s')" "removeUser req s = Inr s' \<Longrightarrow> updated_swarms (swarms s) (swarms s')"
  "removeUsers req s = Inr s' \<Longrightarrow> updated_swarms (swarms s) (swarms s')" "addToken now req h s = Inr s' \<Longrightarrow> updated_swarms (swarms s) (swarms s')"
  "removeToken req h s = Inr s' \<Longrightarrow> updated_swarms (swarms s) (swarms s')" "addIPRestriction req s = Inr s' \<Longrightarrow> updated_swarms (swarms s) (swarms s')"
  "removeIPRestriction req s = Inr s' \<Longrightarrow> updated_swarms (swarms s) (swarms s')" "addBan req s = Inr s' \<Longrightarrow> updated_swarms (swarms s) (swarms s')"
  "removeBan req s = Inr s' \<Longrightarrow> updated_swarms (swarms s) (swarms s')" "addWhitelist req s = Inr s' \<Longrightarrow> updated_swarms (swarms s) (swarms s')"
  "editWhitelist req s = Inr s' \<Longrightarrow> updated_swarms (swarms s) (swarms s')" "removeWhitelist req s = Inr s' \<Longrightarrow> updated_swarms (swarms s) (swarms s')"
  "setLeechStatus req s = Inr s' \<Longrightarrow> updated_swarms (swarms s) (swarms s')"
  by (auto simp: swarms_def changePasskey_def addUser_def updateUser_def removeUser_def removeUsers_def addToken_def removeToken_def
      addIPRestriction_def removeIPRestriction_def addBan_def removeBan_def addWhitelist_def editWhitelist_def
      removeWhitelist_def setLeechStatus_def on_user_Inr alloc_def remove_passkey_def Let_def split: option.splits if_splits)

lemma torrent_updates:
  "addTorrent req h s = Inr s' \<Longrightarrow> om_wf (torMap s) \<Longrightarrow> updated_swarms (swarms s) (swarms s')"
  "updateTorrent req h s = Inr s' \<Longrightarrow> updated_swarms (swarms s) (swarms s')"
  "deleteTorrent logging h s = Inr s' \<Longrightarrow> updated_swarms (swarms s) (swarms s')"
  by (auto simp: addTorrent_def updateTorrent_def deleteTorrent_def Let_def swarms_def swarms_of_emplace split: if_splits)
    (auto simp: updated_swarms_def swarms_def deleteTorrent_def swarms_of_def fun_eq_iff AList.delete_conv')

lemma update_state_swarms:
  assumes r: "update_state e type req hashes s = Inr s'" and wf: "om_wf (torMap s)"
  shows "updated_swarms (swarms s) (swarms s')"
  using r unfolding update_state_def
  by (elim if_InrE bindE_InrE) (use wf in \<open>auto intro: quiet_updates torrent_updates\<close>)

lemma update_path:
  assumes r: "update e req hashes s = Inr (reply, s')" and wf: "om_wf (torMap s)"
  shows "\<exists>as h. swarm_run (swarms s) as (swarms s') \<and> set as \<subseteq> {Created h, Deleted h}"
proof -
  obtain type where "update_state e type req hashes s = Inr s'" using r by (auto simp: update_def)
  from update_state_swarms [OF this wf] obtain h where
    h: "swarms s' = swarms s \<or> swarms s h = None \<and> swarms s' = (swarms s)(h \<mapsto> {}) \<or> swarms s' = (swarms s)(h := None)"
    unfolding updated_swarms_def ..
  have "swarm_run (swarms s) [] (swarms s)" by (rule swarm_run.start)
  moreover have "swarms s h = None \<Longrightarrow> swarm_run (swarms s) [Created h] ((swarms s)(h \<mapsto> {}))"
    by (rule swarm_run_one [OF created])
  moreover have "swarm_run (swarms s) [Deleted h] ((swarms s)(h := None))" by (rule swarm_run_one [OF deleted])
  ultimately show ?thesis using h by (elim disjE) (auto intro!: exI [of _ h] exI conjI)
qed

section \<open>Requests and timers\<close>

lemma dispatch_path:
  assumes run: "dispatch e cfg (fm_emplace ''ip'' ip req) hashes ipv6 s = Inr (reply, s')" and "hashes \<noteq> []"
    and p: "parse str = Inr (req, hashes)" and ok: "tracker_ok cfg s" and pton: "pton_ok (e_pton e)"
  shows "\<exists>as. swarm_run (swarms s) as (swarms s') \<and> list_all (requested cfg str ipv6) as"
proof (cases "s' = s")
  case True
  then show ?thesis by (simp add: swarm_run_none)
next
  case False
  with run assms(2) obtain pid where act: "req ''action'' = Some ''announce''" and pid: "peer_id_param req = Inr pid"
    and a: "announce e cfg (announce_params ip pid req) (hd hashes) ipv6 s = Inr (reply, s')"
    by (cases hashes) (auto simp: dispatch_def announce_request_def peer_id_param_def announce_params_def front_def
        split: if_splits)
  from announce_path [OF a ok pton] obtain as where as: "swarm_run (swarms s) as (swarms s')"
    "\<forall>a \<in> set as. is_public cfg \<and> a = Created (hd hashes) \<or>
      (\<exists>pid' left event. a = Announced (hd hashes) pid' left event ipv6 \<and> announce_params ip pid req ''peer_id'' = Some pid' \<and>
        announce_params ip pid req ''left'' = Some left \<and> announce_params ip pid req ''event'' = Some event)" by blast
  have "requested cfg str ipv6 a" if a: "a \<in> set as" for a
  proof -
    from as(2) a consider "is_public cfg" "a = Created (hd hashes)"
      | left event where "a = Announced (hd hashes) pid left event ipv6" "req ''left'' = Some left"
          "announce_params ip pid req ''event'' = Some event" by fastforce
    then show ?thesis
      by cases (use p act pid assms(2) in \<open>simp_all add: requested_def\<close>)
  qed
  then have "list_all (requested cfg str ipv6) as" by (simp add: list_all_iff)
  with as(1) show ?thesis by blast
qed

lemma handle_path:
  assumes run: "handle e cfg required str ip ipv6 s = Inr (reply, s')" and ok: "tracker_ok cfg s" and pton: "pton_ok (e_pton e)"
  shows "\<exists>as. swarm_run (swarms s) as (swarms s') \<and> list_all (requested cfg str ipv6) as"
proof -
  have quiet: ?thesis if "s' = s"
    using that by (simp add: swarm_run_none)
  obtain req hashes where p: "parse str = Inr (req, hashes)" using run by (auto simp: handle_def)
  show ?thesis
  proof (cases "check required req = Inr ''success''")
    case False
    then show ?thesis using run p quiet by (auto simp: handle_def)
  next
    case True
    with run p have "handle_checked e cfg req hashes ip ipv6 s = Inr (reply, s')" by (simp add: handle_def)
    then show ?thesis
    proof (cases rule: handle_checked_cases)
      case updated
      have "om_wf (torMap s)" using ok by (simp add: tracker_ok_def)
      from update_path [OF updated(2) this] obtain as h where
        "swarm_run (swarms s) as (swarms s')" "set as \<subseteq> {Created h, Deleted h}" by blast
      with p updated(1) show ?thesis by (fastforce simp: list_all_iff requested_def)
    next
      case (dispatched addr passkey)
      with p ok pton show ?thesis by (intro dispatch_path)
    qed (use quiet in auto)
  qed
qed

lemma live_listed: "live cfg now t t' \<Longrightarrow> pm_wf (pMap (get_slot sl t)) \<Longrightarrow> (sl, k) \<in> listed_in t' \<Longrightarrow> (sl, k) \<in> listed_in t"
  by (auto simp: live_def getPeer_def map_of_eq_None_iff dest!: map_of_SomeD)

lemma clearTorrentPeers_path:
  assumes run: "clearTorrentPeers cfg now s = Inr s'" and ok: "tracker_ok cfg s"
  shows "swarm_step (swarms s) Expired (swarms s')"
proof (rule expired)
  fix h
  from clearTorrentPeers_ok [OF run ok] obtain ts where ts: "live_torrents cfg now (torMap s) ts"
    and tm: "torMap s' = (if is_public cfg then filter (\<lambda>(k, t). \<not> torrent_empty t) ts else ts)" by auto
  show "shrinks (swarms s h) (swarms s' h)"
  proof (cases "map_of (torMap s') h")
    case None
    then show ?thesis by (simp add: shrinks_def swarms_def swarms_of_def)
  next
    case (Some t')
    then have "(h, t') \<in> set ts" using tm by (auto dest!: map_of_SomeD split: if_splits)
    then obtain t where t: "(h, t) \<in> set (torMap s)" "live cfg now t t'"
      using ts by (auto simp: live_torrents_def list_all2_conv_all_nth in_set_conv_nth) (metis (mono_tags, lifting) case_prod_conv nth_mem surj_pair)
    have "map_of (torMap s) h = Some t"
      using t(1) ok by (intro map_of_is_SomeI om_wf_distinct) (simp_all add: tracker_ok_def)
    moreover have "listed_in t' \<subseteq> listed_in t"
      using live_listed [OF t(2)] torrent_ok_slot ok t(1) by (fastforce simp: tracker_ok_def peers_ok_def)
    ultimately show ?thesis using Some by (simp add: shrinks_def swarms_def swarms_of_def)
  qed
qed

section \<open>Runs\<close>

lemma tracker_step_path:
  assumes run: "tracker_step cfg required ev s = Inr s'" and ok: "tracker_ok cfg s" and ev: "event_ok ev"
  shows "\<exists>as. swarm_run (swarms s) as (swarms s') \<and> list_all (caused cfg ev) as"
proof (cases ev)
  case (Request e str ip ipv6)
  with run obtain reply where "handle e cfg required str ip ipv6 s = Inr (reply, s')" by auto
  from handle_path [OF this ok] Request ev show ?thesis by (simp add: list_all_iff)
next
  case (Clear_peers now)
  with run have "clearTorrentPeers cfg now s = Inr s'" by simp
  from swarm_run_one [OF clearTorrentPeers_path [OF this ok]] Clear_peers show ?thesis
    by (intro exI [of _ "[Expired]"]) simp
next
  case Flush_records
  with run have "swarms s' = swarms s" by (auto simp: flushSqlRecords_def swarms_def)
  then show ?thesis by (simp add: swarm_run_none)
next
  case (Worker fails t)
  with run have "swarms s' = swarms s" by (auto simp: swarms_def)
  then show ?thesis by (simp add: swarm_run_none)
qed

lemma tracker_run_path:
  assumes "runE (tracker_step cfg required) evs s = Inr s'" and "tracker_ok cfg s" and "list_all event_ok evs"
  shows "\<exists>as. swarm_run (swarms s) as (swarms s') \<and> (\<forall>a \<in> set as. \<exists>ev \<in> set evs. caused cfg ev a)"
  using assms
proof (induction evs arbitrary: s)
  case Nil
  then have "s' = s" by simp
  then show ?case by (intro exI [of _ "[]"]) (simp add: swarm_run.start)
next
  case (Cons ev evs)
  then obtain s1 where s1: "tracker_step cfg required ev s = Inr s1" "runE (tracker_step cfg required) evs s1 = Inr s'" by auto
  have ev: "event_ok ev" using Cons.prems(3) by simp
  have "tracker_ok cfg s1" by (rule tracker_machine.step_keeps [OF Cons.prems(2) ev s1(1)])
  with Cons.IH [OF s1(2)] Cons.prems(3) obtain bs where bs: "swarm_run (swarms s1) bs (swarms s')"
    "\<forall>a \<in> set bs. \<exists>ev \<in> set evs. caused cfg ev a" by auto
  from tracker_step_path [OF s1(1) Cons.prems(2) ev] obtain as where as: "swarm_run (swarms s) as (swarms s1)"
    "list_all (caused cfg ev) as" by blast
  from swarm_run_trans [OF bs(1) as(1)] as(2) bs(2) show ?case
    by (intro exI [of _ "as @ bs"]) (auto simp: list_all_iff)
qed

text \<open>An entry of a swarm is new only when its peer announced.\<close>

lemma swarm_step_new:
  assumes "swarm_step S a S'" and "S' h = Some P'" and "x \<in> P'"
  shows "(\<exists>P. S h = Some P \<and> x \<in> P) \<or> (\<exists>left event ipv6. a = Announced h (snd x) left event ipv6)"
  using assms
proof cases
  case (announced k P pid left event ipv6)
  show ?thesis
  proof (cases "k = h \<and> snd x = pid")
    case False
    with assms(2,3) announced show ?thesis
      by (auto simp: announce_listed_def Let_def split: if_splits)
  qed (use announced in auto)
next
  case expired
  with assms(2,3) have "shrinks (S h) (Some P')" by metis
  with assms(3) show ?thesis by (auto simp: shrinks_def)
qed (use assms(2,3) in \<open>auto split: if_splits\<close>)

lemma swarm_run_new:
  "swarm_run S as S' \<Longrightarrow> S' h = Some P' \<Longrightarrow> x \<in> P' \<Longrightarrow>
    (\<exists>P. S h = Some P \<and> x \<in> P) \<or> (\<exists>left event ipv6. Announced h (snd x) left event ipv6 \<in> set as)"
proof (induction arbitrary: P' rule: swarm_run.induct)
  case (step as T a T')
  from swarm_step_new [OF step.hyps(2) step.prems] show ?case
  proof
    assume "\<exists>P. T h = Some P \<and> x \<in> P"
    with step.IH show ?thesis by auto
  qed auto
qed auto

section \<open>Properties\<close>

text \<open>C5: The tables implement sets of peers. An announce the tracker admits changes the set of
  its torrent exactly as the specification of an announce says, and no other set.\<close>

theorem announce_refines_swarm:
  assumes "tracker_ok cfg s" and "pton_ok (e_pton e)" and "admitted cfg req h s"
    and "announce e cfg req h ipv6 s = Inr (reply, s')"
    and "req ''peer_id'' = Some pid" and "req ''left'' = Some left" and "req ''event'' = Some event"
  shows "\<exists>P. swarms s h = Some P \<and> swarms s' = (swarms s)(h \<mapsto> announce_listed left event ipv6 pid P)"
proof -
  obtain t where t: "map_of (torMap s) h = Some t" using assms(3) by (auto simp: admitted_def)
  from assms(4) obtain w where
    w: "announce_work e cfg (leechStatus s) (usrMap s) req event ipv6 (start_work t s) = Inr (reply, w)"
    and s': "s' = finish_work h w s" by (auto simp: announce_admitted_eq [OF assms(3) t assms(7)])
  have "work_ok cfg (start_work t s)"
    using tracker_ok_torrent [OF assms(1) t] by (simp add: work_ok_def start_work_def)
  moreover have "passkey_ok cfg (usrMap s) req (length (w_users (start_work t s)))"
    using assms(3) by (auto simp: admitted_def passkey_ok_def start_work_def dest!: deref_Inr elim!: valid_ptrE)
  ultimately have "listed_in (w_tor w) = announce_listed left event ipv6 pid (listed_in t)"
    using announce_work_listed [OF w assms(5,6) _ assms(2)] by (simp add: start_work_def)
  then show ?thesis using t by (simp add: s' finish_work_swarms) (simp add: swarms_def swarms_of_def)
qed

text \<open>C4: The tracker refines the abstract machine: every event of every run (a request of any
  kind, the timer, a flush, a worker) does to the swarms what a sequence of abstract actions
  does, and each action has its cause: an announcement in a request that announces that
  torrent with that peer id and those bytes left, a creation in an update or, on a public
  tracker, a first announce, a deletion in an update, an expiry in the timer.\<close>

theorem tracker_refines_swarms:
  assumes "runE (tracker_step cfg required) evs s = Inr s'" and "tracker_ok cfg s" and "list_all event_ok evs"
  shows "\<exists>as. swarm_run (swarms s) as (swarms s') \<and> (\<forall>a \<in> set as. \<exists>ev \<in> set evs. caused cfg ev a)"
  by (rule tracker_run_path [OF assms])

text \<open>C6: No peer is handed out that did not ask for it: whoever is listed for a torrent after a
  run was listed before, or the run contains a request whose text announces that torrent with
  that peer id.\<close>

theorem listed_peers_announced:
  assumes "runE (tracker_step cfg required) evs s = Inr s'" and "tracker_ok cfg s" and "list_all event_ok evs"
    and "map_of (torMap s') h = Some t'" and "getPeer k (get_slot sl t') \<noteq> None"
  shows "(\<exists>t. map_of (torMap s) h = Some t \<and> getPeer k (get_slot sl t) \<noteq> None) \<or>
    (\<exists>e str ip ipv6 req hashes. Request e str ip ipv6 \<in> set evs \<and> parse str = Inr (req, hashes) \<and>
      req ''action'' = Some ''announce'' \<and> hashes \<noteq> [] \<and> hd hashes = h \<and> peer_id_param req = Inr k)"
proof -
  from tracker_run_path [OF assms(1-3)] obtain as where as: "swarm_run (swarms s) as (swarms s')"
    "\<forall>a \<in> set as. \<exists>ev \<in> set evs. caused cfg ev a" by blast
  have P': "swarms s' h = Some (listed_in t')" "(sl, k) \<in> listed_in t'"
    using assms(4,5) by (simp_all add: swarms_def swarms_of_def)
  from swarm_run_new [OF as(1) P'] show ?thesis
  proof
    assume "\<exists>P. swarms s h = Some P \<and> (sl, k) \<in> P"
    then show ?thesis by (auto simp: swarms_def swarms_of_def)
  next
    assume "\<exists>left event ipv6. Announced h (snd (sl, k)) left event ipv6 \<in> set as"
    then obtain ev left event v6 where ev: "ev \<in> set evs" "caused cfg ev (Announced h k left event v6)"
      using as(2) by force
    from ev(2) obtain e str ip ipv6 where "ev = Request e str ip ipv6" "requested cfg str ipv6 (Announced h k left event v6)"
      by (cases ev rule: tracker_event.exhaust) auto
    with ev(1) show ?thesis by (simp add: requested_def) blast
  qed
qed

section \<open>Concrete inputs\<close>

lemma announce_refines_swarm_witness:
  "\<exists>reply s'. announce sample_env default_config sample_request ''h'' False sample_tracker = Inr (reply, s') \<and>
    swarms s' = (swarms sample_tracker)(''h'' \<mapsto> announce_listed ''1'' ''updating'' False ''b'' (listed_in sample_torrent))"
proof -
  have h: "map_of (torMap sample_tracker) ''h'' = Some sample_torrent" by (simp add: sample_tracker_def)
  have r: "sample_request ''peer_id'' = Some ''b''" "sample_request ''left'' = Some ''1''"
    "sample_request ''event'' = Some ''updating''" by simp_all
  from announce_serves [OF sample_tracker_ok sample_env_ok sample_admitted h sample_cursors sample_request_ok r
    sample_request_accountable, of False] obtain reply s' where
    a: "announce sample_env default_config sample_request ''h'' False sample_tracker = Inr (reply, s')"
    by (auto simp: spared_def)
  from announce_refines_swarm [OF sample_tracker_ok sample_env_ok sample_admitted a r] h show ?thesis
    using a by (auto simp: swarms_def swarms_of_def)
qed

lemma sample_handled:
  "\<exists>reply s' t'. handle sample_env default_config (required_params default_config) sample_announce ''10.0.0.1'' False
      service_tracker = Inr (reply, s') \<and> map_of (torMap s') sample_hash = Some t' \<and>
    getPeer sample_peer_id (t_leechers t') \<noteq> None"
proof -
  have h: "handle sample_env default_config (required_params default_config) sample_announce ''10.0.0.1'' False service_tracker =
      announce sample_env default_config sample_request_seen (hd [sample_hash]) False service_tracker"
    by (rule handle_announces [OF parse_sample_announce check_sample_announce sample_acceptable])
      (simp_all add: peer_id_param_def sample_params_def)
  have t: "map_of (torMap service_tracker) sample_hash = Some sample_torrent" by (simp add: service_tracker_def)
  have r: "sample_request_seen ''peer_id'' = Some sample_peer_id" "sample_request_seen ''left'' = Some ''1''"
    "sample_request_seen ''event'' = Some ''updating''" by (simp_all add: sample_params_def)
  from announce_serves [OF service_tracker_ok sample_env_ok sample_seen_admitted t sample_cursors sample_seen_ok r
      sample_seen_accountable, of False]
  obtain reply s' t' where a: "announce sample_env default_config sample_request_seen sample_hash False service_tracker = Inr (reply, s')"
    "map_of (torMap s') sample_hash = Some t'"
    and l: "listed_in t' = announce_listed ''1'' ''updating'' False sample_peer_id (listed_in sample_torrent)"
    by (auto simp: spared_def announced_def)
  have "(Leechers, sample_peer_id) \<in> listed_in t'"
    by (simp add: l announce_listed_def removed_slots_def leech_slot_def)
  with a show ?thesis by (auto simp: h listed_in_def)
qed

lemma sample_run:
  "\<exists>s' t'. runE (tracker_step default_config (required_params default_config))
      [Request sample_env sample_announce ''10.0.0.1'' False] service_tracker = Inr s' \<and>
    map_of (torMap s') sample_hash = Some t' \<and> getPeer sample_peer_id (get_slot Leechers t') \<noteq> None"
  using sample_handled by auto

lemma tracker_refines_swarms_witness:
  "\<exists>s' as. runE (tracker_step default_config (required_params default_config))
      [Request sample_env sample_announce ''10.0.0.1'' False] service_tracker = Inr s' \<and>
    swarm_run (swarms service_tracker) as (swarms s')"
proof -
  obtain s' where r: "runE (tracker_step default_config (required_params default_config))
      [Request sample_env sample_announce ''10.0.0.1'' False] service_tracker = Inr s'" using sample_run by blast
  from tracker_refines_swarms [OF r service_tracker_ok] r show ?thesis by (auto simp: sample_env_ok)
qed

lemma listed_peers_announced_witness:
  "\<exists>req hashes. parse sample_announce = Inr (req, hashes) \<and> hd hashes = sample_hash \<and> peer_id_param req = Inr sample_peer_id"
proof -
  obtain s' t' where r: "runE (tracker_step default_config (required_params default_config))
      [Request sample_env sample_announce ''10.0.0.1'' False] service_tracker = Inr s'"
    and t: "map_of (torMap s') sample_hash = Some t'" "getPeer sample_peer_id (get_slot Leechers t') \<noteq> None"
    using sample_run by blast
  have "getPeer sample_peer_id (get_slot Leechers sample_torrent) = None"
    by (simp add: sample_torrent_slots sample_peers_def getPeer_def sample_peer_id_def numeral_eq_Suc)
  with listed_peers_announced [OF r service_tracker_ok _ t] show ?thesis
    by (auto simp: sample_env_ok service_tracker_def)
qed

end
