(* ===== verification/Credit.thy ===== *)
theory Credit
  imports AnnounceRecords
begin

text \<open>
  Who pays for an announce on a private tracker: the accounting of
  \<open>RequestHandler::announce\<close> (src/handler/requestHandler.cpp), \<open>Peer::updateStats\<close>,
  \<open>User::updateStats\<close> and \<open>MySQL::recordUser\<close> together.
\<close>

section \<open>The account that is charged\<close>

text \<open>
  An account charged for a peer that announced \<open>d\<close> and \<open>u\<close> bytes: the differences to the
  totals of the peer, of which 32 bits arrive.
\<close>

definition charge :: "peer \<Rightarrow> u64 \<Rightarrow> u64 \<Rightarrow> int \<Rightarrow> user \<Rightarrow> user" where
  "charge p d u free acc =
    (let down = ucast (d * word_of_int (1 - free div 100) - p_totalDownloaded p) :: u32;
         up = ucast (u - p_totalUploaded p) :: u32
     in acc\<lparr>u_downloaded := u_downloaded acc + ucast down, u_uploaded := u_uploaded acc + ucast up\<rparr>)"

lemma user_reset_unchanged: "\<not> hasChanged u \<Longrightarrow> user_reset u = u"
  by (simp add: hasChanged_def user_reset_def)

lemma recordUser_charges:
  assumes "recordUser (Some a) (h, d) = Inr (h', d')"
  shows "h' = h[a := user_reset (h ! a)]"
    and "d' = (if hasChanged (h ! a) then push_request Users (user_row (h ! a)) d else d)"
  using assms by (auto simp: recordUser_def modify_def deref_def user_reset_unchanged split: if_splits)

lemma record_user_block_charges:
  assumes "record_user_block cfg pp w = Inr w'" and "is_private cfg" and "peer_at pp (w_tor w) = Inr p" and "p_user p = Some a"
  shows "let x = user_updateStats (ucast (p_downloaded p)) (ucast (p_uploaded p)) (w_users w ! a)
    in w_users w' = (w_users w)[a := user_reset x] \<and>
      w_db w' = (if hasChanged x then push_request Users (user_row x) (w_db w) else w_db w)"
proof -
  let ?x = "user_updateStats (ucast (p_downloaded p)) (ucast (p_uploaded p)) (w_users w ! a)"
  from assms obtain h' d' where a: "a < length (w_users w)"
    and r: "recordUser (Some a) ((w_users w)[a := ?x], w_db w) = Inr (h', d')" and w': "w' = w\<lparr>w_users := h', w_db := d'\<rparr>"
    by (auto simp: record_user_block_def modify_def deref_def split: if_splits)
  from recordUser_charges [OF r] a show ?thesis by (simp add: w' Let_def)
qed

text \<open>The blocks before and after it neither touch accounts nor queue rows for them.\<close>

definition spares_users :: "work \<Rightarrow> work \<Rightarrow> bool" where
  "spares_users w w' \<longleftrightarrow> w_users w' = w_users w \<and> requests (w_db w') Users = requests (w_db w) Users"

lemma sparing_blocks:
  "mark_stopped pp event w = Inr w' \<Longrightarrow> spares_users w w'"
  "update_amounts e cfg req corrupt f pp w = Inr (b, w') \<Longrightarrow> spares_users w w'"
  "removal_block req left event ipv6 w = Inr w' \<Longrightarrow> spares_users w w'"
  "free_rate e cfg ls req pp w = Inr (free, w') \<Longrightarrow> spares_users w w'"
  "record_peer_block cfg pp w = Inr w' \<Longrightarrow> spares_users w w'"
  "balance_block b w = Inr w' \<Longrightarrow> spares_users w w'"
  by (auto simp: spares_users_def mark_stopped_def update_amounts_def removal_block_def remove_from_def free_rate_def
      record_peer_block_def balance_block_def recordPeer_def getTimespent_def recordToken_def push_request_def Let_def split: if_splits)

text \<open>The percentage that applies to an account.\<close>

definition free_for :: "leech_status \<Rightarrow> torrent \<Rightarrow> user \<Rightarrow> int" where
  "free_for ls t u = (if ls = FREELEECH \<or> hasToken (t_id t) u then 100 else int (unat (t_free t)))"

lemma free_rate_values:
  assumes "free_rate e cfg ls req pp w = Inr (free, w')" and "is_private cfg" and "peer_at pp (w_tor w) = Inr p" and "p_user p = Some a"
  shows "w_tor w' = w_tor w" and "free = free_for ls (w_tor w) (w_users w ! a)"
  using assms by (auto simp: free_rate_def free_for_def Let_def deref_def split: if_splits)

lemma update_amounts_charges:
  assumes "update_amounts e cfg req corrupt free pp w = Inr (b, w')" and "is_private cfg" and "peer_at pp (w_tor w) = Inr p"
    and "number req ''downloaded'' = Inr d" and "number req ''uploaded'' = Inr u"
  shows "\<exists>q. peer_at pp (w_tor w') = Inr q \<and> p_user q = p_user p \<and>
    p_downloaded q = d * word_of_int (1 - free div 100) - p_totalDownloaded p \<and> p_uploaded q = u - p_totalUploaded p"
  using assms by (cases pp) (auto simp: update_amounts_def Let_def peer_at_Inr)

lemma stopped_peer:
  "mark_stopped pp event w = Inr w' \<Longrightarrow> peer_at pp (w_tor w) = Inr p \<Longrightarrow>
    \<exists>q. peer_at pp (w_tor w') = Inr q \<and> p_user q = p_user p \<and> p_totalDownloaded q = p_totalDownloaded p \<and>
      p_totalUploaded q = p_totalUploaded p"
  by (cases pp) (auto simp: mark_stopped_def inactive_def peer_at_Inr split: if_splits)

lemma recorded_peer:
  "record_peer_block cfg pp w = Inr w' \<Longrightarrow> peer_at pp (w_tor w) = Inr p \<Longrightarrow>
    \<exists>q. peer_at pp (w_tor w') = Inr q \<and> p_user q = p_user p \<and> p_downloaded q = p_downloaded p \<and> p_uploaded q = p_uploaded p"
  by (cases pp) (auto simp: record_peer_block_def recordPeer_def getTimespent_def peer_at_Inr split: if_splits)

lemma find_present_leecher:
  assumes f: "find_peer e cfg ls um req pid left event ipv6 w = Inr (pp, free, w')"
    and left: "left \<noteq> ''0''" and ev: "event \<noteq> ''completed''" and was: "getPeer pid (get_slot (leech_slot ipv6) (w_tor w)) = Some p"
  shows "pp = (leech_slot ipv6, pid) \<and> free_rate e cfg ls req pp w = Inr (free, w')"
  using assms by (auto simp: find_peer_def leech_block_def Let_def)

lemma present_leecher_charged:
  assumes run: "announce_work e cfg ls um req event ipv6 w = Inr (reply, w')" and priv: "is_private cfg"
    and pid: "req ''peer_id'' = Some pid" and left: "req ''left'' = Some left" "left \<noteq> ''0''" and ev: "event \<noteq> ''completed''"
    and was: "getPeer pid (get_slot (leech_slot ipv6) (w_tor w)) = Some p" "p_user p = Some a"
    and num: "number req ''downloaded'' = Inr d" "number req ''uploaded'' = Inr u"
  shows "let x = charge p d u (free_for ls (w_tor w) (w_users w ! a)) (w_users w ! a) in
    w_users w' = (w_users w)[a := user_reset x] \<and>
    requests (w_db w') Users = requests (w_db w) Users @ (if hasChanged x then [user_row x] else [])"
proof -
  from run pid left(1) obtain pp free balance w1 w2 w3 wb w4 w5 w6 t where
    b: "find_peer e cfg ls um req pid left event ipv6 w = Inr (pp, free, w1)"
      "mark_stopped pp event w1 = Inr w2"
      "update_amounts e cfg req (corrupt_of req) free pp w2 = Inr (balance, w3)"
      "balance_block balance w3 = Inr wb" "record_peer_block cfg pp wb = Inr w4"
      "record_user_block cfg pp w4 = Inr w5" "removal_block req left event ipv6 w5 = Inr w6"
      "w' = (record_torrent_block cfg w6)\<lparr>w_tor := t\<rparr>" by (cases rule: announce_work_parts) auto
  note fp = find_present_leecher [OF b(1) left(2) ev was(1)]
  note pp = fp [THEN conjunct1] and fr = fp [THEN conjunct2]
  have was0: "peer_at pp (w_tor w) = Inr p" using was(1) by (simp add: pp peer_at_Inr)
  note free = free_rate_values [OF fr priv was0 was(2)]
  have "peer_at pp (w_tor w1) = Inr p" using was0 free(1) by simp
  from stopped_peer [OF b(2) this] obtain p2 where p2: "peer_at pp (w_tor w2) = Inr p2" "p_user p2 = p_user p"
    "p_totalDownloaded p2 = p_totalDownloaded p" "p_totalUploaded p2 = p_totalUploaded p" by blast
  from update_amounts_charges [OF b(3) priv p2(1) num] obtain p3 where p3: "peer_at pp (w_tor w3) = Inr p3" "p_user p3 = p_user p"
    "p_downloaded p3 = d * word_of_int (1 - free div 100) - p_totalDownloaded p" "p_uploaded p3 = u - p_totalUploaded p"
    using p2 by auto
  have "peer_at pp (w_tor wb) = Inr p3" using p3(1) balance_block_Inr [OF b(4)] by (simp add: peer_at_def)
  from recorded_peer [OF b(5) this] obtain p4 where p4: "peer_at pp (w_tor w4) = Inr p4" "p_user p4 = Some a"
    "p_downloaded p4 = p_downloaded p3" "p_uploaded p4 = p_uploaded p3" using p3(2) was(2) by auto
  have before: "spares_users w w4"
    using sparing_blocks(4) [OF fr] sparing_blocks(1) [OF b(2)] sparing_blocks(2) [OF b(3)] sparing_blocks(6) [OF b(4)]
      sparing_blocks(5) [OF b(5)]
    by (simp add: spares_users_def)
  have after: "spares_users w5 w'"
    using sparing_blocks(3) [OF b(7)] by (simp add: b(8) spares_users_def record_torrent_block_def recordTorrent_def push_request_def)
  let ?x = "charge p d u free (w_users w ! a)"
  have "user_updateStats (ucast (p_downloaded p4)) (ucast (p_uploaded p4)) (w_users w4 ! a) = ?x"
    using before by (simp add: charge_def user_updateStats_def Let_def p4 p3 spares_users_def)
  with record_user_block_charges [OF b(6) priv p4(1,2)] have
    "w_users w5 = (w_users w4)[a := user_reset ?x]"
    "w_db w5 = (if hasChanged ?x then push_request Users (user_row ?x) (w_db w4) else w_db w4)" by (simp_all add: Let_def)
  with before after free(2) show ?thesis by (auto simp: spares_users_def Let_def push_request_def)
qed

section \<open>Properties\<close>

text \<open>C16: Who pays. When an announce of a private tracker comes from a listed leecher that goes on
  downloading, exactly one account is charged: the one stored with the peer when it joined,
  whatever passkey the announce carries. It is charged the announced bytes, times the factor
  of the free leech of that account, less the totals of the peer; the row for the database holds its counters
  with that charge, after which they are 0, and a row is queued only when there is something
  to charge.\<close>

theorem announce_charges_owner:
  assumes "is_private cfg" and "admitted cfg req h s" and "map_of (torMap s) h = Some t"
    and "announce e cfg req h ipv6 s = Inr (reply, s')"
    and "req ''peer_id'' = Some pid" and "req ''left'' = Some left" and "left \<noteq> ''0''"
    and "req ''event'' = Some event" and "event \<noteq> ''completed''"
    and "getPeer pid (get_slot (leech_slot ipv6) t) = Some p" and "p_user p = Some a"
    and "number req ''downloaded'' = Inr d" and "number req ''uploaded'' = Inr u"
  shows "let x = charge p d u (free_for (leechStatus s) t (accounts s ! a)) (accounts s ! a) in
    accounts s' = (accounts s)[a := user_reset x] \<and>
    requests (dbase s') Users = requests (dbase s) Users @ (if hasChanged x then [user_row x] else [])"
proof -
  from assms(4) obtain w where
    w: "announce_work e cfg (leechStatus s) (usrMap s) req event ipv6 (start_work t s) = Inr (reply, w)"
    and s': "s' = finish_work h w s" by (auto simp: announce_admitted_eq [OF assms(2,3,8)])
  from present_leecher_charged [OF w assms(1,5,6,7,9) _ assms(11-13)] assms(10) show ?thesis
    by (simp add: start_work_def s' finish_work_def)
qed

text \<open>The second account announces with the peer id of the first: the first one is charged.\<close>

definition two_accounts :: tracker where
  "two_accounts = sample_tracker\<lparr>usrMap := [''key'' \<mapsto> 0, ''other'' \<mapsto> 1], accounts := [new_user 1 True, new_user 2 True]\<rparr>"

definition borrowed_request :: request where
  "borrowed_request = sample_request(''reqpasskey'' \<mapsto> ''other'')"

lemma two_accounts_ok: "tracker_ok default_config two_accounts"
proof -
  have "torrent_ok True [new_user 1 True, new_user 2 True] sample_torrent"
    by (rule torrent_ok_heap [OF sample_torrent_ok [of True]]) simp
  then show ?thesis
    by (auto simp: tracker_ok_def two_accounts_def sample_tracker_def empty_tracker_def om_wf_def)
qed

lemma borrowed_ok: "request_ok default_config (usrMap two_accounts) (length (accounts two_accounts)) borrowed_request"
  using sample_request_ok by (auto simp: request_ok_def borrowed_request_def two_accounts_def port_ok_def numeric_def
      number_def numwant_ok_def numwant_of_def)

lemma borrowed_admitted: "admitted default_config borrowed_request ''h'' two_accounts"
  by (simp add: admitted_def two_accounts_def borrowed_request_def sample_tracker_def empty_tracker_def new_user_def)

lemma borrowed_accountable: "accountable sample_env default_config borrowed_request pid sample_torrent"
  by (rule sample_accountable) (simp_all add: borrowed_request_def)

lemma announce_charges_owner_witness:
  "\<exists>reply s'. announce sample_env default_config borrowed_request ''h'' False two_accounts = Inr (reply, s') \<and>
    accounts s' ! 1 = new_user 2 True \<and> requests (dbase s') Users = [''(1, 2, 2)'']"
proof -
  have h: "map_of (torMap two_accounts) ''h'' = Some sample_torrent" by (simp add: two_accounts_def sample_tracker_def)
  have r: "borrowed_request ''peer_id'' = Some ''b''" "borrowed_request ''left'' = Some ''1''"
    "borrowed_request ''event'' = Some ''updating''" by (simp_all add: borrowed_request_def)
  have n: "number borrowed_request ''downloaded'' = Inr 7" "number borrowed_request ''uploaded'' = Inr 2"
    by (simp_all add: borrowed_request_def number_def)
  from announce_serves [OF two_accounts_ok sample_env_ok borrowed_admitted h sample_cursors borrowed_ok r borrowed_accountable, of False]
  obtain reply s' where a: "announce sample_env default_config borrowed_request ''h'' False two_accounts = Inr (reply, s')"
    by (auto simp: spared_def)
  have p: "getPeer ''b'' (get_slot (leech_slot False) sample_torrent) = Some (sample_peer ''b'')" "p_user (sample_peer ''b'') = Some 0"
    by (simp_all add: leech_slot_def sample_torrent_slots sample_peers_def getPeer_def sample_peer_def)
  have "user_row (charge (sample_peer ''b'') 7 2 0 (new_user 1 True)) = ''(1, 2, 2)''" by code_simp
  moreover have "hasChanged (charge (sample_peer ''b'') 7 2 0 (new_user 1 True))" by code_simp
  moreover have "free_for (leechStatus two_accounts) sample_torrent (new_user 1 True) = 0" by code_simp
  ultimately show ?thesis
    using announce_charges_owner [OF _ borrowed_admitted h a r(1,2) _ r(3) _ p n] a
    by (auto simp: two_accounts_def sample_tracker_def empty_tracker_def empty_db_def Let_def)
qed

end
