(* ===== verification/Spec2Isabelle.thy ===== *)
theory Spec2Isabelle
  imports Config Utility Logger Stats Response User Peer Database Peers Torrent Parser
    Announce AnnounceInv AnnounceReply Listing Accounting AnnounceEffect AnnounceRecords Admin RequestHandler DbLoad Connection Server
    Gzip Workers Service Robustness Swarm Credit
begin

text \<open>
  A model of liquid, a BitTorrent tracker in C++, and the proofs about it. Paths below are
  those of the repository, with \<open>src/\<close> for its sources and \<open>inc/\<close> for its headers.

  \<^bold>\<open>The program.\<close> \<open>main\<close> (src/main.cpp) reads the options and the configuration, loads
  users, torrents, bans, client whitelist and leech status from MySQL unless the tracker is
  public, and starts the libev loop of a server (src/network/server.cpp and its IPv4 and
  IPv6 variants). Every accepted client is a \<open>ConnectionHandler\<close>: it collects bytes until a
  request is complete, hands it to \<open>RequestHandler::handle\<close> once, writes the reply and
  closes. \<open>handle\<close> parses and checks the request (src/misc/parser.cpp), authorises it and
  runs an announce, a scrape or, under the update key of a private tracker, an
  administrative update. All state is static: the torrents with four peer tables each, the
  accounts by passkey, the bans, the whitelist, the leech status, the counters, and the
  queues of rows for the database. Two timers drop peers that no longer announce and turn
  the queued rows into SQL statements, which worker threads send.

  \<^bold>\<open>Theories and what they model.\<close>
  \<^item> \<open>Prelude\<close>: machine integers, C++ exceptions and undefined behaviour as values of \<open>exn\<close>,
    results \<open>exn + 'a\<close>, the locale \<open>keyed_container\<close> of maps with its instances, the locale
    \<open>invariant_machine\<close> of machines that keep an invariant.
  \<^item> \<open>CppStd\<close>: the string and number functions of the C++ library the program calls
    (\<open>std::stoul\<close>, \<open>std::stoi\<close>, \<open>std::to_string\<close>, \<open>substr\<close>, \<open>at\<close>, string search).
  \<^item> \<open>Config\<close> (src/misc/config.cpp), \<open>Utility\<close> and \<open>Gzip\<close> (src/misc/utility.cpp), \<open>Logger\<close>
    (src/misc/logger.cpp), \<open>Stats\<close> (src/misc/stats.cpp), \<open>Response\<close> (src/misc/response.cpp,
    with a specification of bencoding).
  \<^item> \<open>User\<close>, \<open>Peer\<close>, \<open>Peers\<close>, \<open>Torrent\<close> (the files of src/handler with these names): one
    record per class, one definition per method that changes state; \<open>User*\<close> pointers are
    indices of a store of accounts, pointers into the tables of a torrent are a slot and a
    key. The iterator of \<open>Peers::nextPeer\<close> is a cursor that can dangle.
  \<^item> \<open>Database\<close>: the write side of src/database/mysql.cpp; the locale \<open>sql_queue\<close> states what
    the five queues share. \<open>Workers\<close>: the worker threads interleaved with the event loop, an
    inductive step relation over single list operations. \<open>DbLoad\<close>: connecting, resetting, the
    queries and loaders, and \<open>RequestHandler::init\<close> and \<open>stop\<close>.
  \<^item> \<open>Parser\<close> (src/misc/parser.cpp): \<open>required\<close> and \<open>check\<close>, and the scanner of
    \<open>parse\<close> with its positions, translated loop by loop.
  \<^item> \<open>Announce\<close> (announce, getPeers and scrape of src/handler/requestHandler.cpp, block by
    block), \<open>AnnounceInv\<close> (the invariant \<open>tracker_ok\<close>), \<open>AnnounceReply\<close> (the replies
    against their specification), \<open>Listing\<close> (the set of listed peers and what an announce does
    to it), \<open>Accounting\<close> (when the balance and the corrupt counts are defined),
    \<open>AnnounceEffect\<close> (the effect on the tables), \<open>AnnounceRecords\<close> (the rows queued for the
    database), \<open>Credit\<close> (the account charged).
  \<^item> \<open>Admin\<close>: the update handlers of src/handler/requestHandler.cpp and their dispatch.
    \<open>RequestHandler\<close>: \<open>handle\<close>, \<open>clearTorrentPeers\<close>, \<open>flushSqlRecords\<close>, and the tracker as a
    machine (\<open>tracker_machine\<close>).
  \<^item> \<open>Connection\<close> (src/network/connectionHandler.cpp and its variants): one connection as an
    inductive step relation with reachable states. \<open>Server\<close> (src/network/server.cpp,
    serverIPv4.cpp, serverIPv6.cpp and src/main.cpp): options, the system calls of the server
    socket, \<open>main\<close> with its exit codes, the signal handler, accepted clients, and the machine
    of the whole server (\<open>server_machine\<close>).
  \<^item> \<open>Service\<close> and \<open>Robustness\<close>: the components together, an announce from the first byte
    received to the last byte sent, and which requests end the program. \<open>Swarm\<close>: the
    abstract tracker (per info hash the set of listed peers) that the code refines.

  \<^bold>\<open>What is proved.\<close> Each theory ends with its properties.
  \<^item> Invariants: every run of the server keeps passkeys, accounts, peers and tables
    consistent and every open connection in a legal state; in particular the compact
    address of every peer has its exact length and every peer of a private tracker has an
    account.
  \<^item> Safety: only an announce under an authorised account or an update under the key changes
    the tracker;
    passkeys, bans, whitelist and leech status need the key; refused requests change nothing.
  \<^item> Function: an admitted announce changes the listed peers of one torrent exactly as specified
    and no other entry; it is served under the conditions named below; the timer keeps exactly the peers that have not timed out; peers are listed round robin, without
    repetition, no more than wanted; replies are encodings of the specified values; bans cover
    cyclic ranges; loading the database gives its rows back.
  \<^item> Round trips: parsing a rendered request, decoding a percent-encoded hash.
  \<^item> Refinement: every run of the tracker is a run of the abstract tracker, whose actions have
    their causes among the events; so whoever is listed has announced.
  \<^item> End to end: an announce in any segments is answered with the bencoded state of the
    torrent after it; every sane client request gets a reply (the conditions are
    named below); what a client receives is always HTTP or the refusal of a long request.
  \<^item> Totality: \<open>parse\<close> and \<open>check\<close> never throw; enough write events send the whole reply. An
    admitted announce neither throws nor reaches undefined behaviour under conditions that the
    server does not guarantee and the theorems name: the port and the amounts are numbers and
    \<open>numwant\<close> is within \<open>2^26\<close> (\<open>request_ok\<close>), no cursor of the torrent dangles (\<open>cursors_ok\<close>),
    the corrupt counts it reads have a value and its amounts do not overflow the balance
    (\<open>accountable\<close>), and a peer that completes over IPv6 is not at the cursor of the IPv4
    leechers (\<open>spared\<close>). Lemmas show what goes wrong with an amount that is no number, a lost
    cursor, an unset corrupt count and a huge one.
  \<^item> Database: a flush turns every pending row into one statement per table, a worker neither
    loses nor reorders statements, and no interleaving of workers and event loop loses or
    repeats one; an announce queues one row for the peer and one for the torrent, whose
    columns are stated one by one, and one for
    the account stored with the peer, which it charges; loading the users gives
    exactly the accounts, tokens and restrictions of the database.
  \<^item> Start: \<open>main\<close> reaches its event loop exactly when the options are valid, the configuration
    loads, the system grants the socket (with the port in network byte order) and the database
    loads; the other ends of the program are characterised too.
  \<^item> Defects of the code, stated as theorems about what it does: the cursor that dangles
    after a removal, full and partial free leech, token expiry, truncated amounts, the leecher
    that never becomes a seeder, a passkey change onto a used passkey, the scrape count, the
    announce whose amounts are no numbers, the corrupt count read before it is set, the
    overflow of the balance a client can cause, the log message through an erased iterator.

  \<^bold>\<open>Bounds.\<close> The model needs no fuel: loops are structural recursions or terminate by a
  measure (the distance of the position to the end of the input in the scanner). The two
  counted loops have the count of the code: at most 8 characters of an action, and \<open>numwant\<close>
  peers. Integers follow LP64: \<open>unsigned char\<close>, \<open>unsigned int\<close> and \<open>unsigned long\<close> wrap at 8,
  32 and 64 bits; a signed \<open>int\<close> or \<open>long\<close> is an integer, and where a request can drive a
  result out of range (the product with \<open>numwant\<close>, the balance of a torrent) it is the
  undefined behaviour \<open>Signed_overflow\<close>. An assignment such as \<open>balance -= x\<close> with \<open>x\<close> of type
  \<open>unsigned long\<close> computes modulo \<open>2^64\<close> and converts back to \<open>long\<close>, as the usual arithmetic
  conversions say. The bounds of \<open>accountable\<close> (\<open>2^60\<close> for amounts, \<open>2^62\<close> for the balance)
  are such that one announce changes the balance by less than \<open>2^62\<close> and the sum stays below
  \<open>2^63\<close>. The loop of
  \<open>gzip_compress\<close> ends only when zlib ends its stream; it is a partial function, proved to
  return for every stream that ends.

  \<^bold>\<open>Parameters.\<close> What a run takes from outside is an argument: the clock readings,
  \<open>inet_pton\<close> (assumed to write as many bytes as an address has, \<open>pton_ok\<close>), the iteration
  order of hash tables, whether the storage of the member \<open>Peer::corrupt\<close>, which no constructor
  sets, holds a value that may be read (\<open>e_corrupt\<close>), whether logging is compiled in (\<open>e_logging\<close>),
  the results of \<open>accept\<close>, \<open>recv\<close>, \<open>send\<close> and \<open>getpeername\<close>, which system calls fail, the MySQL
  server (the rows it answers a query with, and whether a statement succeeds), zlib's
  \<open>deflate\<close>, and the content of files.

  \<^bold>\<open>Not modelled.\<close> The text of log messages of the handlers (that one of them reads an erased
  iterator is); that a rehash of an \<open>unordered_map\<close> may invalidate iterators, which the standard
  allows: the cursor of a table and its copies keep pointing at their nodes, as in the
  node-based tables of libstdc++ and libc++; that a statement the MySQL server refuses may have
  been executed; the internals of libev,
  libmysqlclient, zlib and the operating system. A list operation is atomic: that the event
  loop and a worker access a record list without a common lock, a data race, is a finding and
  not a behaviour of the model. The server machine runs a worker as one event; \<open>Workers\<close>
  shows that this is one of the interleavings. A signal is handled between two events.
\<close>

end
